(* ===== verification/Rgpot_Prelude.thy ===== *)
theory Rgpot_Prelude
  imports Main "HOL-Library.Word"
begin

text \<open>
  Shared material of the development: the machine types of the Rust core as
  \<open>word\<close> types, the named collections the component theories feed, generic
  lemmas on maps, lists and words, and the decimal printing that Rust's
  \<^verbatim>\<open>format!\<close> performs on integers.
\<close>

section \<open>Machine types\<close>

text \<open>
  The target is a 64-bit platform: \<^verbatim>\<open>usize\<close> has the width of \<^verbatim>\<open>i64\<close>, so the
  source's casts between them keep the bit pattern and need no function of
  their own.  An \<^verbatim>\<open>f64\<close> is its IEEE bit pattern: the core only copies such
  values, it never computes with them, so nothing depends on what the bits
  denote beyond \<^verbatim>\<open>0.0\<close> being the pattern 0.
\<close>

type_synonym i32 = "32 word"
type_synonym u32 = "32 word"
type_synonym u16 = "16 word"
type_synonym i64 = "64 word"
type_synonym usize = "64 word"
type_synonym f64 = "64 word"

text \<open>
  A raw pointer is the base address of an allocation (the core never does
  pointer arithmetic); 0 is NULL.  A function pointer is the address of code
  outside the core.
\<close>

type_synonym ptr = nat
type_synonym fnptr = nat
type_synonym tid = nat

abbreviation (input) null :: ptr where
  "null \<equiv> 0"

text \<open>
  \<open>exec\<close> collects the equations that execute the effectful primitives
  symbolically.
\<close>

named_theorems exec

section \<open>Maps\<close>

lemma restrict_map_compl_same [simp]:
  "m |` (- A) |` (- B) = m |` (- (A \<union> B))"
  by (auto simp: restrict_map_def fun_eq_iff)

lemma restrict_map_fresh [simp]: "dom m \<inter> A = {} \<Longrightarrow> m |` (- A) = m"
  by (rule ext) (auto simp: restrict_map_def disjoint_iff domIff eq_commute [of None])

lemma restrict_map_fresh1 [simp]: "m p = None \<Longrightarrow> m |` (- {p}) = m"
  by (rule restrict_map_fresh) (simp add: domIff)

lemma restrict_map_UNIV [simp]: "m |` UNIV = m"
  by (simp add: restrict_map_def)

lemma restrict_upd_in [simp]: "p \<in> A \<Longrightarrow> (m(p \<mapsto> v)) |` (- A) = m |` (- A)"
  by (rule ext) (auto simp: restrict_map_def)

lemma restrict_clear_in [simp]: "p \<in> A \<Longrightarrow> (m(p := None)) |` (- A) = m |` (- A)"
  by (rule ext) (auto simp: restrict_map_def)

lemma clear_as_restrict: "m(p := None) = m |` (- {p})"
  by (rule ext) (auto simp: restrict_map_def)

section \<open>Words\<close>

lemma sint_range_64:
  "- (2 ^ 63) \<le> sint (x :: 64 word)" "sint (x :: 64 word) < 2 ^ 63"
  using sint_greater_eq [of x] sint_less [of x] by simp_all

lemma sint_of_int_64: "- (2 ^ 63) \<le> k \<Longrightarrow> k < 2 ^ 63 \<Longrightarrow> sint (word_of_int k :: 64 word) = k"
  by (simp add: signed_of_int signed_take_bit_int_eq_self)

lemma unat_of_nat_64 [simp]: "n < 2 ^ 64 \<Longrightarrow> unat (word_of_nat n :: 64 word) = n"
  by (simp add: unat_of_nat take_bit_nat_eq_self)

lemma unat_of_nat_32 [simp]: "n < 2 ^ 32 \<Longrightarrow> unat (word_of_nat n :: 32 word) = n"
  by (simp add: unat_of_nat take_bit_nat_eq_self)

section \<open>Lists\<close>

lemma map_nth_upt [simp]: "map ((!) xs) [0..<length xs] = xs"
  by (simp add: map_nth)

section \<open>Printing integers\<close>

text \<open>The decimal rendering used by \<^verbatim>\<open>format!("{}", n)\<close>.\<close>

definition digit :: "nat \<Rightarrow> char" where
  "digit d = char_of (48 + d)"

fun show_nat :: "nat \<Rightarrow> string" where
  "show_nat n = (if n < 10 then [digit n] else show_nat (n div 10) @ [digit (n mod 10)])"

declare show_nat.simps [simp del]

definition show_int :: "int \<Rightarrow> string" where
  "show_int k = (if k < 0 then CHR ''-'' # show_nat (nat (- k)) else show_nat (nat k))"

text \<open>Reading the digits back: the inverse used to show that printing loses nothing.\<close>

fun read_nat :: "string \<Rightarrow> nat" where
  "read_nat s = foldl (\<lambda>acc c. 10 * acc + (of_char c - 48)) 0 s"

lemma of_char_digit: "d < 10 \<Longrightarrow> (of_char (digit d) :: nat) = 48 + d"
  by (simp add: digit_def of_char_of)

lemma read_show_nat: "read_nat (show_nat n) = n"
proof (induction n rule: show_nat.induct)
  case (1 n)
  show ?case
  proof (cases "n < 10")
    case True
    then show ?thesis by (subst show_nat.simps) (simp add: of_char_digit)
  next
    case False
    with "1" have "foldl (\<lambda>acc c. 10 * acc + (of_char c - 48)) 0 (show_nat (n div 10)) = n div 10"
      by simp
    with False show ?thesis by (subst show_nat.simps) (simp add: of_char_digit)
  qed
qed

lemma show_nat_inj: "show_nat m = show_nat n \<longleftrightarrow> m = n"
  by (metis read_show_nat)

lemma show_nat_digits: "c \<in> set (show_nat n) \<Longrightarrow> 48 \<le> (of_char c :: nat) \<and> (of_char c :: nat) < 58"
proof (induction n rule: show_nat.induct)
  case (1 n)
  show ?case
  proof (cases "n < 10")
    case True
    with "1.prems" show ?thesis
      by (subst (asm) show_nat.simps) (auto simp: of_char_digit)
  next
    case False
    with "1.prems" have "c \<in> set (show_nat (n div 10)) \<or> c = digit (n mod 10)"
      by (subst (asm) show_nat.simps) auto
    with False "1.IH" show ?thesis by (auto simp: of_char_digit)
  qed
qed

end
