(* ===== verification/Rgpot_Memory.thy ===== *)
theory Rgpot_Memory
  imports Rgpot_Prelude
begin

text \<open>
  The machine the Rust core runs on: the structures it allocates, a heap of
  typed blocks, the thread-local slots, and an outcome monad in which a panic,
  an abort and undefined behaviour are values.  The structures themselves are
  those of \<^verbatim>\<open>rgpot-core/src\<close> (tensor contexts, force input and output,
  potential handle, RPC client) and the DLPack ones they are built on.
\<close>

section \<open>DLPack structures\<close>

text \<open>
  The DLPack types come from the \<^verbatim>\<open>dlpk\<close> crate.  Their fields are those of the
  struct literals in \<^verbatim>\<open>tensor.rs\<close>; of the enumerations only the constants
  the core names are distinguished, every other one is an \<open>other\<close> value.
\<close>

datatype DLDataTypeCode = kDLInt | kDLFloat | other_code "8 word"

datatype DLDeviceType = kDLCPU | other_device i32

record DLDataType =
  code :: DLDataTypeCode
  bits :: "8 word"
  lanes :: u16

record DLDevice =
  device_type :: DLDeviceType
  device_id :: i32

record DLPackVersion =
  major :: u32
  minor :: u32

record DLTensor =
  t_data :: ptr
  t_device :: DLDevice
  t_ndim :: i32
  t_dtype :: DLDataType
  t_shape :: ptr
  t_strides :: ptr
  t_byte_offset :: "64 word"

text \<open>
  A deleter is a function pointer: one of the three deleters of
  \<^verbatim>\<open>tensor.rs\<close>, or that of a tensor made elsewhere.
\<close>

datatype deleter_fn =
    Borrowed_deleter | Owned_f64_deleter | Owned_i32_deleter | Foreign_deleter fnptr

record DLManagedTensorVersioned =
  version :: DLPackVersion
  manager_ctx :: ptr
  deleter :: "deleter_fn option"
  flags :: "64 word"
  dl_tensor :: DLTensor

section \<open>Structures of the core\<close>

text \<open>
  A \<^verbatim>\<open>Vec\<close> field is the address of the buffer it owns.
\<close>

record BorrowedTensorContext =
  bc_shape :: ptr
  bc_strides :: ptr

record OwnedF64TensorContext =
  ofc_data :: ptr
  ofc_shape :: ptr
  ofc_strides :: ptr

record OwnedI32TensorContext =
  oic_data :: ptr
  oic_shape :: ptr
  oic_strides :: ptr

record rgpot_force_input_t =
  positions :: ptr
  atomic_numbers :: ptr
  box_matrix :: ptr

record rgpot_force_out_t =
  forces :: ptr
  energy :: f64
  variance :: f64

record PotentialImpl =
  callback :: fnptr
  user_data :: ptr
  free_fn :: "fnptr option"

record RpcClient =
  runtime :: nat
  addr :: string

datatype rgpot_status_t =
    RGPOT_SUCCESS
  | RGPOT_INVALID_PARAMETER
  | RGPOT_INTERNAL_ERROR
  | RGPOT_RPC_ERROR
  | RGPOT_BUFFER_SIZE_ERROR

section \<open>Memory\<close>

text \<open>
  Every live allocation is one typed block.  \<open>User_block\<close> is an object the core
  only passes around (the target of \<^verbatim>\<open>user_data\<close>).  An empty \<^verbatim>\<open>Vec\<close>, which in
  Rust holds a dangling non-null pointer, has an empty block of its own.
\<close>

datatype block =
    F64s "f64 list"
  | I32s "i32 list"
  | I64s "i64 list"
  | Cstr string
  | Managed DLManagedTensorVersioned
  | Borrowed_ctx BorrowedTensorContext
  | Owned_f64_ctx OwnedF64TensorContext
  | Owned_i32_ctx OwnedI32TensorContext
  | Force_input rgpot_force_input_t
  | Force_out rgpot_force_out_t
  | Potential_impl PotentialImpl
  | Rpc_client RpcClient
  | User_block "u32"

type_synonym mem = "ptr \<rightharpoonup> block"

text \<open>
  \<open>brk\<close> is the next fresh address: an allocator that never reuses an address, so
  that a stale pointer stays distinguishable.  \<open>last_error_slot\<close> is the
  thread-local \<^verbatim>\<open>LAST_ERROR\<close>: \<open>None\<close> before a thread first touches it, then the
  address of the buffer of its \<^verbatim>\<open>CString\<close>.
\<close>

record world =
  heap :: mem
  brk :: ptr
  last_error_slot :: "tid \<Rightarrow> ptr option"
  thread :: tid

text \<open>
  A panic carries a payload; \<^verbatim>\<open>catch_unwind\<close> distinguishes the two string types
  from all others.
\<close>

datatype panic_payload = Str_payload string | String_payload string | Other_payload

datatype 'a outcome =
    Done 'a world
  | Panicked panic_payload world
  | Aborted
  | Undefined

type_synonym 'a comp = "world \<Rightarrow> 'a outcome"

definition ret :: "'a \<Rightarrow> 'a comp" where
  "ret x w = Done x w"

definition panic :: "panic_payload \<Rightarrow> 'a comp" where
  "panic p w = Panicked p w"

definition undef :: "'a comp" where
  "undef w = Undefined"

definition bnd :: "'a comp \<Rightarrow> ('a \<Rightarrow> 'b comp) \<Rightarrow> 'b comp" where
  "bnd m k w = (case m w of
      Done x w' \<Rightarrow> k x w'
    | Panicked p w' \<Rightarrow> Panicked p w'
    | Aborted \<Rightarrow> Aborted
    | Undefined \<Rightarrow> Undefined)"

text \<open>
  A panic that would leave an \<^verbatim>\<open>extern "C"\<close> function aborts the process (the rule
  since Rust 1.81).
\<close>

definition extern_C :: "'a comp \<Rightarrow> 'a comp" where
  "extern_C m w = (case m w of
      Done x w' \<Rightarrow> Done x w'
    | Panicked p w' \<Rightarrow> Aborted
    | Aborted \<Rightarrow> Aborted
    | Undefined \<Rightarrow> Undefined)"

subsection \<open>Allocation and access\<close>

definition push :: "block \<Rightarrow> world \<Rightarrow> world" where
  "push b w = w\<lparr>heap := (heap w)(brk w \<mapsto> b), brk := Suc (brk w)\<rparr>"

definition set_block :: "ptr \<Rightarrow> block \<Rightarrow> world \<Rightarrow> world" where
  "set_block p b w = w\<lparr>heap := (heap w)(p \<mapsto> b)\<rparr>"

definition drop_blocks :: "ptr set \<Rightarrow> world \<Rightarrow> world" where
  "drop_blocks F w = w\<lparr>heap := heap w |` (- F)\<rparr>"

definition alloc :: "block \<Rightarrow> ptr comp" where
  "alloc b w = Done (brk w) (push b w)"

definition dealloc :: "ptr \<Rightarrow> unit comp" where
  "dealloc p w = (case heap w p of None \<Rightarrow> Undefined | Some _ \<Rightarrow> Done () (drop_blocks {p} w))"

text \<open>
  Typed reads.  Reading through a null or dangling pointer, or at another type
  than the block has, is undefined.
\<close>

definition load_managed :: "ptr \<Rightarrow> DLManagedTensorVersioned comp" where
  "load_managed p w = (case heap w p of Some (Managed m) \<Rightarrow> Done m w | _ \<Rightarrow> Undefined)"

definition load_input :: "ptr \<Rightarrow> rgpot_force_input_t comp" where
  "load_input p w = (case heap w p of Some (Force_input i) \<Rightarrow> Done i w | _ \<Rightarrow> Undefined)"

definition load_out :: "ptr \<Rightarrow> rgpot_force_out_t comp" where
  "load_out p w = (case heap w p of Some (Force_out r) \<Rightarrow> Done r w | _ \<Rightarrow> Undefined)"

definition load_pot :: "ptr \<Rightarrow> PotentialImpl comp" where
  "load_pot p w = (case heap w p of Some (Potential_impl i) \<Rightarrow> Done i w | _ \<Rightarrow> Undefined)"

definition load_client :: "ptr \<Rightarrow> RpcClient comp" where
  "load_client p w = (case heap w p of Some (Rpc_client c) \<Rightarrow> Done c w | _ \<Rightarrow> Undefined)"

definition load_cstr :: "ptr \<Rightarrow> string comp" where
  "load_cstr p w = (case heap w p of Some (Cstr s) \<Rightarrow> Done s w | _ \<Rightarrow> Undefined)"

definition store_input :: "ptr \<Rightarrow> rgpot_force_input_t \<Rightarrow> unit comp" where
  "store_input p i = bnd (load_input p) (\<lambda>_ w. Done () (set_block p (Force_input i) w))"

definition store_out :: "ptr \<Rightarrow> rgpot_force_out_t \<Rightarrow> unit comp" where
  "store_out p r = bnd (load_out p) (\<lambda>_ w. Done () (set_block p (Force_out r) w))"

text \<open>
  \<^verbatim>\<open>std::slice::from_raw_parts(p, n)\<close>: \<open>n\<close> elements from the start of a buffer.
  The pointer must not be null, even for an empty slice.
\<close>

definition f64_slice :: "ptr \<Rightarrow> nat \<Rightarrow> f64 list comp" where
  "f64_slice p n w =
     (if p = null then Undefined
      else if n = 0 then Done [] w
      else case heap w p of
             Some (F64s xs) \<Rightarrow> (if n \<le> length xs then Done (take n xs) w else Undefined)
           | _ \<Rightarrow> Undefined)"

definition i32_slice :: "ptr \<Rightarrow> nat \<Rightarrow> i32 list comp" where
  "i32_slice p n w =
     (if p = null then Undefined
      else if n = 0 then Done [] w
      else case heap w p of
             Some (I32s xs) \<Rightarrow> (if n \<le> length xs then Done (take n xs) w else Undefined)
           | _ \<Rightarrow> Undefined)"

definition i64_slice :: "ptr \<Rightarrow> nat \<Rightarrow> i64 list comp" where
  "i64_slice p n w =
     (if p = null then Undefined
      else if n = 0 then Done [] w
      else case heap w p of
             Some (I64s xs) \<Rightarrow> (if n \<le> length xs then Done (take n xs) w else Undefined)
           | _ \<Rightarrow> Undefined)"

text \<open>Dropping a \<^verbatim>\<open>Vec\<close> frees its buffer, which must still be one.\<close>

definition drop_vec_f64 :: "ptr \<Rightarrow> unit comp" where
  "drop_vec_f64 p w = (case heap w p of Some (F64s _) \<Rightarrow> dealloc p w | _ \<Rightarrow> Undefined)"

definition drop_vec_i32 :: "ptr \<Rightarrow> unit comp" where
  "drop_vec_i32 p w = (case heap w p of Some (I32s _) \<Rightarrow> dealloc p w | _ \<Rightarrow> Undefined)"

definition drop_vec_i64 :: "ptr \<Rightarrow> unit comp" where
  "drop_vec_i64 p w = (case heap w p of Some (I64s _) \<Rightarrow> dealloc p w | _ \<Rightarrow> Undefined)"

section \<open>The environment\<close>

text \<open>
  What the core calls but does not contain: the callbacks, destructors and
  foreign deleters behind the function pointers it is given, the DLPack flag
  constant, and the \<^verbatim>\<open>Debug\<close> text of a data type.  \<open>overflow_checks\<close> is the
  compilation profile: with it an overflowing product panics, without it the
  product wraps.
\<close>

record env =
  overflow_checks :: bool
  is_copied_flag :: "64 word"
  debug_dtype :: "DLDataType \<Rightarrow> string"
  callback_code :: "fnptr \<Rightarrow> ptr \<Rightarrow> ptr \<Rightarrow> ptr \<Rightarrow> rgpot_status_t comp"
  free_fn_code :: "fnptr \<Rightarrow> ptr \<Rightarrow> unit comp"
  foreign_deleter_code :: "fnptr \<Rightarrow> ptr \<Rightarrow> unit comp"

definition mul_overflow_message :: string where
  "mul_overflow_message = ''attempt to multiply with overflow''"

text \<open>The multiplication of \<^verbatim>\<open>i64\<close> and of \<^verbatim>\<open>usize\<close>.\<close>

definition mul_i64 :: "'x env_scheme \<Rightarrow> i64 \<Rightarrow> i64 \<Rightarrow> i64 comp" where
  "mul_i64 E a b =
     (if overflow_checks E \<and> (sint a * sint b < - (2 ^ 63) \<or> 2 ^ 63 \<le> sint a * sint b)
      then panic (Str_payload mul_overflow_message) else ret (a * b))"

definition mul_usize :: "'x env_scheme \<Rightarrow> usize \<Rightarrow> usize \<Rightarrow> usize comp" where
  "mul_usize E a b =
     (if overflow_checks E \<and> 2 ^ 64 \<le> unat a * unat b
      then panic (Str_payload mul_overflow_message) else ret (a * b))"

section \<open>Executing programs symbolically\<close>

lemmas monad_defs [exec] = ret_def panic_def undef_def bnd_def extern_C_def

lemmas access_defs [exec] =
  alloc_def load_managed_def load_input_def load_out_def load_pot_def load_client_def
  load_cstr_def store_input_def store_out_def drop_vec_f64_def drop_vec_i32_def drop_vec_i64_def
  dealloc_def

lemma push_sel [simp]:
  "heap (push b w) = (heap w)(brk w \<mapsto> b)"
  "brk (push b w) = Suc (brk w)"
  "last_error_slot (push b w) = last_error_slot w"
  "thread (push b w) = thread w"
  by (simp_all add: push_def)

lemma set_block_sel [simp]:
  "heap (set_block p b w) = (heap w)(p \<mapsto> b)"
  "brk (set_block p b w) = brk w"
  "last_error_slot (set_block p b w) = last_error_slot w"
  "thread (set_block p b w) = thread w"
  by (simp_all add: set_block_def)

lemma drop_blocks_sel [simp]:
  "heap (drop_blocks F w) = heap w |` (- F)"
  "brk (drop_blocks F w) = brk w"
  "last_error_slot (drop_blocks F w) = last_error_slot w"
  "thread (drop_blocks F w) = thread w"
  by (simp_all add: drop_blocks_def)

lemma drop_blocks_drop_blocks [simp]: "drop_blocks F (drop_blocks G w) = drop_blocks (G \<union> F) w"
  by (simp add: drop_blocks_def)

lemma drop_blocks_empty [simp]: "drop_blocks {} w = w"
  by (simp add: drop_blocks_def)

text \<open>Monad laws, used to regroup sequences of calls.\<close>

lemma bnd_ret [simp]: "bnd (ret x) k = k x"
  by (rule ext) (simp add: exec)

lemma bnd_ret_right [simp]: "bnd m ret = m"
  by (rule ext) (simp add: exec split: outcome.split)

lemma bnd_assoc: "bnd (bnd m k) l = bnd m (\<lambda>x. bnd (k x) l)"
  by (rule ext) (simp add: exec split: outcome.split)

lemma bnd_Done: "m w = Done x w' \<Longrightarrow> bnd m k w = k x w'"
  by (simp add: exec)

lemma extern_C_Done: "m w = Done x w' \<Longrightarrow> extern_C m w = Done x w'"
  by (simp add: exec)

lemma extern_C_no_panic: "extern_C m w \<noteq> Panicked p w'"
  by (simp add: exec split: outcome.split)

subsection \<open>Arithmetic\<close>

lemma mul_i64_one [simp]: "mul_i64 E 1 b = ret b"
  using sint_range_64 [of b] by (auto simp: mul_i64_def)

lemma sint_mult_64:
  fixes a b :: i64
  assumes "- (2 ^ 63) \<le> sint a * sint b" "sint a * sint b < 2 ^ 63"
  shows "sint (a * b) = sint a * sint b"
proof -
  have "a * b = word_of_int (sint a * sint b)" by simp
  with assms show ?thesis by (simp only: sint_of_int_64)
qed

lemma unat_mult_64:
  "unat (a :: usize) * unat b < 2 ^ 64 \<Longrightarrow> unat (a * b) = unat a * unat b"
  by (simp add: unat_word_ariths)

lemma mul_usize_fits: "unat a * unat b < 2 ^ 64 \<Longrightarrow> mul_usize E a b = ret (a * b)"
  by (simp add: mul_usize_def)

subsection \<open>Slices\<close>

lemma slice_exact:
  "p \<noteq> null \<Longrightarrow> heap w p = Some (F64s xs) \<Longrightarrow> f64_slice p (length xs) w = Done xs w"
  "p \<noteq> null \<Longrightarrow> heap w p = Some (I32s ys) \<Longrightarrow> i32_slice p (length ys) w = Done ys w"
  "p \<noteq> null \<Longrightarrow> heap w p = Some (I64s zs) \<Longrightarrow> i64_slice p (length zs) w = Done zs w"
  by (simp_all add: f64_slice_def i32_slice_def i64_slice_def)

text \<open>A slice longer than its buffer is an out-of-bounds read.\<close>

lemma f64_slice_short:
  "heap w p = Some (F64s xs) \<Longrightarrow> length xs < n \<Longrightarrow> f64_slice p n w = Undefined"
  by (simp add: f64_slice_def)

section \<open>Well-formed worlds\<close>

text \<open>
  The invariant of the machine: nothing lives at NULL or above \<open>brk\<close>, and every
  initialised error slot holds the buffer of a C string without interior NUL,
  no two threads the same one.
\<close>

definition nul_free :: "string \<Rightarrow> bool" where
  "nul_free s \<longleftrightarrow> CHR 0x00 \<notin> set s"

definition world_ok :: "world \<Rightarrow> bool" where
  "world_ok w \<longleftrightarrow>
     0 < brk w \<and>
     (\<forall>p. heap w p \<noteq> None \<longrightarrow> 0 < p \<and> p < brk w) \<and>
     (\<forall>t p. last_error_slot w t = Some p \<longrightarrow> (\<exists>s. heap w p = Some (Cstr s) \<and> nul_free s)) \<and>
     (\<forall>t t' p. last_error_slot w t = Some p \<and> last_error_slot w t' = Some p \<longrightarrow> t = t')"

lemma world_ok_brk: "world_ok w \<Longrightarrow> 0 < brk w"
  by (simp add: world_ok_def)

lemma world_ok_fresh: "world_ok w \<Longrightarrow> brk w \<le> p \<Longrightarrow> heap w p = None"
  unfolding world_ok_def by (meson not_le)

lemma world_ok_null: "world_ok w \<Longrightarrow> heap w 0 = None"
  unfolding world_ok_def by (meson less_irrefl)

lemma world_ok_less: "world_ok w \<Longrightarrow> heap w p = Some b \<Longrightarrow> 0 < p \<and> p < brk w"
  unfolding world_ok_def by (metis option.distinct(1))

lemma world_ok_slot:
  "world_ok w \<Longrightarrow> last_error_slot w t = Some p \<Longrightarrow> \<exists>s. heap w p = Some (Cstr s) \<and> nul_free s"
  by (simp add: world_ok_def)

lemma world_ok_slot_inj:
  "world_ok w \<Longrightarrow> last_error_slot w t = Some p \<Longrightarrow> last_error_slot w t' = Some p \<Longrightarrow> t = t'"
  unfolding world_ok_def by blast

lemma world_okI:
  assumes "0 < brk w" "\<And>p b. heap w p = Some b \<Longrightarrow> 0 < p \<and> p < brk w"
    and "\<And>t p. last_error_slot w t = Some p \<Longrightarrow> \<exists>s. heap w p = Some (Cstr s) \<and> nul_free s"
    and "\<And>t t' p. last_error_slot w t = Some p \<Longrightarrow> last_error_slot w t' = Some p \<Longrightarrow> t = t'"
  shows "world_ok w"
  unfolding world_ok_def using assms by (metis not_None_eq)

lemma world_ok_push [intro]:
  assumes ok: "world_ok w"
  shows "world_ok (push b w)"
proof (rule world_okI)
  show "0 < p \<and> p < brk (push b w)" if "heap (push b w) p = Some c" for p c
    using that world_ok_less [OF ok, of p] world_ok_brk [OF ok] by (cases "p = brk w") auto
  show "\<exists>s. heap (push b w) p = Some (Cstr s) \<and> nul_free s"
    if "last_error_slot (push b w) t = Some p" for t p
    using that world_ok_slot [OF ok, of t p] world_ok_less [OF ok, of p] by auto
qed (use ok in \<open>auto dest: world_ok_slot_inj\<close>)

lemma world_ok_higher: "world_ok w \<Longrightarrow> brk w \<le> m \<Longrightarrow> world_ok (w\<lparr>brk := m\<rparr>)"
  unfolding world_ok_def by (auto intro: less_le_trans)

text \<open>Freeing or overwriting blocks that are not error messages keeps it.\<close>

definition is_cstr :: "block option \<Rightarrow> bool" where
  "is_cstr b \<longleftrightarrow> (\<exists>s. b = Some (Cstr s))"

lemma is_cstr_simps [simp]:
  "is_cstr (Some (Cstr s))" "\<not> is_cstr None" "\<not> is_cstr (Some (F64s xs))"
  "\<not> is_cstr (Some (I32s ys))" "\<not> is_cstr (Some (I64s zs))" "\<not> is_cstr (Some (Managed m))"
  "\<not> is_cstr (Some (Borrowed_ctx bc))" "\<not> is_cstr (Some (Owned_f64_ctx fc))"
  "\<not> is_cstr (Some (Owned_i32_ctx ic))" "\<not> is_cstr (Some (Force_input i))"
  "\<not> is_cstr (Some (Force_out r))" "\<not> is_cstr (Some (Potential_impl q))"
  "\<not> is_cstr (Some (Rpc_client c))" "\<not> is_cstr (Some (User_block u))"
  by (simp_all add: is_cstr_def)

lemma world_ok_drop [intro]:
  assumes ok: "world_ok w" and F: "\<And>p. p \<in> F \<Longrightarrow> \<not> is_cstr (heap w p)"
  shows "world_ok (drop_blocks F w)"
proof (rule world_okI)
  show "0 < p \<and> p < brk (drop_blocks F w)" if "heap (drop_blocks F w) p = Some c" for p c
    using that world_ok_less [OF ok, of p] by (auto simp: restrict_map_def split: if_splits)
  show "\<exists>s. heap (drop_blocks F w) p = Some (Cstr s) \<and> nul_free s"
    if "last_error_slot (drop_blocks F w) t = Some p" for t p
    using that world_ok_slot [OF ok, of t p] F [of p] by (auto simp: restrict_map_def)
qed (use ok in \<open>auto dest: world_ok_slot_inj world_ok_brk\<close>)

lemma world_ok_set_block [intro]:
  assumes ok: "world_ok w" and p: "heap w p = Some b'" and b': "\<not> is_cstr (Some b')"
  shows "world_ok (set_block p b w)"
proof (rule world_okI)
  show "0 < q \<and> q < brk (set_block p b w)" if "heap (set_block p b w) q = Some c" for q c
    using that world_ok_less [OF ok, of q] world_ok_less [OF ok p] by (cases "q = p") auto
  show "\<exists>s. heap (set_block p b w) q = Some (Cstr s) \<and> nul_free s"
    if "last_error_slot (set_block p b w) t = Some q" for t q
    using that world_ok_slot [OF ok, of t q] p b' by (cases "q = p") auto
qed (use ok in \<open>auto dest: world_ok_slot_inj world_ok_brk\<close>)

section \<open>Growing the heap\<close>

text \<open>
  \<open>grows w w' F\<close>: between \<open>w\<close> and \<open>w'\<close> only fresh memory was written, and \<open>F\<close>
  holds every address it was given.
\<close>

definition grows :: "world \<Rightarrow> world \<Rightarrow> ptr set \<Rightarrow> bool" where
  "grows w w' F \<longleftrightarrow>
     F \<subseteq> {brk w..<brk w'} \<and> brk w \<le> brk w' \<and> heap w' |` (- F) = heap w \<and>
     last_error_slot w' = last_error_slot w \<and> thread w' = thread w \<and> world_ok w'"

lemma growsD:
  assumes "grows w w' F"
  shows "world_ok w'" "last_error_slot w' = last_error_slot w" "thread w' = thread w"
    "brk w \<le> brk w'" "heap w' |` (- F) = heap w" "F \<subseteq> {brk w..<brk w'}"
  using assms by (simp_all add: grows_def)

lemma grows_refl: "world_ok w \<Longrightarrow> grows w w {}"
  by (simp add: grows_def)

lemma grows_push: "world_ok w \<Longrightarrow> grows w (push b w) {brk w}"
  using world_ok_fresh [of w "brk w"] by (auto simp: grows_def)

lemma grows_old: "grows w w' F \<Longrightarrow> p < brk w \<Longrightarrow> heap w' p = heap w p"
proof -
  assume g: "grows w w' F" and p: "p < brk w"
  from g p have "p \<notin> F" by (auto simp: grows_def)
  then have "heap w' p = (heap w' |` (- F)) p" by simp
  with g show ?thesis by (simp add: grows_def)
qed

lemma grows_keeps: "grows w w' F \<Longrightarrow> world_ok w \<Longrightarrow> heap w p = Some b \<Longrightarrow> heap w' p = Some b"
  using grows_old [of w w' F p] world_ok_less [of w p b] by simp

lemma grows_live: "grows w w' F \<Longrightarrow> world_ok w \<Longrightarrow> heap w p \<noteq> None \<Longrightarrow> heap w' p = heap w p"
  using grows_keeps by force

lemma grows_trans:
  assumes g: "grows w w1 F" and g': "grows w1 w2 G"
  shows "grows w w2 (F \<union> G)"
proof -
  have "heap w2 |` (- (F \<union> G)) = (heap w2 |` (- G)) |` (- F)" by (simp add: Int_commute)
  with g g' show ?thesis by (auto simp: grows_def)
qed

lemma grows_pushes: "world_ok w \<Longrightarrow> grows w (fold push bs w) {brk w..<brk w + length bs}"
proof (induction bs arbitrary: w)
  case Nil
  then show ?case by (simp add: grows_refl)
next
  case (Cons b bs)
  have "{brk w} \<union> {brk (push b w)..<brk (push b w) + length bs} = {brk w..<brk w + length (b # bs)}"
    by auto
  with grows_trans [OF grows_push [OF Cons.prems] Cons.IH [of "push b w"]] Cons.prems
  show ?case by (simp add: world_ok_push)
qed

lemma grows_push4:
  assumes "world_ok w"
  shows "grows w (push b4 (push b3 (push b2 (push b1 w)))) {brk w, brk w + 1, brk w + 2, brk w + 3}"
proof -
  have "{brk w..<brk w + 4} = {brk w, brk w + 1, brk w + 2, brk w + 3}" by auto
  with grows_pushes [OF assms, of "[b1, b2, b3, b4]"] show ?thesis by (simp add: eval_nat_numeral)
qed

lemma grows_push5:
  assumes "world_ok w"
  shows "grows w (push b5 (push b4 (push b3 (push b2 (push b1 w)))))
     {brk w, brk w + 1, brk w + 2, brk w + 3, brk w + 4}"
proof -
  have "{brk w..<brk w + 5} = {brk w, brk w + 1, brk w + 2, brk w + 3, brk w + 4}" by auto
  with grows_pushes [OF assms, of "[b1, b2, b3, b4, b5]"] show ?thesis by (simp add: eval_nat_numeral)
qed

text \<open>Giving all of it back restores the state, apart from the allocator's cursor.\<close>

lemma grows_drop: "grows w w' F \<Longrightarrow> drop_blocks F w' = w\<lparr>brk := brk w'\<rparr>"
  by (simp add: grows_def drop_blocks_def)

section \<open>Resources with a destructor\<close>

text \<open>
  The interface shared by the handles of the core: a representation in memory
  with a footprint, and an operation that frees it.  A client of a resource needs
  to know that the representation depends on its footprint only, that freeing it
  removes exactly that footprint, and that freeing a dangling handle is an error.
\<close>

fun free_all :: "(ptr \<Rightarrow> unit comp) \<Rightarrow> ptr list \<Rightarrow> unit comp" where
  "free_all free_op [] = ret ()"
| "free_all free_op (t # ts) = bnd (free_op t) (\<lambda>_. free_all free_op ts)"

text \<open>Resources that coexist: each represented, with disjoint footprints.\<close>

fun coexist :: "(mem \<Rightarrow> ptr \<Rightarrow> 'v \<Rightarrow> ptr set \<Rightarrow> bool) \<Rightarrow> mem \<Rightarrow> (ptr \<times> 'v \<times> ptr set) list \<Rightarrow> bool" where
  "coexist rep h [] = True"
| "coexist rep h ((t, v, F) # rs) =
     (rep h t v F \<and> F \<inter> \<Union> (set (map (\<lambda>r. snd (snd r)) rs)) = {} \<and> coexist rep h rs)"

abbreviation footprint :: "(ptr \<times> 'v \<times> ptr set) list \<Rightarrow> ptr set" where
  "footprint rs \<equiv> \<Union> (set (map (\<lambda>r. snd (snd r)) rs))"

locale resource =
  fixes rep :: "mem \<Rightarrow> ptr \<Rightarrow> 'v \<Rightarrow> ptr set \<Rightarrow> bool"
    and free_op :: "ptr \<Rightarrow> unit comp"
  assumes rep_frame: "rep h t v F \<Longrightarrow> (\<And>p. p \<in> F \<Longrightarrow> h' p = h p) \<Longrightarrow> rep h' t v F"
    and rep_self: "rep h t v F \<Longrightarrow> t \<in> F \<and> t \<noteq> null"
    and rep_live: "rep h t v F \<Longrightarrow> p \<in> F \<Longrightarrow> h p \<noteq> None \<and> \<not> is_cstr (h p)"
    and free_rep: "rep (heap w) t v F \<Longrightarrow> free_op t w = Done () (drop_blocks F w)"
    and free_dangling: "t \<noteq> null \<Longrightarrow> heap w t = None \<Longrightarrow> free_op t w = Undefined"
begin

lemma rep_grows:
  assumes r: "rep (heap w) t v F" and ok: "world_ok w" and g: "grows w w' G"
  shows "rep (heap w') t v F"
  using r by (rule rep_frame) (rule grows_live [OF g ok], use rep_live [OF r] in blast)

lemma rep_drop: "rep h t v F \<Longrightarrow> F \<inter> G = {} \<Longrightarrow> rep (h |` (- G)) t v F"
  by (erule rep_frame) (auto simp: restrict_map_def)

lemma free_restores:
  "grows w w' F \<Longrightarrow> rep (heap w') t v F \<Longrightarrow> free_op t w' = Done () (w\<lparr>brk := brk w'\<rparr>)"
  by (simp add: free_rep grows_drop)

lemma free_ok:
  "rep (heap w) t v F \<Longrightarrow> world_ok w \<Longrightarrow>
     \<exists>w'. free_op t w = Done () w' \<and> world_ok w' \<and> heap w' = heap w |` (- F)"
  using rep_live by (auto simp: free_rep intro!: world_ok_drop)

lemma double_free:
  "rep (heap w) t v F \<Longrightarrow> bnd (free_op t) (\<lambda>_. free_op t) w = Undefined"
  using rep_self by (fastforce simp: bnd_def free_rep intro: free_dangling)

lemma coexist_frame:
  "coexist rep h rs \<Longrightarrow> (\<And>p. p \<in> footprint rs \<Longrightarrow> h' p = h p) \<Longrightarrow> coexist rep h' rs"
proof (induction rs)
  case (Cons r rs)
  then show ?case by (cases r) (auto intro: rep_frame)
qed simp

lemma coexist_live: "coexist rep h rs \<Longrightarrow> p \<in> footprint rs \<Longrightarrow> h p \<noteq> None \<and> \<not> is_cstr (h p)"
proof (induction rs)
  case (Cons r rs)
  then show ?case using rep_live by (cases r) auto
qed simp

lemma coexist_grows:
  assumes r: "coexist rep (heap w) rs" and ok: "world_ok w" and g: "grows w w' G"
  shows "coexist rep (heap w') rs"
  using r by (rule coexist_frame) (rule grows_live [OF g ok], use coexist_live [OF r] in blast)

lemma free_all_coexist:
  "coexist rep (heap w) rs \<Longrightarrow>
     free_all free_op (map fst rs) w = Done () (drop_blocks (footprint rs) w)"
proof (induction rs arbitrary: w)
  case Nil
  then show ?case by (simp add: ret_def)
next
  case (Cons r rs)
  obtain t v F where r: "r = (t, v, F)" by (cases r)
  from Cons.prems have "rep (heap w) t v F" and disj: "F \<inter> footprint rs = {}"
    and rest: "coexist rep (heap w) rs" by (simp_all add: r)
  then have free: "free_op t w = Done () (drop_blocks F w)" by (simp add: free_rep)
  have "coexist rep (heap (drop_blocks F w)) rs"
    using rest by (rule coexist_frame) (use disj in \<open>auto simp: restrict_map_def\<close>)
  from Cons.IH [OF this] free show ?case by (simp add: r bnd_def)
qed

end

section \<open>Local variables\<close>

text \<open>
  Local variables whose address is taken are blocks, released when the scope ends,
  also by a panic.
\<close>

definition with_locals :: "ptr list \<Rightarrow> 'a comp \<Rightarrow> 'a comp" where
  "with_locals ls body w = (case body w of
      Done x w' \<Rightarrow> bnd (free_all dealloc ls) (\<lambda>_. ret x) w'
    | Panicked e w' \<Rightarrow> bnd (free_all dealloc ls) (\<lambda>_. panic e) w'
    | Aborted \<Rightarrow> Aborted
    | Undefined \<Rightarrow> Undefined)"

lemma free_all_dealloc:
  "distinct ls \<Longrightarrow> (\<And>p. p \<in> set ls \<Longrightarrow> heap w p \<noteq> None) \<Longrightarrow>
     free_all dealloc ls w = Done () (drop_blocks (set ls) w)"
proof (induction ls arbitrary: w)
  case Nil
  then show ?case by (simp add: ret_def)
next
  case (Cons l ls)
  from Cons.prems(2) [of l] have "dealloc l w = Done () (drop_blocks {l} w)" by (auto simp: dealloc_def)
  moreover have "free_all dealloc ls (drop_blocks {l} w) = Done () (drop_blocks (set ls) (drop_blocks {l} w))"
    using Cons.prems by (intro Cons.IH) (auto simp: restrict_map_def)
  ultimately show ?case by (simp add: bnd_def)
qed

lemma with_locals_Done:
  assumes "body w = Done x w'" and "distinct ls" and "\<And>p. p \<in> set ls \<Longrightarrow> heap w' p \<noteq> None"
  shows "with_locals ls body w = Done x (drop_blocks (set ls) w')"
  using assms free_all_dealloc [of ls w'] by (simp add: with_locals_def bnd_def ret_def)

text \<open>A scope's blocks, all fresh, are gone when it ends, and nothing else is.\<close>

lemma scope_ends:
  assumes g: "grows w w' K" and "p \<in> K"
  shows "drop_blocks K ((set_block p b w')\<lparr>brk := m\<rparr>) = w\<lparr>brk := m\<rparr>"
proof -
  have "(heap w')(p \<mapsto> b) |` (- K) = heap w' |` (- K)" using assms(2) by auto
  with g show ?thesis by (simp add: grows_def drop_blocks_def set_block_def)
qed

text \<open>The state of a process that has allocated nothing, on its first thread.\<close>

definition boot_world :: world where
  "boot_world = \<lparr>heap = Map.empty, brk = 1, last_error_slot = (\<lambda>_. None), thread = 0\<rparr>"

lemma boot_world_ok [simp]: "world_ok boot_world"
  by (simp add: world_ok_def boot_world_def)

end
