(* ===== verification/Rgpot_Text.thy ===== *)
theory Rgpot_Text
  imports Rgpot_Memory
begin

text \<open>
  The text handling of the Rust standard library that the core relies on: the
  construction of a \<^verbatim>\<open>CString\<close>, the check behind \<^verbatim>\<open>CStr::to_str\<close>, the rendering
  of its error, and the \<^verbatim>\<open>host:port\<close> address.  A string is its bytes.
\<close>

section \<open>C strings\<close>

text \<open>\<^verbatim>\<open>CString::new\<close> refuses an interior NUL.\<close>

definition CString_new :: "string \<Rightarrow> string option" where
  "CString_new s = (if nul_free s then Some s else None)"

lemma nul_free_append [simp]: "nul_free (s @ t) \<longleftrightarrow> nul_free s \<and> nul_free t"
  by (auto simp: nul_free_def)

lemma nul_free_Nil [simp]: "nul_free []"
  by (simp add: nul_free_def)

lemma nul_free_Cons: "nul_free (c # s) \<longleftrightarrow> c \<noteq> CHR 0x00 \<and> nul_free s"
  by (auto simp: nul_free_def)

section \<open>UTF-8\<close>

text \<open>
  \<open>utf8_error i bs\<close> is the first error of the bytes \<open>bs\<close>, which start at index \<open>i\<close>:
  \<^verbatim>\<open>valid_up_to\<close> and \<^verbatim>\<open>error_len\<close> of Rust's \<^verbatim>\<open>Utf8Error\<close>, where no length means that
  the input ends inside a character.
\<close>

definition utf8_cont :: "nat \<Rightarrow> bool" where
  "utf8_cont b \<longleftrightarrow> 128 \<le> b \<and> b \<le> 191"

definition utf8_second3 :: "nat \<Rightarrow> nat \<Rightarrow> bool" where
  "utf8_second3 b c \<longleftrightarrow>
     (if b = 224 then 160 \<le> c \<and> c \<le> 191
      else if b = 237 then 128 \<le> c \<and> c \<le> 159
      else utf8_cont c)"

definition utf8_second4 :: "nat \<Rightarrow> nat \<Rightarrow> bool" where
  "utf8_second4 b c \<longleftrightarrow>
     (if b = 240 then 144 \<le> c \<and> c \<le> 191
      else if b = 244 then 128 \<le> c \<and> c \<le> 143
      else utf8_cont c)"

fun utf8_error :: "nat \<Rightarrow> nat list \<Rightarrow> (nat \<times> nat option) option" where
  "utf8_error i [] = None"
| "utf8_error i (b # bs) =
     (if b < 128 then utf8_error (i + 1) bs
      else if 194 \<le> b \<and> b \<le> 223 then
        (case bs of
           [] \<Rightarrow> Some (i, None)
         | c # cs \<Rightarrow> if utf8_cont c then utf8_error (i + 2) cs else Some (i, Some 1))
      else if 224 \<le> b \<and> b \<le> 239 then
        (case bs of
           [] \<Rightarrow> Some (i, None)
         | c # cs \<Rightarrow>
             if \<not> utf8_second3 b c then Some (i, Some 1)
             else (case cs of
                     [] \<Rightarrow> Some (i, None)
                   | d # ds \<Rightarrow> if utf8_cont d then utf8_error (i + 3) ds else Some (i, Some 2)))
      else if 240 \<le> b \<and> b \<le> 244 then
        (case bs of
           [] \<Rightarrow> Some (i, None)
         | c # cs \<Rightarrow>
             if \<not> utf8_second4 b c then Some (i, Some 1)
             else (case cs of
                     [] \<Rightarrow> Some (i, None)
                   | d # ds \<Rightarrow>
                       if \<not> utf8_cont d then Some (i, Some 2)
                       else (case ds of
                               [] \<Rightarrow> Some (i, None)
                             | e # es \<Rightarrow>
                                 if utf8_cont e then utf8_error (i + 4) es
                                 else Some (i, Some 3))))
      else Some (i, Some 1))"

definition show_utf8_error :: "nat \<times> nat option \<Rightarrow> string" where
  "show_utf8_error e =
     (case snd e of
        Some n \<Rightarrow> ''invalid utf-8 sequence of '' @ show_nat n @ '' bytes from index '' @ show_nat (fst e)
      | None \<Rightarrow> ''incomplete utf-8 byte sequence from index '' @ show_nat (fst e))"

text \<open>\<^verbatim>\<open>CStr::to_str\<close>: the string, or the rendered error.\<close>

definition to_str :: "string \<Rightarrow> string + string" where
  "to_str s = (case utf8_error 0 (map of_char s) of
      None \<Rightarrow> Inr s
    | Some e \<Rightarrow> Inl (show_utf8_error e))"

lemma utf8_error_ascii: "(\<And>b. b \<in> set bs \<Longrightarrow> b < 128) \<Longrightarrow> utf8_error i bs = None"
  by (induction bs arbitrary: i) auto

lemma to_str_ascii: "(\<And>c. c \<in> set s \<Longrightarrow> (of_char c :: nat) < 128) \<Longrightarrow> to_str s = Inr s"
proof -
  assume "\<And>c. c \<in> set s \<Longrightarrow> (of_char c :: nat) < 128"
  then have "utf8_error 0 (map of_char s) = None" by (intro utf8_error_ascii) auto
  then show ?thesis by (simp add: to_str_def)
qed

lemma to_str_Inr: "to_str s = Inr t \<Longrightarrow> t = s"
  by (auto simp: to_str_def split: option.splits)

section \<open>Addresses\<close>

text \<open>\<^verbatim>\<open>format!("{host}:{port}")\<close>.\<close>

definition show_addr :: "string \<Rightarrow> u16 \<Rightarrow> string" where
  "show_addr host port = host @ '':'' @ show_nat (unat port)"

lemma colon_not_digit: "CHR '':'' \<notin> set (show_nat n)"
  using show_nat_digits [of "CHR '':''" n] by auto

lemma first_sep_inj:
  "ys @ c # xs = ys' @ c # xs' \<Longrightarrow> c \<notin> set ys \<Longrightarrow> c \<notin> set ys' \<Longrightarrow> ys = ys' \<and> xs = xs'"
proof (induction ys arbitrary: ys')
  case Nil
  then show ?case by (cases ys') auto
next
  case (Cons y ys)
  then show ?case by (cases ys') auto
qed

lemma append_sep_inj:
  assumes "xs @ c # ys = xs' @ c # ys'" and "c \<notin> set ys" and "c \<notin> set ys'"
  shows "xs = xs' \<and> ys = ys'"
proof -
  from assms(1) have "rev ys @ c # rev xs = rev ys' @ c # rev xs'"
    by (metis append.assoc append_Cons append_Nil rev.simps(2) rev_append)
  moreover from assms(2,3) have "c \<notin> set (rev ys)" "c \<notin> set (rev ys')" by simp_all
  ultimately have "rev ys = rev ys' \<and> rev xs = rev xs'"
    by (rule first_sep_inj)
  then show ?thesis by simp
qed

text \<open>
  The printed address determines host and port: two clients with the same
  address string target the same server.
\<close>

lemma show_addr_inj: "show_addr h p = show_addr h' p' \<longleftrightarrow> h = h' \<and> p = p'"
proof
  assume "show_addr h p = show_addr h' p'"
  then have "h = h' \<and> show_nat (unat p) = show_nat (unat p')"
    unfolding show_addr_def by (intro append_sep_inj [of _ "CHR '':''"]) (auto simp: colon_not_digit)
  then show "h = h' \<and> p = p'" by (simp add: show_nat_inj word_unat_eq_iff)
qed simp

end
