(* ===== verification/Rgpot_Status.thy ===== *)
theory Rgpot_Status
  imports Rgpot_Text
begin

text \<open>
  \<^verbatim>\<open>rgpot-core/src/status.rs\<close>: status codes, the thread-local error message, and
  the panic barrier.  The message of a thread lives in a heap buffer owned by its
  slot; storing a new message frees the previous buffer, which is what limits the
  lifetime of the pointer \<^verbatim>\<open>rgpot_last_error\<close> hands out.
\<close>

section \<open>Definitions\<close>

definition status_code :: "rgpot_status_t \<Rightarrow> nat" where
  "status_code s = (case s of
      RGPOT_SUCCESS \<Rightarrow> 0
    | RGPOT_INVALID_PARAMETER \<Rightarrow> 1
    | RGPOT_INTERNAL_ERROR \<Rightarrow> 2
    | RGPOT_RPC_ERROR \<Rightarrow> 3
    | RGPOT_BUFFER_SIZE_ERROR \<Rightarrow> 4)"

text \<open>
  Access to the thread-local \<^verbatim>\<open>LAST_ERROR\<close>.  The first access of a thread creates
  the empty \<^verbatim>\<open>CString\<close>.
\<close>

definition last_error_cell :: "ptr comp" where
  "last_error_cell w = (case last_error_slot w (thread w) of
      Some p \<Rightarrow> Done p w
    | None \<Rightarrow> Done (brk w)
        ((push (Cstr []) w)\<lparr>last_error_slot := (last_error_slot w)(thread w \<mapsto> brk w)\<rparr>))"

definition interior_nul_message :: string where
  "interior_nul_message = ''(error message contained interior NUL)''"

definition set_last_error :: "string \<Rightarrow> unit comp" where
  "set_last_error msg =
     bnd last_error_cell (\<lambda>old.
     bnd (alloc (Cstr (case CString_new msg of Some c \<Rightarrow> c | None \<Rightarrow> interior_nul_message))) (\<lambda>new.
     bnd (\<lambda>w. Done () (w\<lparr>last_error_slot := (last_error_slot w)(thread w \<mapsto> new)\<rparr>)) (\<lambda>_.
     dealloc old)))"

definition rgpot_last_error :: "ptr comp" where
  "rgpot_last_error = extern_C last_error_cell"

definition panic_message :: "panic_payload \<Rightarrow> string" where
  "panic_message e = (case e of
      Str_payload s \<Rightarrow> s
    | String_payload s \<Rightarrow> s
    | Other_payload \<Rightarrow> ''unknown panic'')"

definition catch_unwind :: "rgpot_status_t comp \<Rightarrow> rgpot_status_t comp" where
  "catch_unwind f w = (case f w of
      Done status w' \<Rightarrow> Done status w'
    | Panicked e w' \<Rightarrow>
        bnd (set_last_error (panic_message e)) (\<lambda>_. ret RGPOT_INTERNAL_ERROR) w'
    | Aborted \<Rightarrow> Aborted
    | Undefined \<Rightarrow> Undefined)"

section \<open>Abstract view\<close>

text \<open>
  What a caller knows of the error machinery: the message of each thread, and the
  memory outside the error buffers.
\<close>

definition messages :: "world \<Rightarrow> tid \<Rightarrow> string" where
  "messages w t = (case last_error_slot w t of
      Some p \<Rightarrow> (case heap w p of Some (Cstr s) \<Rightarrow> s | _ \<Rightarrow> [])
    | None \<Rightarrow> [])"

definition core_mem :: "world \<Rightarrow> mem" where
  "core_mem w = heap w |` (- ran (last_error_slot w))"

lemma core_mem_brk [simp]: "core_mem (w\<lparr>brk := m\<rparr>) = core_mem w"
  by (simp add: core_mem_def)

lemma core_mem_drop: "core_mem (drop_blocks F w) = core_mem w |` (- F)"
  by (simp add: core_mem_def Int_commute)

definition stored_message :: "string \<Rightarrow> string" where
  "stored_message msg = (if nul_free msg then msg else interior_nul_message)"

text \<open>The state after storing a message.\<close>

definition record_error :: "string \<Rightarrow> world \<Rightarrow> world" where
  "record_error msg w =
     (let w0 = (case last_error_slot w (thread w) of
                  Some p \<Rightarrow> drop_blocks {p} w
                | None \<Rightarrow> w\<lparr>brk := Suc (brk w)\<rparr>)
      in (push (Cstr (stored_message msg)) w0)
           \<lparr>last_error_slot := (last_error_slot w)(thread w \<mapsto> brk w0)\<rparr>)"

lemma nul_free_interior: "nul_free interior_nul_message"
  by (simp add: interior_nul_message_def nul_free_def)

lemma stored_message_nul_free [simp]: "nul_free (stored_message msg)"
  by (simp add: stored_message_def nul_free_interior)

lemma set_last_error_eq:
  assumes ok: "world_ok w"
  shows "set_last_error msg w = Done () (record_error msg w)"
proof -
  have msg: "(case CString_new msg of Some c \<Rightarrow> c | None \<Rightarrow> interior_nul_message) = stored_message msg"
    by (simp add: CString_new_def stored_message_def)
  show ?thesis
  proof (cases "last_error_slot w (thread w)")
    case None
    have "heap w (brk w) = None" by (rule world_ok_fresh [OF ok order_refl])
    with None show ?thesis
      by (simp add: set_last_error_def last_error_cell_def record_error_def msg exec drop_blocks_def
          push_def restrict_map_def fun_eq_iff)
  next
    case (Some p)
    then obtain s where s: "heap w p = Some (Cstr s)" using world_ok_slot [OF ok] by blast
    with ok have "p < brk w" by (blast dest: world_ok_less)
    with Some s show ?thesis
      by (simp add: set_last_error_def last_error_cell_def record_error_def msg exec drop_blocks_def
          push_def restrict_map_def fun_eq_iff)
  qed
qed

lemma record_error_sel [simp]:
  "thread (record_error msg w) = thread w"
  "last_error_slot (record_error msg w) t =
     (if t = thread w then Some (brk (record_error msg w) - 1) else last_error_slot w t)"
  "brk w \<le> brk (record_error msg w)"
  by (auto simp: record_error_def Let_def split: option.split)

lemma record_error_heap:
  "heap (record_error msg w) =
     (case last_error_slot w (thread w) of
        Some p \<Rightarrow> (heap w |` (- {p}))(brk w \<mapsto> Cstr (stored_message msg))
      | None \<Rightarrow> (heap w)(Suc (brk w) \<mapsto> Cstr (stored_message msg)))"
  "brk (record_error msg w) =
     (case last_error_slot w (thread w) of Some p \<Rightarrow> Suc (brk w) | None \<Rightarrow> Suc (Suc (brk w)))"
  by (auto simp: record_error_def Let_def split: option.split)

lemma world_ok_record_error [intro]:
  assumes ok: "world_ok w"
  shows "world_ok (record_error msg w)"
proof (rule world_okI)
  let ?w = "record_error msg w"
  show "0 < brk ?w"
    using world_ok_brk [OF ok] by (auto simp: record_error_heap split: option.split)
  show "0 < p \<and> p < brk ?w" if "heap ?w p = Some b" for p b
    using that world_ok_less [OF ok, of p] world_ok_brk [OF ok]
    by (auto simp: record_error_heap restrict_map_def split: option.splits if_splits)
  show "\<exists>s. heap ?w p = Some (Cstr s) \<and> nul_free s" if sl: "last_error_slot ?w t = Some p" for t p
  proof (cases "t = thread w")
    case True
    with sl show ?thesis by (auto simp: record_error_heap split: option.splits)
  next
    case False
    with sl have "last_error_slot w t = Some p" by simp
    moreover from this obtain s where "heap w p = Some (Cstr s)" "nul_free s" "p < brk w"
      using world_ok_slot [OF ok] world_ok_less [OF ok] by blast
    ultimately show ?thesis
      using False world_ok_slot_inj [OF ok, of t p "thread w"]
      by (auto simp: record_error_heap restrict_map_def split: option.split)
  qed
  show "t = t'" if "last_error_slot ?w t = Some p" "last_error_slot ?w t' = Some p" for t t' p
  proof -
    have old: "q < brk w" if "last_error_slot w u = Some q" for u q
      using world_ok_slot [OF ok that] world_ok_less [OF ok] by blast
    from that old show ?thesis
      by (auto simp: record_error_heap split: if_splits option.splits
          dest: world_ok_slot_inj [OF ok] old)
  qed
qed

text \<open>
  Functional refinement: on the abstract view, storing a message is an update of
  the message of the calling thread and nothing else.
\<close>

lemma messages_record_error:
  assumes ok: "world_ok w"
  shows "messages (record_error msg w) = (messages w)(thread w := stored_message msg)"
proof
  fix t
  have old: "q < brk w \<and> (last_error_slot w (thread w) = Some q \<longrightarrow> u = thread w)"
    if "last_error_slot w u = Some q" for u q
    using world_ok_slot [OF ok that] world_ok_less [OF ok] world_ok_slot_inj [OF ok that] by blast
  show "messages (record_error msg w) t = ((messages w)(thread w := stored_message msg)) t"
    by (auto simp: messages_def record_error_heap restrict_map_def split: option.splits
        dest: old)
qed

lemma core_mem_record_error:
  assumes ok: "world_ok w"
  shows "core_mem (record_error msg w) = core_mem w"
proof
  fix p
  let ?w = "record_error msg w"
  have old: "heap w q \<noteq> None \<Longrightarrow> q < brk w" for q
    using world_ok_less [OF ok] by blast
  have fresh: "brk w \<le> q \<Longrightarrow> q \<notin> ran (last_error_slot w)" for q
    using world_ok_slot [OF ok] old by (fastforce simp: ran_def)
  show "core_mem ?w p = core_mem w p"
  proof (cases "p < brk w")
    case True
    then have "p \<in> ran (last_error_slot ?w) \<longleftrightarrow>
        p \<in> ran (last_error_slot w) \<and> last_error_slot w (thread w) \<noteq> Some p"
      using world_ok_slot_inj [OF ok]
      by (auto simp: ran_def record_error_heap split: option.splits if_splits)
        (metis option.distinct(1) option.inject)+
    with True show ?thesis
      by (auto simp: core_mem_def restrict_map_def record_error_heap split: option.splits
          intro: ranI)
  next
    case False
    then have "core_mem w p = None"
      using world_ok_fresh [OF ok, of p] by (simp add: core_mem_def restrict_map_def)
    moreover have "core_mem ?w p = None"
      using False world_ok_fresh [OF ok, of p]
      by (auto simp: core_mem_def restrict_map_def record_error_heap ran_def split: option.splits)
    ultimately show ?thesis by simp
  qed
qed

section \<open>The interface to the rest of the core\<close>

text \<open>
  What the entry points rely on when they report an error: storing a message
  always succeeds, is visible in the calling thread only, and leaves the memory
  outside the error buffers alone.
\<close>

locale error_slot =
  fixes good :: "world \<Rightarrow> bool"
    and report :: "string \<Rightarrow> unit comp"
    and after :: "string \<Rightarrow> world \<Rightarrow> world"
    and texts :: "world \<Rightarrow> tid \<Rightarrow> string"
    and rest :: "world \<Rightarrow> mem"
    and kept :: "string \<Rightarrow> string"
  assumes report: "good w \<Longrightarrow> report msg w = Done () (after msg w)"
    and good_after: "good w \<Longrightarrow> good (after msg w)"
    and texts_after: "good w \<Longrightarrow> texts (after msg w) = (texts w)(thread w := kept msg)"
    and rest_after: "good w \<Longrightarrow> rest (after msg w) = rest w"
    and thread_after: "thread (after msg w) = thread w"
begin

lemma fail_with: "good w \<Longrightarrow> bnd (report msg) (\<lambda>_. ret s) w = Done s (after msg w)"
  by (simp add: bnd_def ret_def report)

lemma fail_text: "good w \<Longrightarrow> texts (after msg w) (thread w) = kept msg"
  by (simp add: texts_after)

lemma last_report_wins:
  "good w \<Longrightarrow> texts (after msg (after msg' w)) = (texts w)(thread w := kept msg)"
  by (simp add: texts_after good_after thread_after)

lemma reports_keep_rest: "good w \<Longrightarrow> rest (after msg (after msg' w)) = rest w"
  by (simp add: rest_after good_after)

end

interpretation err: error_slot world_ok set_last_error record_error messages core_mem stored_message
  by unfold_locales
    (auto simp: set_last_error_eq messages_record_error core_mem_record_error)

text \<open>Storing a message leaves every other block alone.\<close>

lemma record_error_keeps:
  assumes ok: "world_ok w" and p: "heap w p = Some b" "\<not> is_cstr (Some b)"
  shows "heap (record_error msg w) p = Some b"
proof -
  have "p \<noteq> q" if "last_error_slot w t = Some q" for t q
    using world_ok_slot [OF ok that] p by auto
  moreover have "p < brk w" using world_ok_less [OF ok p(1)] by simp
  ultimately show ?thesis
    using p by (auto simp: record_error_heap(1) split: option.split)
qed

lemmas error_simps =
  err.fail_with err.fail_text err.good_after err.texts_after err.rest_after err.thread_after

section \<open>Reading the message\<close>

lemma last_error_cell_reads:
  assumes ok: "world_ok w" and p: "last_error_cell w = Done p w'"
  shows "world_ok w' \<and> last_error_slot w' (thread w) = Some p \<and> thread w' = thread w \<and>
    heap w' p = Some (Cstr (messages w (thread w))) \<and> messages w' = messages w"
proof (cases "last_error_slot w (thread w)")
  case None
  have fresh: "last_error_slot w t \<noteq> Some (brk w)" for t
    using world_ok_slot [OF ok] world_ok_less [OF ok] by blast
  have w': "w' = (push (Cstr []) w)\<lparr>last_error_slot := (last_error_slot w)(thread w \<mapsto> brk w)\<rparr>"
    and p': "p = brk w" using None p by (auto simp: last_error_cell_def)
  have "world_ok w'" unfolding w'
  proof (rule world_okI)
    fix t q assume "last_error_slot ((push (Cstr []) w)\<lparr>last_error_slot :=
      (last_error_slot w)(thread w \<mapsto> brk w)\<rparr>) t = Some q"
    with world_ok_slot [OF ok, of t q]
    show "\<exists>s. heap ((push (Cstr []) w)\<lparr>last_error_slot :=
      (last_error_slot w)(thread w \<mapsto> brk w)\<rparr>) q = Some (Cstr s) \<and> nul_free s"
      by (auto split: if_splits)
  qed (use world_ok_less [OF ok] world_ok_slot_inj [OF ok] fresh world_ok_brk [OF ok] in
        \<open>auto simp: less_Suc_eq split: if_splits\<close>)
  moreover have "messages w' = messages w"
    using None fresh by (auto simp: w' messages_def fun_eq_iff split: option.split)
  ultimately show ?thesis using None by (simp add: w' p' messages_def)
next
  case (Some q)
  with p ok world_ok_slot [OF ok Some] show ?thesis
    by (auto simp: last_error_cell_def messages_def)
qed

lemma read_back:
  assumes "world_ok w"
  shows "\<exists>p. rgpot_last_error (record_error msg w) = Done p (record_error msg w) \<and>
    load_cstr p (record_error msg w) = Done (stored_message msg) (record_error msg w)"
proof -
  let ?w = "record_error msg w"
  obtain p where p: "last_error_slot ?w (thread w) = Some p" by simp
  then have cell: "last_error_cell ?w = Done p ?w" by (simp add: last_error_cell_def)
  with last_error_cell_reads [OF err.good_after [OF assms] cell] assms
  have "heap ?w p = Some (Cstr (stored_message msg))" by (simp add: error_simps)
  with cell show ?thesis by (intro exI [of _ p]) (simp add: rgpot_last_error_def exec)
qed

text \<open>
  Storing an error message always succeeds and keeps the machine invariant; the
  pointer \<^verbatim>\<open>rgpot_last_error\<close> then returns reads back as exactly that message, or as
  the fixed fallback text when the message has an interior NUL.  The messages of
  all other threads and all memory outside the error buffers are unchanged.
\<close>

theorem last_error_roundtrip:
  assumes "world_ok w"
  shows "\<exists>w' p. set_last_error msg w = Done () w' \<and> world_ok w' \<and>
    rgpot_last_error w' = Done p w' \<and>
    load_cstr p w' = Done (if nul_free msg then msg else interior_nul_message) w' \<and>
    (\<forall>t. t \<noteq> thread w \<longrightarrow> messages w' t = messages w t) \<and>
    core_mem w' = core_mem w"
  using assms read_back [OF assms, of msg]
  by (intro exI [of _ "record_error msg w"]) (auto simp: error_simps err.report stored_message_def)

theorem last_error_roundtrip_witness:
  "\<exists>w' p. set_last_error ''boom'' boot_world = Done () w' \<and> rgpot_last_error w' = Done p w' \<and>
    load_cstr p w' = Done ''boom'' w'"
  using last_error_roundtrip [of boot_world "''boom''"] by (auto simp: nul_free_def)

text \<open>
  The pointer returned by \<^verbatim>\<open>rgpot_last_error\<close> reads as the calling thread's last
  message (the empty string if there was none) and dangles as soon as the same
  thread stores another message: the old buffer is freed, not overwritten.
\<close>

theorem last_error_pointer_lifetime:
  assumes ok: "world_ok w" and p: "rgpot_last_error w = Done p w1"
    and set: "set_last_error msg w1 = Done () w2"
  shows "load_cstr p w1 = Done (messages w (thread w)) w1 \<and> load_cstr p w2 = Undefined"
proof
  from p have "last_error_cell w = Done p w1"
    by (auto simp: rgpot_last_error_def exec split: outcome.splits)
  from last_error_cell_reads [OF ok this]
  have ok1: "world_ok w1" and slot: "last_error_slot w1 (thread w1) = Some p"
    and cs: "heap w1 p = Some (Cstr (messages w (thread w)))" by simp_all
  from cs show "load_cstr p w1 = Done (messages w (thread w)) w1" by (simp add: exec)
  from cs ok1 have "p < brk w1" by (blast dest: world_ok_less)
  moreover from set ok1 have "w2 = record_error msg w1" by (simp add: err.report)
  ultimately show "load_cstr p w2 = Undefined"
    using slot by (simp add: exec record_error_heap)
qed

theorem last_error_pointer_lifetime_witness:
  "\<exists>p w1 w2. rgpot_last_error boot_world = Done p w1 \<and> set_last_error ''x'' w1 = Done () w2 \<and>
    load_cstr p w1 = Done [] w1 \<and> load_cstr p w2 = Undefined"
proof -
  obtain p w1 where p: "rgpot_last_error boot_world = Done p w1"
    by (simp add: rgpot_last_error_def last_error_cell_def boot_world_def exec)
  then have "last_error_cell boot_world = Done p w1"
    by (auto simp: rgpot_last_error_def exec split: outcome.splits)
  from last_error_cell_reads [OF boot_world_ok this] have "world_ok w1" by simp
  then have "set_last_error ''x'' w1 = Done () (record_error ''x'' w1)" by (rule err.report)
  with last_error_pointer_lifetime [OF boot_world_ok p this] p show ?thesis
    by (auto simp: messages_def boot_world_def)
qed

section \<open>Several threads\<close>

text \<open>A call made on thread \<open>t\<close>, and reports of any threads in any order.\<close>

definition on_thread :: "tid \<Rightarrow> 'a comp \<Rightarrow> 'a comp" where
  "on_thread t m w = m (w\<lparr>thread := t\<rparr>)"

fun report_all :: "(tid \<times> string) list \<Rightarrow> unit comp" where
  "report_all [] = ret ()"
| "report_all ((t, msg) # rs) = bnd (on_thread t (set_last_error msg)) (\<lambda>_. report_all rs)"

text \<open>The abstract machine: one message per thread, the last one kept.\<close>

fun board_after :: "(tid \<times> string) list \<Rightarrow> (tid \<Rightarrow> string) \<Rightarrow> tid \<Rightarrow> string" where
  "board_after [] f = f"
| "board_after ((t, msg) # rs) f = board_after rs (f(t := stored_message msg))"

lemma world_ok_thread [simp]: "world_ok (w\<lparr>thread := t\<rparr>) = world_ok w"
  by (simp add: world_ok_def)

lemma view_thread [simp]:
  "messages (w\<lparr>thread := t\<rparr>) = messages w" "core_mem (w\<lparr>thread := t\<rparr>) = core_mem w"
  by (simp_all add: messages_def core_mem_def fun_eq_iff split: option.split)

lemma report_all_refines:
  "world_ok w \<Longrightarrow> \<exists>w'. report_all rs w = Done () w' \<and> world_ok w' \<and>
     messages w' = board_after rs (messages w) \<and> core_mem w' = core_mem w"
proof (induction rs arbitrary: w)
  case Nil
  then show ?case by (simp add: ret_def)
next
  case (Cons r rs)
  obtain t msg where r: "r = (t, msg)" by (cases r)
  let ?w = "record_error msg (w\<lparr>thread := t\<rparr>)"
  have step: "on_thread t (set_last_error msg) w = Done () ?w"
    using Cons.prems by (simp add: on_thread_def err.report)
  from Cons.prems have "world_ok ?w" by (simp add: error_simps)
  from Cons.IH [OF this] Cons.prems step show ?case by (simp add: r bnd_def error_simps fun_upd_def)
qed

lemma last_error_cell_total: "\<exists>p w'. last_error_cell w = Done p w'"
  by (simp add: last_error_cell_def split: option.split)

text \<open>
  C15: Error messages of several threads.  Whatever threads report whatever messages in
  whatever order, the heap with its buffers refines the abstract machine that keeps one
  message per thread: each thread that then asks for its message reads the last one it
  reported itself, or the one it had before, and no memory outside the error buffers
  changes.
\<close>

theorem thread_messages_refine:
  assumes "world_ok w"
  shows "\<exists>w'. report_all rs w = Done () w' \<and> world_ok w' \<and> core_mem w' = core_mem w \<and>
     messages w' = board_after rs (messages w) \<and>
     (\<forall>t. \<exists>p w''. on_thread t rgpot_last_error w' = Done p w'' \<and>
        load_cstr p w'' = Done (board_after rs (messages w) t) w'')"
proof -
  obtain w' where w': "report_all rs w = Done () w'" "world_ok w'"
    "messages w' = board_after rs (messages w)" "core_mem w' = core_mem w"
    using report_all_refines [OF assms] by blast
  have "\<exists>p w''. on_thread t rgpot_last_error w' = Done p w'' \<and>
      load_cstr p w'' = Done (board_after rs (messages w) t) w''" for t
  proof -
    let ?w = "w'\<lparr>thread := t\<rparr>"
    obtain p w'' where cell: "last_error_cell ?w = Done p w''" using last_error_cell_total by blast
    have "world_ok ?w" using w'(2) by simp
    from last_error_cell_reads [OF this cell] w'(3) cell show ?thesis
      by (auto simp: on_thread_def rgpot_last_error_def exec)
  qed
  with w' show ?thesis by blast
qed

theorem thread_messages_refine_witness:
  "\<exists>w' p w''. report_all [(0, ''a''), (1, ''b''), (0, ''c'')] boot_world = Done () w' \<and>
     on_thread 1 rgpot_last_error w' = Done p w'' \<and> load_cstr p w'' = Done ''b'' w''"
proof -
  have "board_after [(0, ''a''), (1, ''b''), (0, ''c'')] f 1 = ''b''" for f
    by (simp add: stored_message_def nul_free_def)
  with thread_messages_refine [OF boot_world_ok, of "[(0, ''a''), (1, ''b''), (0, ''c'')]"]
  show ?thesis by (metis (no_types, lifting))
qed

section \<open>The panic barrier\<close>

lemma catch_unwind_Done: "f w = Done s w' \<Longrightarrow> catch_unwind f w = Done s w'"
  by (simp add: catch_unwind_def)

lemma catch_unwind_Undefined: "f w = Undefined \<Longrightarrow> catch_unwind f w = Undefined"
  by (simp add: catch_unwind_def)

text \<open>
  The panic barrier never lets a panic through: it hands on a returned status
  unchanged, and turns a panic into \<^verbatim>\<open>RGPOT_INTERNAL_ERROR\<close> with the panic's text as
  the message of the calling thread.  An abort or undefined behaviour inside the
  closure is not hidden.
\<close>

theorem catch_unwind_total:
  assumes "\<And>e w'. f w = Panicked e w' \<Longrightarrow> world_ok w'"
  shows "case f w of
      Done s w' \<Rightarrow> catch_unwind f w = Done s w'
    | Panicked e w' \<Rightarrow>
        (\<exists>w''. catch_unwind f w = Done RGPOT_INTERNAL_ERROR w'' \<and> world_ok w'' \<and>
           messages w'' = (messages w')(thread w' := stored_message (panic_message e)) \<and>
           core_mem w'' = core_mem w')
    | Aborted \<Rightarrow> catch_unwind f w = Aborted
    | Undefined \<Rightarrow> catch_unwind f w = Undefined"
proof (cases "f w")
  case (Panicked e w')
  then have "world_ok w'" by (rule assms)
  with Panicked show ?thesis by (simp add: catch_unwind_def error_simps)
qed (simp_all add: catch_unwind_def)

theorem catch_unwind_total_witness:
  "\<exists>w''. catch_unwind (panic (Str_payload ''boom'')) boot_world = Done RGPOT_INTERNAL_ERROR w'' \<and>
     messages w'' 0 = ''boom''"
  using catch_unwind_total [of "panic (Str_payload ''boom'')" boot_world]
  by (auto simp: panic_def stored_message_def panic_message_def nul_free_def boot_world_def
      world_ok_def)

end
