(* ===== verification/Rgpot_Strides.thy ===== *)
theory Rgpot_Strides
  imports Rgpot_Memory
begin

text \<open>
  Row-major strides (\<^verbatim>\<open>compute_row_major_strides\<close> of \<^verbatim>\<open>tensor.rs\<close>): the loop of the
  source, what it returns in both overflow modes, and what the strides mean for
  addressing the elements of a tensor.
\<close>

section \<open>The loop\<close>

text \<open>
  \<open>stride_loop E shape k strides\<close> runs the iterations \<open>i = k - 1, \<dots>, 0\<close>.
\<close>

fun stride_loop :: "'x env_scheme \<Rightarrow> i64 list \<Rightarrow> nat \<Rightarrow> i64 list \<Rightarrow> i64 list comp" where
  "stride_loop E shape 0 strides = ret strides"
| "stride_loop E shape (Suc i) strides =
     bnd (mul_i64 E (strides ! (i + 1)) (shape ! (i + 1))) (\<lambda>s.
     stride_loop E shape i (strides[i := s]))"

definition compute_row_major_strides :: "'x env_scheme \<Rightarrow> i64 list \<Rightarrow> i64 list comp" where
  "compute_row_major_strides E shape =
     (let ndim = length shape in
      if ndim = 0 then ret []
      else stride_loop E shape (ndim - 1) (replicate ndim 1))"

section \<open>Specification\<close>

text \<open>
  The stride of dimension \<open>i\<close> is the product of the extents after \<open>i\<close>: as a word
  (what the loop stores) and as the integer it stands for.
\<close>

definition row_major :: "i64 list \<Rightarrow> i64 list" where
  "row_major shape = map (\<lambda>i. prod_list (drop (Suc i) shape)) [0..<length shape]"

definition extent_product :: "i64 list \<Rightarrow> nat \<Rightarrow> int" where
  "extent_product shape i = prod_list (map sint (drop (Suc i) shape))"

definition fits_i64 :: "int \<Rightarrow> bool" where
  "fits_i64 k \<longleftrightarrow> - (2 ^ 63) \<le> k \<and> k < 2 ^ 63"

lemma extent_product_step:
  "Suc i < length shape \<Longrightarrow>
     extent_product shape i = extent_product shape (Suc i) * sint (shape ! Suc i)"
  by (simp add: extent_product_def Cons_nth_drop_Suc [symmetric])

lemma mul_i64_cases:
  "mul_i64 E a b =
     (if overflow_checks E \<and> \<not> fits_i64 (sint a * sint b)
      then panic (Str_payload mul_overflow_message) else ret (a * b))"
  by (auto simp: mul_i64_def fits_i64_def)

lemma sint_mult_fits: "fits_i64 (sint (a :: i64) * sint b) \<Longrightarrow> sint (a * b) = sint a * sint b"
  by (simp only: fits_i64_def sint_mult_64)

text \<open>
  Invariant of the loop: from \<open>k\<close> on the strides are final, and with overflow
  checks they are the integers they should be.
\<close>

definition strides_done :: "'x env_scheme \<Rightarrow> i64 list \<Rightarrow> nat \<Rightarrow> i64 list \<Rightarrow> bool" where
  "strides_done E shape k strides \<longleftrightarrow>
     length strides = length shape \<and>
     (\<forall>j. k \<le> j \<and> j < length shape \<longrightarrow>
        strides ! j = prod_list (drop (Suc j) shape) \<and>
        (overflow_checks E \<longrightarrow> sint (strides ! j) = extent_product shape j))"

lemma strides_doneD:
  assumes "strides_done E shape k strides" "k \<le> j" "j < length shape"
  shows "strides ! j = prod_list (drop (Suc j) shape)"
    and "overflow_checks E \<Longrightarrow> sint (strides ! j) = extent_product shape j"
  using assms by (auto simp: strides_done_def)

lemma strides_done_step:
  assumes inv: "strides_done E shape (Suc i) strides" and i: "Suc i < length shape"
    and fits: "overflow_checks E \<Longrightarrow> fits_i64 (extent_product shape i)"
  shows "strides_done E shape i (strides[i := strides ! Suc i * shape ! Suc i])"
proof -
  have s: "strides ! Suc i = prod_list (drop (Suc (Suc i)) shape)"
    "overflow_checks E \<Longrightarrow> sint (strides ! Suc i) = extent_product shape (Suc i)"
    using strides_doneD [OF inv order_refl i] by blast+
  have "prod_list (drop (Suc i) shape) = strides ! Suc i * shape ! Suc i"
    using s(1) i by (simp add: Cons_nth_drop_Suc [symmetric] mult.commute)
  moreover have "sint (strides ! Suc i * shape ! Suc i) = extent_product shape i"
    if "overflow_checks E"
    using fits [OF that] s(2) [OF that] sint_mult_fits [of "strides ! Suc i" "shape ! Suc i"]
    by (simp add: extent_product_step [OF i])
  ultimately show ?thesis
    using inv i strides_doneD [OF inv]
    by (auto simp: strides_done_def nth_list_update le_eq_less_or_eq [of i] Suc_le_eq)
qed

lemma strides_done_0: "strides_done E shape 0 strides \<Longrightarrow> strides = row_major shape"
  by (rule nth_equalityI) (auto simp: strides_done_def row_major_def)

lemma stride_loop_spec:
  "strides_done E shape k strides \<Longrightarrow> k < length shape \<Longrightarrow>
     stride_loop E shape k strides =
       (if overflow_checks E \<and> (\<exists>i<k. \<not> fits_i64 (extent_product shape i))
        then panic (Str_payload mul_overflow_message) else ret (row_major shape))"
proof (induction k arbitrary: strides)
  case 0
  then have "strides = row_major shape" by (blast dest: strides_done_0)
  then show ?case by simp
next
  case (Suc i)
  show ?case
  proof (cases "overflow_checks E \<and> \<not> fits_i64 (extent_product shape i)")
    case True
    with strides_doneD(2) [OF Suc.prems(1) order_refl] Suc.prems(2)
    have "\<not> fits_i64 (sint (strides ! Suc i) * sint (shape ! Suc i))"
      by (simp add: extent_product_step)
    with True show ?thesis by (auto simp: mul_i64_cases fun_eq_iff exec)
  next
    case False
    with strides_doneD(2) [OF Suc.prems(1) order_refl] Suc.prems(2)
    have "overflow_checks E \<Longrightarrow> fits_i64 (sint (strides ! Suc i) * sint (shape ! Suc i))"
      by (simp add: extent_product_step)
    then have mul: "mul_i64 E (strides ! Suc i) (shape ! Suc i) = ret (strides ! Suc i * shape ! Suc i)"
      by (auto simp: mul_i64_cases)
    have "strides_done E shape i (strides[i := strides ! Suc i * shape ! Suc i])"
      using strides_done_step [OF Suc.prems] False by blast
    from Suc.IH [OF this] Suc.prems False show ?thesis by (auto simp: mul less_Suc_eq)
  qed
qed

lemma strides_outcome:
  "compute_row_major_strides E shape =
     (if overflow_checks E \<and> (\<exists>i<length shape. \<not> fits_i64 (extent_product shape i))
      then panic (Str_payload mul_overflow_message) else ret (row_major shape))"
proof (cases "shape = []")
  case True
  then show ?thesis by (simp add: compute_row_major_strides_def row_major_def)
next
  case False
  let ?n = "length shape"
  have last: "extent_product shape (?n - 1) = 1" using False by (simp add: extent_product_def)
  have "strides_done E shape (?n - 1) (replicate ?n 1)"
    using False last by (auto simp: strides_done_def le_less Suc_diff_Suc dest: less_imp_diff_less)
  from stride_loop_spec [OF this] False
  have "compute_row_major_strides E shape =
      (if overflow_checks E \<and> (\<exists>i<?n - 1. \<not> fits_i64 (extent_product shape i))
       then panic (Str_payload mul_overflow_message) else ret (row_major shape))"
    by (simp add: compute_row_major_strides_def Let_def)
  moreover have "(\<exists>i<?n - 1. \<not> fits_i64 (extent_product shape i)) \<longleftrightarrow>
      (\<exists>i<?n. \<not> fits_i64 (extent_product shape i))"
  proof -
    have "fits_i64 (extent_product shape (?n - 1))" using last by (simp add: fits_i64_def)
    moreover have "i < ?n \<longleftrightarrow> i < ?n - 1 \<or> i = ?n - 1" for i using False by (cases shape) auto
    ultimately show ?thesis by blast
  qed
  ultimately show ?thesis by simp
qed

text \<open>
  C9: The stride computation is total and exact: in every profile it returns the
  row-major strides (each the product of the extents after it), except that with
  overflow checks it panics precisely when one of those products leaves the
  range of \<^verbatim>\<open>i64\<close>.
\<close>

theorem compute_row_major_strides_spec:
  "compute_row_major_strides E shape =
     (if overflow_checks E \<and> (\<exists>i<length shape. \<not> fits_i64 (extent_product shape i))
      then panic (Str_payload mul_overflow_message) else ret (row_major shape))"
  by (rule strides_outcome)

section \<open>What the strides address\<close>

text \<open>
  \<open>element_offset\<close> is the offset, in elements, of the element with the given index
  list; \<open>valid_index\<close> says that every index is below its extent.
\<close>

definition element_offset :: "i64 list \<Rightarrow> nat list \<Rightarrow> int" where
  "element_offset strides idx = (\<Sum>(s, i)\<leftarrow>zip strides idx. int i * sint s)"

definition valid_index :: "i64 list \<Rightarrow> nat list \<Rightarrow> bool" where
  "valid_index shape idx \<longleftrightarrow> list_all2 (\<lambda>i d. int i < sint d) idx shape"

fun flat_index :: "int list \<Rightarrow> nat list \<Rightarrow> int" where
  "flat_index (d # ds) (i # idx) = int i * prod_list ds + flat_index ds idx"
| "flat_index _ _ = 0"

lemma valid_index_Cons:
  "valid_index (d # ds) idx \<longleftrightarrow> (\<exists>i is. idx = i # is \<and> int i < sint d \<and> valid_index ds is)"
  by (simp add: valid_index_def list_all2_Cons2)

lemma row_major_Cons: "row_major (d # ds) = prod_list ds # row_major ds"
  by (simp add: row_major_def map_upt_Suc del: upt_Suc)

lemma valid_index_prod_pos: "valid_index shape idx \<Longrightarrow> 1 \<le> prod_list (map sint shape)"
proof (induction shape arbitrary: idx)
  case (Cons d ds)
  then have "1 \<le> sint d" "1 \<le> prod_list (map sint ds)" by (auto simp: valid_index_Cons)
  then have "1 * 1 \<le> sint d * prod_list (map sint ds)" by (intro mult_mono) auto
  then show ?case by simp
qed simp

lemma valid_index_suffix_le:
  "valid_index (d # ds) idx \<Longrightarrow> prod_list (map sint ds) \<le> sint d * prod_list (map sint ds)"
proof -
  assume v: "valid_index (d # ds) idx"
  then have "1 \<le> sint d" "0 \<le> prod_list (map sint ds)"
    using valid_index_prod_pos [of ds] by (fastforce simp: valid_index_Cons)+
  then show ?thesis using mult_right_mono [of 1 "sint d"] by fastforce
qed

lemma sint_prod_list:
  "valid_index shape idx \<Longrightarrow> prod_list (map sint shape) < 2 ^ 63 \<Longrightarrow>
     sint (prod_list shape) = prod_list (map sint shape)"
proof (induction shape arbitrary: idx)
  case (Cons d ds)
  obtain js where js: "valid_index ds js" using Cons.prems(1) by (auto simp: valid_index_Cons)
  have "prod_list (map sint ds) < 2 ^ 63"
    using valid_index_suffix_le [OF Cons.prems(1)] Cons.prems(2) by simp
  then have "sint (prod_list ds) = prod_list (map sint ds)" by (rule Cons.IH [OF js])
  then show ?case
    using sint_mult_64 [of d "prod_list ds"] valid_index_prod_pos [OF Cons.prems(1)] Cons.prems(2)
    by simp
qed simp

lemma extent_products_fit:
  "valid_index shape idx \<Longrightarrow> prod_list (map sint shape) < 2 ^ 63 \<Longrightarrow> i < length shape \<Longrightarrow>
     fits_i64 (extent_product shape i)"
proof (induction shape arbitrary: idx i)
  case (Cons d ds)
  obtain js where js: "valid_index ds js" using Cons.prems(1) by (auto simp: valid_index_Cons)
  have ds: "prod_list (map sint ds) < 2 ^ 63"
    using valid_index_suffix_le [OF Cons.prems(1)] Cons.prems(2) by simp
  show ?case
  proof (cases i)
    case 0
    then show ?thesis
      using ds valid_index_prod_pos [OF js] by (simp add: extent_product_def fits_i64_def)
  next
    case (Suc k)
    with Cons.IH [OF js ds, of k] Cons.prems(3) show ?thesis by (simp add: extent_product_def)
  qed
qed simp

lemma element_offset_row_major:
  "valid_index shape idx \<Longrightarrow> prod_list (map sint shape) < 2 ^ 63 \<Longrightarrow>
     element_offset (row_major shape) idx = flat_index (map sint shape) idx"
proof (induction shape arbitrary: idx)
  case Nil
  then show ?case by (simp add: valid_index_def element_offset_def row_major_def)
next
  case (Cons d ds)
  obtain i js where i: "idx = i # js" "valid_index ds js"
    using Cons.prems(1) by (auto simp: valid_index_Cons)
  have "prod_list (map sint ds) < 2 ^ 63"
    using valid_index_suffix_le [OF Cons.prems(1)] Cons.prems(2) by simp
  with i Cons.IH [OF i(2)] sint_prod_list [OF i(2)] show ?case
    by (simp add: element_offset_def row_major_Cons)
qed

lemma flat_index_bounds:
  "valid_index shape idx \<Longrightarrow>
     0 \<le> flat_index (map sint shape) idx \<and> flat_index (map sint shape) idx < prod_list (map sint shape)"
proof (induction shape arbitrary: idx)
  case (Cons d ds)
  obtain i js where i: "idx = i # js" "int i < sint d" "valid_index ds js"
    using Cons.prems(1) by (auto simp: valid_index_Cons)
  let ?P = "prod_list (map sint ds)"
  have P: "0 \<le> ?P" using valid_index_prod_pos [OF i(3)] by simp
  have "(int i + 1) * ?P \<le> sint d * ?P" using i(2) P by (intro mult_right_mono) auto
  with Cons.IH [OF i(3)] P i(1) show ?case by (simp add: algebra_simps)
qed (simp add: valid_index_def)

lemma flat_index_inj:
  "valid_index shape idx \<Longrightarrow> valid_index shape idx' \<Longrightarrow>
     flat_index (map sint shape) idx = flat_index (map sint shape) idx' \<Longrightarrow> idx = idx'"
proof (induction shape arbitrary: idx idx')
  case (Cons d ds)
  obtain i js where i: "idx = i # js" "valid_index ds js"
    using Cons.prems(1) by (auto simp: valid_index_Cons)
  obtain i' js' where i': "idx' = i' # js'" "valid_index ds js'"
    using Cons.prems(2) by (auto simp: valid_index_Cons)
  let ?P = "prod_list (map sint ds)" and ?f = "flat_index (map sint ds)"
  have eq: "int i * ?P + ?f js = int i' * ?P + ?f js'" using Cons.prems(3) i(1) i'(1) by simp
  have "int i = (int i * ?P + ?f js) div ?P" "int i' = (int i' * ?P + ?f js') div ?P"
    using flat_index_bounds [OF i(2)] flat_index_bounds [OF i'(2)] by simp_all
  with eq have "i = i'" by simp
  moreover from this eq have "js = js'" using Cons.IH [OF i(2) i'(2)] by simp
  ultimately show ?case using i(1) i'(1) by simp
qed (simp add: valid_index_def)

text \<open>
  C10: Row-major addressing.  For a shape whose element count fits in \<^verbatim>\<open>i64\<close>, the
  computed strides send every valid index list to an offset inside the buffer
  (between 0 and the element count), and no two valid index lists to the same
  offset.
\<close>

theorem row_major_addressing:
  assumes "valid_index shape idx" and "prod_list (map sint shape) < 2 ^ 63"
  shows "\<exists>strides. compute_row_major_strides E shape = ret strides \<and>
     0 \<le> element_offset strides idx \<and>
     element_offset strides idx < prod_list (map sint shape) \<and>
     (\<forall>idx'. valid_index shape idx' \<and> element_offset strides idx' = element_offset strides idx
        \<longrightarrow> idx' = idx)"
proof -
  have "compute_row_major_strides E shape = ret (row_major shape)"
    using extent_products_fit [OF assms] by (auto simp: strides_outcome)
  moreover have off: "element_offset (row_major shape) k = flat_index (map sint shape) k"
    if "valid_index shape k" for k
    using that assms(2) by (rule element_offset_row_major)
  ultimately show ?thesis
    using flat_index_bounds [OF assms(1)] flat_index_inj [OF _ assms(1)] off [OF assms(1)] off
    by (intro exI [of _ "row_major shape"]) auto
qed

definition plain_env :: env where
  "plain_env = \<lparr>overflow_checks = True, is_copied_flag = 2, debug_dtype = (\<lambda>_. ''?''),
     callback_code = (\<lambda>_ _ _ _. ret RGPOT_SUCCESS), free_fn_code = (\<lambda>_ _. ret ()),
     foreign_deleter_code = (\<lambda>_ _. ret ())\<rparr>"

theorem row_major_addressing_witness:
  "\<exists>strides. compute_row_major_strides plain_env [2, 3, 4] = ret strides \<and>
     0 \<le> element_offset strides [1, 2, 3] \<and> element_offset strides [1, 2, 3] < 24"
  using row_major_addressing [of "[2, 3, 4]" "[1, 2, 3]" plain_env]
  by (auto simp: valid_index_def)

end
