(* ===== verification/Rgpot_Tensor.thy ===== *)
theory Rgpot_Tensor
  imports Rgpot_Status Rgpot_Strides
begin

text \<open>
  \<^verbatim>\<open>rgpot-core/src/tensor.rs\<close>: DLPack tensors that borrow or own their data, their
  deleters, the validators and the exported accessors.  A tensor is a small
  object graph: the managed struct points to a context that owns the shape and
  stride buffers, and for an owning tensor the data buffer too.  \<open>tensor_rep\<close>
  describes that graph and its footprint; the theorems say that creation builds
  exactly it from fresh memory and that the free function removes exactly it.
\<close>

section \<open>Constants\<close>

definition dtype_f64 :: DLDataType where
  "dtype_f64 = \<lparr>code = kDLFloat, bits = 64, lanes = 1\<rparr>"

definition dtype_i32 :: DLDataType where
  "dtype_i32 = \<lparr>code = kDLInt, bits = 32, lanes = 1\<rparr>"

definition cpu_device :: DLDevice where
  "cpu_device = \<lparr>device_type = kDLCPU, device_id = 0\<rparr>"

definition dlpack_version :: DLPackVersion where
  "dlpack_version = \<lparr>major = 1, minor = 0\<rparr>"

section \<open>Deleters\<close>

text \<open>
  Dropping the box of a context drops its \<^verbatim>\<open>Vec\<close> fields in declaration order and
  then frees the box.
\<close>

definition drop_borrowed_ctx :: "ptr \<Rightarrow> unit comp" where
  "drop_borrowed_ctx p w = (case heap w p of
      Some (Borrowed_ctx c) \<Rightarrow>
        bnd (drop_vec_i64 (bc_shape c)) (\<lambda>_.
        bnd (drop_vec_i64 (bc_strides c)) (\<lambda>_.
        dealloc p)) w
    | _ \<Rightarrow> Undefined)"

definition drop_owned_f64_ctx :: "ptr \<Rightarrow> unit comp" where
  "drop_owned_f64_ctx p w = (case heap w p of
      Some (Owned_f64_ctx c) \<Rightarrow>
        bnd (drop_vec_f64 (ofc_data c)) (\<lambda>_.
        bnd (drop_vec_i64 (ofc_shape c)) (\<lambda>_.
        bnd (drop_vec_i64 (ofc_strides c)) (\<lambda>_.
        dealloc p))) w
    | _ \<Rightarrow> Undefined)"

definition drop_owned_i32_ctx :: "ptr \<Rightarrow> unit comp" where
  "drop_owned_i32_ctx p w = (case heap w p of
      Some (Owned_i32_ctx c) \<Rightarrow>
        bnd (drop_vec_i32 (oic_data c)) (\<lambda>_.
        bnd (drop_vec_i64 (oic_shape c)) (\<lambda>_.
        bnd (drop_vec_i64 (oic_strides c)) (\<lambda>_.
        dealloc p))) w
    | _ \<Rightarrow> Undefined)"

definition drop_managed :: "ptr \<Rightarrow> unit comp" where
  "drop_managed p = bnd (load_managed p) (\<lambda>_. dealloc p)"

definition borrowed_deleter :: "ptr \<Rightarrow> unit comp" where
  "borrowed_deleter p = extern_C
     (if p = null then ret ()
      else bnd (load_managed p) (\<lambda>m.
           bnd (if manager_ctx m \<noteq> null then drop_borrowed_ctx (manager_ctx m) else ret ()) (\<lambda>_.
           drop_managed p)))"

definition owned_f64_deleter :: "ptr \<Rightarrow> unit comp" where
  "owned_f64_deleter p = extern_C
     (if p = null then ret ()
      else bnd (load_managed p) (\<lambda>m.
           bnd (if manager_ctx m \<noteq> null then drop_owned_f64_ctx (manager_ctx m) else ret ()) (\<lambda>_.
           drop_managed p)))"

definition owned_i32_deleter :: "ptr \<Rightarrow> unit comp" where
  "owned_i32_deleter p = extern_C
     (if p = null then ret ()
      else bnd (load_managed p) (\<lambda>m.
           bnd (if manager_ctx m \<noteq> null then drop_owned_i32_ctx (manager_ctx m) else ret ()) (\<lambda>_.
           drop_managed p)))"

text \<open>A call through the function pointer stored in a tensor.\<close>

definition run_deleter :: "'x env_scheme \<Rightarrow> deleter_fn \<Rightarrow> ptr \<Rightarrow> unit comp" where
  "run_deleter E d p = (case d of
      Borrowed_deleter \<Rightarrow> borrowed_deleter p
    | Owned_f64_deleter \<Rightarrow> owned_f64_deleter p
    | Owned_i32_deleter \<Rightarrow> owned_i32_deleter p
    | Foreign_deleter f \<Rightarrow> extern_C (foreign_deleter_code E f p))"

section \<open>Creation\<close>

definition create_borrowed_tensor ::
    "'x env_scheme \<Rightarrow> ptr \<Rightarrow> DLDataType \<Rightarrow> i64 list \<Rightarrow> ptr comp" where
  "create_borrowed_tensor E data dtype shape_vec =
     (let ndim = word_of_nat (length shape_vec) in
      bnd (compute_row_major_strides E shape_vec) (\<lambda>strides_vec.
      bnd (alloc (I64s shape_vec)) (\<lambda>shape.
      bnd (alloc (I64s strides_vec)) (\<lambda>strides.
      bnd (alloc (Borrowed_ctx \<lparr>bc_shape = shape, bc_strides = strides\<rparr>)) (\<lambda>ctx.
      alloc (Managed
        \<lparr>version = dlpack_version, manager_ctx = ctx, deleter = Some Borrowed_deleter, flags = 0,
         dl_tensor = \<lparr>t_data = data, t_device = cpu_device, t_ndim = ndim, t_dtype = dtype,
           t_shape = shape, t_strides = strides, t_byte_offset = 0\<rparr>\<rparr>))))))"

definition create_owned_f64_tensor ::
    "'x env_scheme \<Rightarrow> f64 list \<Rightarrow> i64 list \<Rightarrow> ptr comp" where
  "create_owned_f64_tensor E data shape_vec =
     (let ndim = word_of_nat (length shape_vec) in
      bnd (compute_row_major_strides E shape_vec) (\<lambda>strides_vec.
      bnd (alloc (F64s data)) (\<lambda>data_ptr.
      bnd (alloc (I64s shape_vec)) (\<lambda>shape.
      bnd (alloc (I64s strides_vec)) (\<lambda>strides.
      bnd (alloc (Owned_f64_ctx \<lparr>ofc_data = data_ptr, ofc_shape = shape, ofc_strides = strides\<rparr>)) (\<lambda>ctx.
      alloc (Managed
        \<lparr>version = dlpack_version, manager_ctx = ctx, deleter = Some Owned_f64_deleter,
         flags = is_copied_flag E,
         dl_tensor = \<lparr>t_data = data_ptr, t_device = cpu_device, t_ndim = ndim, t_dtype = dtype_f64,
           t_shape = shape, t_strides = strides, t_byte_offset = 0\<rparr>\<rparr>)))))))"

definition create_owned_i32_tensor ::
    "'x env_scheme \<Rightarrow> i32 list \<Rightarrow> i64 list \<Rightarrow> ptr comp" where
  "create_owned_i32_tensor E data shape_vec =
     (let ndim = word_of_nat (length shape_vec) in
      bnd (compute_row_major_strides E shape_vec) (\<lambda>strides_vec.
      bnd (alloc (I32s data)) (\<lambda>data_ptr.
      bnd (alloc (I64s shape_vec)) (\<lambda>shape.
      bnd (alloc (I64s strides_vec)) (\<lambda>strides.
      bnd (alloc (Owned_i32_ctx \<lparr>oic_data = data_ptr, oic_shape = shape, oic_strides = strides\<rparr>)) (\<lambda>ctx.
      alloc (Managed
        \<lparr>version = dlpack_version, manager_ctx = ctx, deleter = Some Owned_i32_deleter,
         flags = is_copied_flag E,
         dl_tensor = \<lparr>t_data = data_ptr, t_device = cpu_device, t_ndim = ndim, t_dtype = dtype_i32,
           t_shape = shape, t_strides = strides, t_byte_offset = 0\<rparr>\<rparr>)))))))"

section \<open>Exported functions\<close>

definition rgpot_tensor_cpu_f64_2d :: "'x env_scheme \<Rightarrow> ptr \<Rightarrow> i64 \<Rightarrow> i64 \<Rightarrow> ptr comp" where
  "rgpot_tensor_cpu_f64_2d E data rows cols =
     extern_C (create_borrowed_tensor E data dtype_f64 [rows, cols])"

definition rgpot_tensor_cpu_i32_1d :: "'x env_scheme \<Rightarrow> ptr \<Rightarrow> i64 \<Rightarrow> ptr comp" where
  "rgpot_tensor_cpu_i32_1d E data len =
     extern_C (create_borrowed_tensor E data dtype_i32 [len])"

definition rgpot_tensor_cpu_f64_matrix3 :: "'x env_scheme \<Rightarrow> ptr \<Rightarrow> ptr comp" where
  "rgpot_tensor_cpu_f64_matrix3 E data =
     extern_C (create_borrowed_tensor E data dtype_f64 [3, 3])"

definition rgpot_tensor_owned_cpu_f64_2d :: "'x env_scheme \<Rightarrow> ptr \<Rightarrow> i64 \<Rightarrow> i64 \<Rightarrow> ptr comp" where
  "rgpot_tensor_owned_cpu_f64_2d E data rows cols = extern_C
     (bnd (mul_i64 E rows cols) (\<lambda>len.
      bnd (f64_slice data (unat len)) (\<lambda>vec.
      create_owned_f64_tensor E vec [rows, cols])))"

definition rgpot_tensor_free :: "'x env_scheme \<Rightarrow> ptr \<Rightarrow> unit comp" where
  "rgpot_tensor_free E tensor = extern_C
     (if tensor = null then ret ()
      else bnd (load_managed tensor) (\<lambda>m.
           case deleter m of Some d \<Rightarrow> run_deleter E d tensor | None \<Rightarrow> ret ()))"

definition rgpot_tensor_device :: "ptr \<Rightarrow> DLDevice comp" where
  "rgpot_tensor_device tensor =
     extern_C (bnd (load_managed tensor) (\<lambda>m. ret (t_device (dl_tensor m))))"

definition rgpot_tensor_data :: "ptr \<Rightarrow> ptr comp" where
  "rgpot_tensor_data tensor =
     extern_C (bnd (load_managed tensor) (\<lambda>m. ret (t_data (dl_tensor m))))"

text \<open>\<open>*ndim_out\<close> is an \<^verbatim>\<open>i32\<close> variable of the caller.\<close>

definition store_i32 :: "ptr \<Rightarrow> i32 \<Rightarrow> unit comp" where
  "store_i32 p v w = (case heap w p of
      Some (I32s (x # xs)) \<Rightarrow> Done () (set_block p (I32s (v # xs)) w)
    | _ \<Rightarrow> Undefined)"

definition rgpot_tensor_shape :: "ptr \<Rightarrow> ptr \<Rightarrow> ptr comp" where
  "rgpot_tensor_shape tensor ndim_out = extern_C
     (bnd (load_managed tensor) (\<lambda>m.
      bnd (store_i32 ndim_out (t_ndim (dl_tensor m))) (\<lambda>_.
      ret (t_shape (dl_tensor m)))))"

section \<open>Validators\<close>

definition validate_positions :: "'x env_scheme \<Rightarrow> ptr \<Rightarrow> (string + usize) comp" where
  "validate_positions E tensor =
     (if tensor = null then ret (Inl ''positions tensor is NULL'')
      else bnd (load_managed tensor) (\<lambda>m.
        let t = dl_tensor m in
        if t_dtype t \<noteq> dtype_f64
        then ret (Inl (''positions: expected f64, got '' @ debug_dtype E (t_dtype t)))
        else if t_ndim t \<noteq> 2
        then ret (Inl (''positions: expected ndim=2, got '' @ show_int (sint (t_ndim t))))
        else bnd (i64_slice (t_shape t) (unat (scast (t_ndim t) :: usize))) (\<lambda>shape.
          if shape ! 1 \<noteq> 3
          then ret (Inl (''positions: expected shape[1]=3, got '' @ show_int (sint (shape ! 1))))
          else ret (Inr (shape ! 0)))))"

definition validate_atomic_numbers :: "'x env_scheme \<Rightarrow> ptr \<Rightarrow> usize \<Rightarrow> (string + unit) comp" where
  "validate_atomic_numbers E tensor expected_n =
     (if tensor = null then ret (Inl ''atomic_numbers tensor is NULL'')
      else bnd (load_managed tensor) (\<lambda>m.
        let t = dl_tensor m in
        if t_dtype t \<noteq> dtype_i32
        then ret (Inl (''atomic_numbers: expected i32, got '' @ debug_dtype E (t_dtype t)))
        else if t_ndim t \<noteq> 1
        then ret (Inl (''atomic_numbers: expected ndim=1, got '' @ show_int (sint (t_ndim t))))
        else bnd (i64_slice (t_shape t) 1) (\<lambda>shape.
          if shape ! 0 \<noteq> expected_n
          then ret (Inl (''atomic_numbers: expected len='' @ show_nat (unat expected_n) @
                 '', got '' @ show_int (sint (shape ! 0))))
          else ret (Inr ()))))"

definition validate_box_matrix :: "'x env_scheme \<Rightarrow> ptr \<Rightarrow> (string + unit) comp" where
  "validate_box_matrix E tensor =
     (if tensor = null then ret (Inl ''box_matrix tensor is NULL'')
      else bnd (load_managed tensor) (\<lambda>m.
        let t = dl_tensor m in
        if t_dtype t \<noteq> dtype_f64
        then ret (Inl (''box_matrix: expected f64, got '' @ debug_dtype E (t_dtype t)))
        else if t_ndim t \<noteq> 2
        then ret (Inl (''box_matrix: expected ndim=2, got '' @ show_int (sint (t_ndim t))))
        else bnd (i64_slice (t_shape t) 2) (\<lambda>shape.
          if shape ! 0 \<noteq> 3 \<or> shape ! 1 \<noteq> 3
          then ret (Inl (''box_matrix: expected shape=[3,3], got ['' @ show_int (sint (shape ! 0)) @
                 '','' @ show_int (sint (shape ! 1)) @ '']''))
          else ret (Inr ()))))"

section \<open>Tensors in memory\<close>

datatype tensor_kind = Borrowed | Owned_f64 | Owned_i32

text \<open>
  What a caller sees of a tensor made by the core: who owns the data, where the
  data is, its element type and its extents.
\<close>

record tensor_view =
  kind :: tensor_kind
  buffer :: ptr
  elem :: DLDataType
  extents :: "i64 list"

definition deleter_of :: "tensor_kind \<Rightarrow> deleter_fn" where
  "deleter_of k = (case k of
      Borrowed \<Rightarrow> Borrowed_deleter | Owned_f64 \<Rightarrow> Owned_f64_deleter | Owned_i32 \<Rightarrow> Owned_i32_deleter)"

definition ctx_rep :: "mem \<Rightarrow> tensor_kind \<Rightarrow> ptr \<Rightarrow> ptr \<Rightarrow> ptr \<Rightarrow> ptr \<Rightarrow> bool" where
  "ctx_rep h k c d sp st = (case k of
      Borrowed \<Rightarrow> h c = Some (Borrowed_ctx \<lparr>bc_shape = sp, bc_strides = st\<rparr>)
    | Owned_f64 \<Rightarrow>
        h c = Some (Owned_f64_ctx \<lparr>ofc_data = d, ofc_shape = sp, ofc_strides = st\<rparr>) \<and>
        (\<exists>xs. h d = Some (F64s xs))
    | Owned_i32 \<Rightarrow>
        h c = Some (Owned_i32_ctx \<lparr>oic_data = d, oic_shape = sp, oic_strides = st\<rparr>) \<and>
        (\<exists>xs. h d = Some (I32s xs)))"

definition owned_buffer :: "tensor_view \<Rightarrow> ptr set" where
  "owned_buffer v = (if kind v = Borrowed then {} else {buffer v})"

definition tensor_rep :: "mem \<Rightarrow> ptr \<Rightarrow> tensor_view \<Rightarrow> ptr set \<Rightarrow> bool" where
  "tensor_rep h t v F \<longleftrightarrow> (\<exists>m sp st.
     h t = Some (Managed m) \<and> t \<noteq> null \<and> manager_ctx m \<noteq> null \<and> sp \<noteq> null \<and> st \<noteq> null \<and>
     deleter m = Some (deleter_of (kind v)) \<and>
     dl_tensor m = \<lparr>t_data = buffer v, t_device = cpu_device,
       t_ndim = word_of_nat (length (extents v)), t_dtype = elem v,
       t_shape = sp, t_strides = st, t_byte_offset = 0\<rparr> \<and>
     h sp = Some (I64s (extents v)) \<and> h st = Some (I64s (row_major (extents v))) \<and> sp \<noteq> st \<and>
     ctx_rep h (kind v) (manager_ctx m) (buffer v) sp st \<and>
     F = {t, manager_ctx m, sp, st} \<union> owned_buffer v)"

lemma tensor_repI:
  assumes "h t = Some (Managed m)" "t \<noteq> null" "manager_ctx m \<noteq> null" "sp \<noteq> null" "st \<noteq> null"
    "deleter m = Some (deleter_of (kind v))"
    "dl_tensor m = \<lparr>t_data = buffer v, t_device = cpu_device,
       t_ndim = word_of_nat (length (extents v)), t_dtype = elem v,
       t_shape = sp, t_strides = st, t_byte_offset = 0\<rparr>"
    "h sp = Some (I64s (extents v))" "h st = Some (I64s (row_major (extents v)))" "sp \<noteq> st"
    "ctx_rep h (kind v) (manager_ctx m) (buffer v) sp st"
    "F = {t, manager_ctx m, sp, st} \<union> owned_buffer v"
  shows "tensor_rep h t v F"
  using assms unfolding tensor_rep_def by blast

lemma ctx_rep_frame:
  "ctx_rep h (kind v) c (buffer v) sp st \<Longrightarrow> h' c = h c \<Longrightarrow>
     (\<And>p. p \<in> owned_buffer v \<Longrightarrow> h' p = h p) \<Longrightarrow> ctx_rep h' (kind v) c (buffer v) sp st"
  by (auto simp: ctx_rep_def owned_buffer_def split: tensor_kind.splits)

lemma tensor_rep_frame:
  assumes "tensor_rep h t v F" and eq: "\<And>p. p \<in> F \<Longrightarrow> h' p = h p"
  shows "tensor_rep h' t v F"
proof -
  from assms(1) obtain m sp st where r: "h t = Some (Managed m)" "t \<noteq> null" "manager_ctx m \<noteq> null"
    "sp \<noteq> null" "st \<noteq> null" "deleter m = Some (deleter_of (kind v))"
    "dl_tensor m = \<lparr>t_data = buffer v, t_device = cpu_device,
       t_ndim = word_of_nat (length (extents v)), t_dtype = elem v,
       t_shape = sp, t_strides = st, t_byte_offset = 0\<rparr>"
    "h sp = Some (I64s (extents v))" "h st = Some (I64s (row_major (extents v)))" "sp \<noteq> st"
    "ctx_rep h (kind v) (manager_ctx m) (buffer v) sp st"
    "F = {t, manager_ctx m, sp, st} \<union> owned_buffer v"
    unfolding tensor_rep_def by blast
  moreover have "ctx_rep h' (kind v) (manager_ctx m) (buffer v) sp st"
    using r(11) by (rule ctx_rep_frame) (simp_all add: eq r(12))
  ultimately show ?thesis by (intro tensor_repI [of h' t m sp st]) (simp_all add: eq)
qed

lemma ctx_rep_live:
  "ctx_rep h (kind v) c (buffer v) sp st \<Longrightarrow> p \<in> {c} \<union> owned_buffer v \<Longrightarrow>
     h p \<noteq> None \<and> \<not> is_cstr (h p)"
  by (auto simp: ctx_rep_def owned_buffer_def split: tensor_kind.splits)

lemma tensor_rep_live:
  "tensor_rep h t v F \<Longrightarrow> p \<in> F \<Longrightarrow> h p \<noteq> None \<and> \<not> is_cstr (h p)"
  unfolding tensor_rep_def using ctx_rep_live [of h v _ _ _ p] by auto

lemma tensor_rep_self: "tensor_rep h t v F \<Longrightarrow> t \<in> F \<and> t \<noteq> null"
  unfolding tensor_rep_def by auto

text \<open>
  Freeing a tensor runs the deleter its kind stores.  The blocks of the graph are
  pairwise distinct because their types differ, so no drop hits a freed block.
\<close>

lemma tensor_rep_free:
  assumes r: "tensor_rep (heap w) t v F"
  shows "rgpot_tensor_free E t w = Done () (drop_blocks F w)"
proof -
  from r obtain m sp st where m: "heap w t = Some (Managed m)" "t \<noteq> null" "manager_ctx m \<noteq> null"
    "deleter m = Some (deleter_of (kind v))"
    "heap w sp = Some (I64s (extents v))" "heap w st = Some (I64s (row_major (extents v)))" "sp \<noteq> st"
    "ctx_rep (heap w) (kind v) (manager_ctx m) (buffer v) sp st"
    "F = {t, manager_ctx m, sp, st} \<union> owned_buffer v"
    unfolding tensor_rep_def by blast
  have d1: "t \<noteq> sp" "t \<noteq> st" using m by auto
  have d2: "manager_ctx m \<noteq> t" "manager_ctx m \<noteq> sp" "manager_ctx m \<noteq> st"
    using m by (auto simp: ctx_rep_def split: tensor_kind.splits)
  have d3: "p \<noteq> t \<and> p \<noteq> manager_ctx m \<and> p \<noteq> sp \<and> p \<noteq> st \<and> sp \<noteq> p \<and> st \<noteq> p \<and> t \<noteq> p \<and>
      manager_ctx m \<noteq> p" if "p \<in> owned_buffer v" for p
    using that m by (auto simp: ctx_rep_def owned_buffer_def split: tensor_kind.splits if_splits)
  show ?thesis
  proof (cases "kind v")
    case Borrowed
    then have "heap w (manager_ctx m) = Some (Borrowed_ctx \<lparr>bc_shape = sp, bc_strides = st\<rparr>)"
      using m by (simp add: ctx_rep_def)
    with Borrowed m d1 d2 show ?thesis
      by (simp add: rgpot_tensor_free_def run_deleter_def borrowed_deleter_def drop_managed_def
          drop_borrowed_ctx_def deleter_of_def owned_buffer_def exec insert_commute)
  next
    case Owned_f64
    then obtain xs where "heap w (manager_ctx m) = Some (Owned_f64_ctx
          \<lparr>ofc_data = buffer v, ofc_shape = sp, ofc_strides = st\<rparr>)" "heap w (buffer v) = Some (F64s xs)"
      using m by (auto simp: ctx_rep_def)
    with Owned_f64 m d1 d2 d3 show ?thesis
      by (simp add: rgpot_tensor_free_def run_deleter_def owned_f64_deleter_def drop_managed_def
          drop_owned_f64_ctx_def deleter_of_def owned_buffer_def exec insert_commute)
  next
    case Owned_i32
    then obtain xs where "heap w (manager_ctx m) = Some (Owned_i32_ctx
          \<lparr>oic_data = buffer v, oic_shape = sp, oic_strides = st\<rparr>)" "heap w (buffer v) = Some (I32s xs)"
      using m by (auto simp: ctx_rep_def)
    with Owned_i32 m d1 d2 d3 show ?thesis
      by (simp add: rgpot_tensor_free_def run_deleter_def owned_i32_deleter_def drop_managed_def
          drop_owned_i32_ctx_def deleter_of_def owned_buffer_def exec insert_commute)
  qed
qed

interpretation tens: resource tensor_rep "rgpot_tensor_free E" for E
proof unfold_locales
  show "rgpot_tensor_free E t w = Undefined" if "t \<noteq> null" "heap w t = None" for t w
    using that by (simp add: rgpot_tensor_free_def exec)
qed (use tensor_rep_frame tensor_rep_self tensor_rep_live tensor_rep_free in \<open>blast+\<close>)

section \<open>Creation\<close>

lemma create_borrowed_rep:
  assumes ok: "world_ok w" and str: "compute_row_major_strides E sh = ret (row_major sh)"
  shows "\<exists>t w' F. create_borrowed_tensor E d dt sh w = Done t w' \<and> grows w w' F \<and>
     tensor_rep (heap w') t \<lparr>kind = Borrowed, buffer = d, elem = dt, extents = sh\<rparr> F"
proof -
  let ?b = "brk w"
  let ?m = "\<lparr>version = dlpack_version, manager_ctx = ?b + 2, deleter = Some Borrowed_deleter, flags = 0,
    dl_tensor = \<lparr>t_data = d, t_device = cpu_device, t_ndim = word_of_nat (length sh), t_dtype = dt,
      t_shape = ?b, t_strides = ?b + 1, t_byte_offset = 0\<rparr>\<rparr>"
  let ?w = "push (Managed ?m) (push (Borrowed_ctx \<lparr>bc_shape = ?b, bc_strides = ?b + 1\<rparr>)
    (push (I64s (row_major sh)) (push (I64s sh) w)))"
  have "create_borrowed_tensor E d dt sh w = Done (?b + 3) ?w"
    by (simp add: create_borrowed_tensor_def str exec numeral_3_eq_3)
  moreover have "tensor_rep (heap ?w) (?b + 3)
      \<lparr>kind = Borrowed, buffer = d, elem = dt, extents = sh\<rparr> {?b, ?b + 1, ?b + 2, ?b + 3}"
    using world_ok_brk [OF ok]
    by (intro tensor_repI [of _ _ ?m ?b "?b + 1"])
      (auto simp: ctx_rep_def deleter_of_def owned_buffer_def numeral_3_eq_3)
  ultimately show ?thesis using grows_push4 [OF ok] by blast
qed

lemma create_owned_f64_rep:
  assumes ok: "world_ok w" and str: "compute_row_major_strides E sh = ret (row_major sh)"
  shows "\<exists>t w' F d. create_owned_f64_tensor E xs sh w = Done t w' \<and> grows w w' F \<and>
     tensor_rep (heap w') t \<lparr>kind = Owned_f64, buffer = d, elem = dtype_f64, extents = sh\<rparr> F \<and>
     heap w' d = Some (F64s xs) \<and> d \<noteq> null"
proof -
  let ?b = "brk w"
  let ?m = "\<lparr>version = dlpack_version, manager_ctx = ?b + 3, deleter = Some Owned_f64_deleter,
    flags = is_copied_flag E,
    dl_tensor = \<lparr>t_data = ?b, t_device = cpu_device, t_ndim = word_of_nat (length sh), t_dtype = dtype_f64,
      t_shape = ?b + 1, t_strides = ?b + 2, t_byte_offset = 0\<rparr>\<rparr>"
  let ?w = "push (Managed ?m)
    (push (Owned_f64_ctx \<lparr>ofc_data = ?b, ofc_shape = ?b + 1, ofc_strides = ?b + 2\<rparr>)
    (push (I64s (row_major sh)) (push (I64s sh) (push (F64s xs) w))))"
  have "create_owned_f64_tensor E xs sh w = Done (?b + 4) ?w"
    by (simp add: create_owned_f64_tensor_def str exec eval_nat_numeral)
  moreover have "tensor_rep (heap ?w) (?b + 4)
      \<lparr>kind = Owned_f64, buffer = ?b, elem = dtype_f64, extents = sh\<rparr>
      {?b, ?b + 1, ?b + 2, ?b + 3, ?b + 4}"
    using world_ok_brk [OF ok]
    by (intro tensor_repI [of _ _ ?m "?b + 1" "?b + 2"])
      (auto simp: ctx_rep_def deleter_of_def owned_buffer_def eval_nat_numeral)
  moreover have "heap ?w ?b = Some (F64s xs)" by simp
  ultimately show ?thesis using grows_push5 [OF ok] world_ok_brk [OF ok] by blast
qed

lemma create_owned_i32_rep:
  assumes ok: "world_ok w" and str: "compute_row_major_strides E sh = ret (row_major sh)"
  shows "\<exists>t w' F d. create_owned_i32_tensor E xs sh w = Done t w' \<and> grows w w' F \<and>
     tensor_rep (heap w') t \<lparr>kind = Owned_i32, buffer = d, elem = dtype_i32, extents = sh\<rparr> F \<and>
     heap w' d = Some (I32s xs) \<and> d \<noteq> null"
proof -
  let ?b = "brk w"
  let ?m = "\<lparr>version = dlpack_version, manager_ctx = ?b + 3, deleter = Some Owned_i32_deleter,
    flags = is_copied_flag E,
    dl_tensor = \<lparr>t_data = ?b, t_device = cpu_device, t_ndim = word_of_nat (length sh), t_dtype = dtype_i32,
      t_shape = ?b + 1, t_strides = ?b + 2, t_byte_offset = 0\<rparr>\<rparr>"
  let ?w = "push (Managed ?m)
    (push (Owned_i32_ctx \<lparr>oic_data = ?b, oic_shape = ?b + 1, oic_strides = ?b + 2\<rparr>)
    (push (I64s (row_major sh)) (push (I64s sh) (push (I32s xs) w))))"
  have "create_owned_i32_tensor E xs sh w = Done (?b + 4) ?w"
    by (simp add: create_owned_i32_tensor_def str exec eval_nat_numeral)
  moreover have "tensor_rep (heap ?w) (?b + 4)
      \<lparr>kind = Owned_i32, buffer = ?b, elem = dtype_i32, extents = sh\<rparr>
      {?b, ?b + 1, ?b + 2, ?b + 3, ?b + 4}"
    using world_ok_brk [OF ok]
    by (intro tensor_repI [of _ _ ?m "?b + 1" "?b + 2"])
      (auto simp: ctx_rep_def deleter_of_def owned_buffer_def eval_nat_numeral)
  moreover have "heap ?w ?b = Some (I32s xs)" by simp
  ultimately show ?thesis using grows_push5 [OF ok] world_ok_brk [OF ok] by blast
qed

section \<open>The exported constructors\<close>

text \<open>Up to two dimensions no product is formed that could overflow.\<close>

lemma strides_1d: "compute_row_major_strides E [a] = ret (row_major [a])"
  by (simp add: strides_outcome extent_product_def fits_i64_def)

lemma strides_2d: "compute_row_major_strides E [a, b] = ret (row_major [a, b])"
proof -
  have "fits_i64 (extent_product [a, b] i)" if "i < 2" for i
    using that sint_range_64 [of b] by (cases i) (auto simp: extent_product_def fits_i64_def)
  then show ?thesis by (auto simp: strides_outcome)
qed

lemma cpu_f64_2d_rep:
  assumes "world_ok w"
  shows "\<exists>t w' F. rgpot_tensor_cpu_f64_2d E d r c w = Done t w' \<and> grows w w' F \<and>
     tensor_rep (heap w') t \<lparr>kind = Borrowed, buffer = d, elem = dtype_f64, extents = [r, c]\<rparr> F"
  using create_borrowed_rep [OF assms strides_2d [of E r c], of d dtype_f64]
  by (auto simp: rgpot_tensor_cpu_f64_2d_def intro: extern_C_Done)

lemma cpu_i32_1d_rep:
  assumes "world_ok w"
  shows "\<exists>t w' F. rgpot_tensor_cpu_i32_1d E d n w = Done t w' \<and> grows w w' F \<and>
     tensor_rep (heap w') t \<lparr>kind = Borrowed, buffer = d, elem = dtype_i32, extents = [n]\<rparr> F"
  using create_borrowed_rep [OF assms strides_1d [of E n], of d dtype_i32]
  by (auto simp: rgpot_tensor_cpu_i32_1d_def intro: extern_C_Done)

lemma cpu_f64_matrix3_eq: "rgpot_tensor_cpu_f64_matrix3 E d = rgpot_tensor_cpu_f64_2d E d 3 3"
  by (simp add: rgpot_tensor_cpu_f64_matrix3_def rgpot_tensor_cpu_f64_2d_def)

lemma owned_copy_rep:
  assumes ok: "world_ok w" and src: "heap w p = Some (F64s xs)"
    and fits: "fits_i64 (sint r * sint c)" and len: "unat (r * c) \<le> length xs"
  shows "\<exists>t w' F d. rgpot_tensor_owned_cpu_f64_2d E p r c w = Done t w' \<and> grows w w' F \<and>
     tensor_rep (heap w') t \<lparr>kind = Owned_f64, buffer = d, elem = dtype_f64, extents = [r, c]\<rparr> F \<and>
     heap w' d = Some (F64s (take (unat (r * c)) xs)) \<and> p \<notin> F \<and> d \<in> F"
proof -
  have "p \<noteq> null" "p < brk w" using world_ok_less [OF ok src] by auto
  then have "f64_slice p (unat (r * c)) w = Done (take (unat (r * c)) xs) w"
    using src len by (simp add: f64_slice_def)
  moreover have "mul_i64 E r c = ret (r * c)" using fits by (simp add: mul_i64_cases)
  moreover obtain t w' F d where "create_owned_f64_tensor E (take (unat (r * c)) xs) [r, c] w = Done t w'"
    and g: "grows w w' F"
    and rep: "tensor_rep (heap w') t \<lparr>kind = Owned_f64, buffer = d, elem = dtype_f64, extents = [r, c]\<rparr> F"
    and d: "heap w' d = Some (F64s (take (unat (r * c)) xs))"
    using create_owned_f64_rep [OF ok strides_2d] by blast
  moreover have "p \<notin> F" using growsD(6) [OF g] \<open>p < brk w\<close> by auto
  moreover have "d \<in> F" using rep by (auto simp: tensor_rep_def owned_buffer_def)
  ultimately show ?thesis
    by (intro exI [of _ t] exI [of _ w'] exI [of _ F] exI [of _ d])
      (simp add: rgpot_tensor_owned_cpu_f64_2d_def exec)
qed

text \<open>
  C6: Create and free.  Wrapping any buffer as a two-dimensional tensor succeeds for
  all row and column counts, writes fresh memory only, and yields a borrowed
  tensor with the given data pointer, element type and extents; freeing that
  tensor restores the state before the call (all memory, error slots included)
  except for the allocator's cursor, so nothing leaks and the borrowed data
  survives.
\<close>

theorem borrowed_create_free:
  assumes "world_ok w"
  shows "\<exists>t w' F. rgpot_tensor_cpu_f64_2d E d rows cols w = Done t w' \<and> grows w w' F \<and>
     tensor_rep (heap w') t \<lparr>kind = Borrowed, buffer = d, elem = dtype_f64, extents = [rows, cols]\<rparr> F \<and>
     rgpot_tensor_free E t w' = Done () (w\<lparr>brk := brk w'\<rparr>)"
  using cpu_f64_2d_rep [OF assms, of E d rows cols] tens.free_restores by blast

theorem borrowed_create_free_witness:
  "\<exists>t w'. rgpot_tensor_cpu_f64_2d plain_env 7 2 3 boot_world = Done t w' \<and>
     rgpot_tensor_free plain_env t w' = Done () (boot_world\<lparr>brk := brk w'\<rparr>)"
  using borrowed_create_free [OF boot_world_ok, of plain_env 7 2 3] by blast

text \<open>
  Owning copies.  When the element count fits and the source buffer is long enough,
  the owning constructor copies exactly \<open>rows * cols\<close> values into a fresh buffer; the
  tensor stays intact whatever happens to the source buffer afterwards, and freeing
  it restores the state before the call.
\<close>

theorem owned_copy_independent:
  assumes "world_ok w" and "heap w p = Some (F64s xs)"
    and "fits_i64 (sint rows * sint cols)" and "unat (rows * cols) \<le> length xs"
  shows "\<exists>t w' F d. rgpot_tensor_owned_cpu_f64_2d E p rows cols w = Done t w' \<and>
     heap w' d = Some (F64s (take (unat (rows * cols)) xs)) \<and> d \<noteq> p \<and>
     heap w' p = Some (F64s xs) \<and>
     (\<forall>b. tensor_rep ((heap w')(p := b)) t
        \<lparr>kind = Owned_f64, buffer = d, elem = dtype_f64, extents = [rows, cols]\<rparr> F) \<and>
     rgpot_tensor_free E t w' = Done () (w\<lparr>brk := brk w'\<rparr>)"
proof -
  obtain t w' F d where run: "rgpot_tensor_owned_cpu_f64_2d E p rows cols w = Done t w'"
    and g: "grows w w' F"
    and rep: "tensor_rep (heap w') t \<lparr>kind = Owned_f64, buffer = d, elem = dtype_f64, extents = [rows, cols]\<rparr> F"
    and d: "heap w' d = Some (F64s (take (unat (rows * cols)) xs))" "p \<notin> F" "d \<in> F"
    using owned_copy_rep [OF assms] by blast
  have "tensor_rep ((heap w')(p := b)) t
      \<lparr>kind = Owned_f64, buffer = d, elem = dtype_f64, extents = [rows, cols]\<rparr> F" for b
    using rep by (rule tens.rep_frame) (use d in auto)
  moreover have "heap w' p = Some (F64s xs)" by (rule grows_keeps [OF g assms(1,2)])
  ultimately show ?thesis using run d tens.free_restores [OF g rep] by blast
qed

theorem owned_copy_independent_witness:
  "\<exists>t w' d. rgpot_tensor_owned_cpu_f64_2d plain_env 1 2 3 (push (F64s [1, 2, 3, 4, 5, 6, 7]) boot_world) = Done t w' \<and>
     heap w' d = Some (F64s [1, 2, 3, 4, 5, 6]) \<and> d \<noteq> 1"
proof -
  let ?w = "push (F64s [1, 2, 3, 4, 5, 6, 7]) boot_world"
  have "heap ?w 1 = Some (F64s [1, 2, 3, 4, 5, 6, 7])" by (simp add: boot_world_def)
  moreover have "fits_i64 (sint (2 :: i64) * sint (3 :: i64))" by (simp add: fits_i64_def)
  ultimately show ?thesis
    using owned_copy_independent [of ?w 1 "[1, 2, 3, 4, 5, 6, 7]" 2 3 plain_env]
    by (auto simp: world_ok_push)
qed

text \<open>
  C12: The owning constructor is not behind the panic barrier.  When \<open>rows * cols\<close> leaves
  the range of \<^verbatim>\<open>i64\<close>, a build with overflow checks aborts the process; a build
  without them continues with the wrapped count and, if that is 0, hands out a
  tensor whose extents claim \<open>rows\<close> by \<open>cols\<close> elements over an empty buffer.
\<close>

theorem owned_overflow:
  assumes "world_ok w" and "p \<noteq> null" and over: "\<not> fits_i64 (sint rows * sint cols)"
  shows "(overflow_checks E \<longrightarrow> rgpot_tensor_owned_cpu_f64_2d E p rows cols w = Aborted) \<and>
     (\<not> overflow_checks E \<and> rows * cols = 0 \<longrightarrow>
        (\<exists>t w' F d. rgpot_tensor_owned_cpu_f64_2d E p rows cols w = Done t w' \<and>
           tensor_rep (heap w') t
             \<lparr>kind = Owned_f64, buffer = d, elem = dtype_f64, extents = [rows, cols]\<rparr> F \<and>
           heap w' d = Some (F64s [])))"
proof (intro conjI impI)
  assume "overflow_checks E"
  with over show "rgpot_tensor_owned_cpu_f64_2d E p rows cols w = Aborted"
    by (simp add: rgpot_tensor_owned_cpu_f64_2d_def mul_i64_cases exec)
next
  assume "\<not> overflow_checks E \<and> rows * cols = 0"
  then have "rgpot_tensor_owned_cpu_f64_2d E p rows cols w =
      extern_C (create_owned_f64_tensor E [] [rows, cols]) w"
    using assms(2) by (simp add: rgpot_tensor_owned_cpu_f64_2d_def mul_i64_cases f64_slice_def exec)
  with create_owned_f64_rep [OF assms(1) strides_2d [of E rows cols], of "[]"]
  show "\<exists>t w' F d. rgpot_tensor_owned_cpu_f64_2d E p rows cols w = Done t w' \<and>
      tensor_rep (heap w') t
        \<lparr>kind = Owned_f64, buffer = d, elem = dtype_f64, extents = [rows, cols]\<rparr> F \<and>
      heap w' d = Some (F64s [])"
    by (metis extern_C_Done)
qed

theorem owned_overflow_witness:
  "rgpot_tensor_owned_cpu_f64_2d plain_env 1 4294967296 4294967296 boot_world = Aborted \<and>
   (\<exists>t w'. rgpot_tensor_owned_cpu_f64_2d (plain_env\<lparr>overflow_checks := False\<rparr>) 1 4294967296 4294967296 boot_world = Done t w')"
proof -
  have "\<not> fits_i64 (sint (4294967296 :: i64) * sint (4294967296 :: i64))" by (simp add: fits_i64_def)
  note o = owned_overflow [OF boot_world_ok _ this, of 1]
  from o [of plain_env] o [of "plain_env\<lparr>overflow_checks := False\<rparr>"] show ?thesis
    by (auto simp: plain_env_def)
qed

section \<open>Accessors and validators\<close>

lemma tensor_rep_load:
  "tensor_rep (heap w) t v F \<Longrightarrow>
     \<exists>m sp. load_managed t w = Done m w \<and> t \<noteq> null \<and>
       t_data (dl_tensor m) = buffer v \<and> t_device (dl_tensor m) = cpu_device \<and>
       t_ndim (dl_tensor m) = word_of_nat (length (extents v)) \<and> t_dtype (dl_tensor m) = elem v \<and>
       t_shape (dl_tensor m) = sp \<and> sp \<noteq> null \<and> heap w sp = Some (I64s (extents v)) \<and> sp \<in> F"
  unfolding tensor_rep_def by (auto simp: exec)

lemma word_of_nat_32_eq: "n < 2 ^ 32 \<Longrightarrow> k < 2 ^ 32 \<Longrightarrow> (word_of_nat n = (word_of_nat k :: 32 word)) \<longleftrightarrow> n = k"
  by (metis unat_of_nat_32)

lemma ndim_eq:
  assumes "length xs < 2 ^ 31"
  shows "(word_of_nat (length xs) = (2 :: 32 word)) \<longleftrightarrow> length xs = 2"
    and "(word_of_nat (length xs) = (1 :: 32 word)) \<longleftrightarrow> length xs = 1"
  using word_of_nat_32_eq [of "length xs" 2] word_of_nat_32_eq [of "length xs" 1] assms by simp_all

lemma length_2_nth: "length xs = 2 \<Longrightarrow> xs = [xs ! 0, xs ! 1]"
  by (auto simp: length_Suc_conv eval_nat_numeral)

lemma length_1_nth: "length xs = 1 \<Longrightarrow> xs = [xs ! 0]"
  by (auto simp: length_Suc_conv)

text \<open>
  C17: Validation is exact.  On every tensor the core can build the three validators
  read no invalid memory and change nothing; the positions validator accepts
  precisely the \<^verbatim>\<open>f64\<close> tensors with extents \<open>[n, 3]\<close> and returns \<open>n\<close>, the atomic
  number validator precisely the \<^verbatim>\<open>i32\<close> tensors with extents \<open>[n]\<close> for the
  expected \<open>n\<close>, the box validator precisely the \<^verbatim>\<open>f64\<close> tensors with extents \<open>[3, 3]\<close>.
\<close>

theorem validators_exact:
  assumes rep: "tensor_rep (heap w) t v F" and dims: "length (extents v) < 2 ^ 31"
  shows "(\<exists>r. validate_positions E t w = Done r w \<and>
            (\<forall>n. r = Inr n \<longleftrightarrow> elem v = dtype_f64 \<and> extents v = [n, 3])) \<and>
         (\<exists>r. validate_atomic_numbers E t k w = Done r w \<and>
            (r = Inr () \<longleftrightarrow> elem v = dtype_i32 \<and> extents v = [k])) \<and>
         (\<exists>r. validate_box_matrix E t w = Done r w \<and>
            (r = Inr () \<longleftrightarrow> elem v = dtype_f64 \<and> extents v = [3, 3]))"
proof -
  obtain m sp where m: "load_managed t w = Done m w" "t \<noteq> null"
    "t_ndim (dl_tensor m) = word_of_nat (length (extents v))" "t_dtype (dl_tensor m) = elem v"
    "t_shape (dl_tensor m) = sp" "sp \<noteq> null" "heap w sp = Some (I64s (extents v))"
    using tensor_rep_load [OF rep] by blast
  note nd = ndim_eq [OF dims]
  have two: "length (extents v) = 2 \<Longrightarrow> i64_slice sp 2 w = Done (extents v) w"
    and one: "length (extents v) = 1 \<Longrightarrow> i64_slice sp 1 w = Done (extents v) w"
    using slice_exact(3) [OF m(6,7)] by metis+
  have pos: "\<exists>r. validate_positions E t w = Done r w \<and>
      (\<forall>n. r = Inr n \<longleftrightarrow> elem v = dtype_f64 \<and> extents v = [n, 3])"
    using m(1-5) nd two length_2_nth [of "extents v"]
    by (cases "length (extents v) = 2") (auto simp: validate_positions_def Let_def exec)
  have atm: "\<exists>r. validate_atomic_numbers E t k w = Done r w \<and>
      (r = Inr () \<longleftrightarrow> elem v = dtype_i32 \<and> extents v = [k])"
    using m(1-5) nd one length_1_nth [of "extents v"]
    by (cases "length (extents v) = 1") (auto simp: validate_atomic_numbers_def Let_def exec)
  have box: "\<exists>r. validate_box_matrix E t w = Done r w \<and>
      (r = Inr () \<longleftrightarrow> elem v = dtype_f64 \<and> extents v = [3, 3])"
    using m(1-5) nd two length_2_nth [of "extents v"]
    by (cases "length (extents v) = 2") (auto simp: validate_box_matrix_def Let_def exec)
  from pos atm box show ?thesis by blast
qed

text \<open>
  The witness uses a tensor the core itself makes.
\<close>

theorem validators_exact_witness:
  "\<exists>t w. rgpot_tensor_cpu_f64_2d plain_env 7 2 3 boot_world = Done t w \<and>
     validate_positions plain_env t w = Done (Inr 2) w"
proof -
  obtain t w F where run: "rgpot_tensor_cpu_f64_2d plain_env 7 2 3 boot_world = Done t w"
    and rep: "tensor_rep (heap w) t \<lparr>kind = Borrowed, buffer = 7, elem = dtype_f64, extents = [2, 3]\<rparr> F"
    using cpu_f64_2d_rep [OF boot_world_ok, of plain_env 7 2 3] by blast
  from validators_exact [OF rep, of plain_env 0] run show ?thesis by auto
qed

text \<open>
  The accessors agree with the tensor: device and data pointer are those it was
  created with, and reading as many entries as the reported dimension count from
  the returned shape pointer gives the extents.  Only the caller's \<^verbatim>\<open>ndim_out\<close>
  variable is written.
\<close>

theorem accessors_agree:
  assumes rep: "tensor_rep (heap w) t v F" and dims: "length (extents v) < 2 ^ 31"
    and out: "heap w q = Some (I32s [x])" "q \<notin> F"
  shows "rgpot_tensor_device t w = Done cpu_device w \<and>
     rgpot_tensor_data t w = Done (buffer v) w \<and>
     (\<exists>sp n. rgpot_tensor_shape t q w = Done sp (set_block q (I32s [n]) w) \<and>
        i64_slice sp (unat n) (set_block q (I32s [n]) w) = Done (extents v) (set_block q (I32s [n]) w))"
proof -
  obtain m sp where m: "load_managed t w = Done m w" "t_data (dl_tensor m) = buffer v"
    "t_device (dl_tensor m) = cpu_device" "t_ndim (dl_tensor m) = word_of_nat (length (extents v))"
    "t_shape (dl_tensor m) = sp" "sp \<noteq> null" "heap w sp = Some (I64s (extents v))" "sp \<in> F"
    using tensor_rep_load [OF rep] by blast
  let ?n = "word_of_nat (length (extents v)) :: 32 word"
  have "heap (set_block q (I32s [?n]) w) sp = Some (I64s (extents v))"
    using m(7,8) out(2) by auto
  from slice_exact(3) [OF m(6) this] dims
  have "i64_slice sp (unat ?n) (set_block q (I32s [?n]) w) = Done (extents v) (set_block q (I32s [?n]) w)"
    by simp
  with m(1-5) out(1) show ?thesis
    by (auto simp: rgpot_tensor_device_def rgpot_tensor_data_def rgpot_tensor_shape_def store_i32_def
        bnd_def ret_def extern_C_def)
qed

theorem accessors_agree_witness:
  "\<exists>t w sp n. rgpot_tensor_cpu_f64_2d plain_env 7 4 3 (push (I32s [0]) boot_world) = Done t w \<and>
     rgpot_tensor_data t w = Done 7 w \<and>
     rgpot_tensor_shape t 1 w = Done sp (set_block 1 (I32s [n]) w)"
proof -
  let ?w = "push (I32s [0]) boot_world"
  have ok: "world_ok ?w" by (simp add: world_ok_push)
  obtain t w F where run: "rgpot_tensor_cpu_f64_2d plain_env 7 4 3 ?w = Done t w"
    and g: "grows ?w w F"
    and rep: "tensor_rep (heap w) t \<lparr>kind = Borrowed, buffer = 7, elem = dtype_f64, extents = [4, 3]\<rparr> F"
    using cpu_f64_2d_rep [OF ok, of plain_env 7 4 3] by blast
  have "heap w 1 = Some (I32s [0])" by (rule grows_keeps [OF g ok]) (simp add: boot_world_def)
  moreover have "1 \<notin> F" using growsD(6) [OF g] by (auto simp: boot_world_def)
  ultimately show ?thesis using accessors_agree [OF rep, of 1 0] run by auto
qed

end
