(* ===== verification/Rgpot_Session.thy ===== *)
theory Rgpot_Session
  imports Rgpot_Tensor
begin

text \<open>
  A caller of \<^verbatim>\<open>tensor.rs\<close> over time: any interleaving of wrapping, copying and freeing,
  in any order, as a transition system, with the invariant that the live tensors
  coexist and account for all memory the caller did not have before.
\<close>

section \<open>Removing one of several resources\<close>

lemma coexist_remove:
  "coexist rep h (xs @ (t, v, F) # ys) \<Longrightarrow>
     rep h t v F \<and> F \<inter> footprint (xs @ ys) = {} \<and> coexist rep h (xs @ ys)"
proof (induction xs)
  case (Cons x xs)
  then show ?case by (cases x) auto
qed simp

lemma footprint_remove: "footprint (xs @ (t, v, F) # ys) = F \<union> footprint (xs @ ys)"
  by auto

context resource
begin

lemma coexist_handle: "coexist rep h rs \<Longrightarrow> u \<in> fst ` set rs \<Longrightarrow> u \<in> footprint rs"
proof (induction rs)
  case (Cons r rs)
  obtain t v F where r: "r = (t, v, F)" by (cases r)
  from Cons rep_self [of h t v F] show ?case unfolding r by auto
qed simp

lemma coexist_handles_distinct: "coexist rep h rs \<Longrightarrow> distinct (map fst rs)"
proof (induction rs)
  case (Cons r rs)
  obtain t v F where r: "r = (t, v, F)" by (cases r)
  with Cons.prems have "t \<in> F" "F \<inter> footprint rs = {}" "coexist rep h rs" by (auto dest: rep_self)
  with coexist_handle [of h rs t] Cons.IH show ?case by (auto simp: r)
qed simp

end

section \<open>Sessions\<close>

text \<open>\<open>tensor_session E w0 ts w\<close>: from \<open>w0\<close> the caller can reach \<open>w\<close>, holding the tensors \<open>ts\<close>.\<close>

inductive tensor_session :: "'x env_scheme \<Rightarrow> world \<Rightarrow> ptr list \<Rightarrow> world \<Rightarrow> bool" for E w0 where
  idle: "tensor_session E w0 [] w0"
| wrap_f64: "tensor_session E w0 ts w \<Longrightarrow> rgpot_tensor_cpu_f64_2d E p r c w = Done t w' \<Longrightarrow>
     tensor_session E w0 (t # ts) w'"
| wrap_i32: "tensor_session E w0 ts w \<Longrightarrow> rgpot_tensor_cpu_i32_1d E p n w = Done t w' \<Longrightarrow>
     tensor_session E w0 (t # ts) w'"
| wrap_matrix: "tensor_session E w0 ts w \<Longrightarrow> rgpot_tensor_cpu_f64_matrix3 E p w = Done t w' \<Longrightarrow>
     tensor_session E w0 (t # ts) w'"
| copy_f64: "tensor_session E w0 ts w \<Longrightarrow> heap w0 p = Some (F64s xs) \<Longrightarrow>
     fits_i64 (sint r * sint c) \<Longrightarrow> unat (r * c) \<le> length xs \<Longrightarrow>
     rgpot_tensor_owned_cpu_f64_2d E p r c w = Done t w' \<Longrightarrow> tensor_session E w0 (t # ts) w'"
| free: "tensor_session E w0 (ts @ t # us) w \<Longrightarrow> rgpot_tensor_free E t w = Done () w' \<Longrightarrow>
     tensor_session E w0 (ts @ us) w'"

definition session_inv :: "world \<Rightarrow> ptr list \<Rightarrow> world \<Rightarrow> bool" where
  "session_inv w0 ts w \<longleftrightarrow> (\<exists>rs. map fst rs = ts \<and> coexist tensor_rep (heap w) rs \<and>
     heap w |` (- footprint rs) = heap w0 \<and> footprint rs \<subseteq> {brk w0..} \<and> brk w0 \<le> brk w \<and> world_ok w)"

lemma session_inv_add:
  assumes inv: "session_inv w0 ts w" and g: "grows w w' F" and rep: "tensor_rep (heap w') t v F"
  shows "session_inv w0 (t # ts) w'"
proof -
  from inv obtain rs where rs: "map fst rs = ts" "coexist tensor_rep (heap w) rs"
    "heap w |` (- footprint rs) = heap w0" "footprint rs \<subseteq> {brk w0..}" "brk w0 \<le> brk w" "world_ok w"
    by (auto simp: session_inv_def)
  have "F \<inter> footprint rs = {}"
    using growsD(6) [OF g] tens.coexist_live [OF rs(2)] world_ok_fresh [OF rs(6)] by fastforce
  moreover have "heap w' |` (- (F \<union> footprint rs)) = heap w0"
    using growsD(5) [OF g] rs(3) by (metis restrict_map_compl_same)
  moreover have "F \<union> footprint rs \<subseteq> {brk w0..}" using growsD(6) [OF g] rs(4,5) by fastforce
  ultimately show ?thesis
    unfolding session_inv_def using rs rep tens.coexist_grows [OF rs(2,6) g] growsD(1,4) [OF g]
    by (intro exI [of _ "(t, v, F) # rs"]) auto
qed

lemma session_inv_free:
  assumes inv: "session_inv w0 (ts @ t # us) w"
  shows "\<exists>w'. rgpot_tensor_free E t w = Done () w' \<and> session_inv w0 (ts @ us) w'"
proof -
  from inv obtain rs where rs: "map fst rs = ts @ t # us" "coexist tensor_rep (heap w) rs"
    "heap w |` (- footprint rs) = heap w0" "footprint rs \<subseteq> {brk w0..}" "brk w0 \<le> brk w" "world_ok w"
    by (auto simp: session_inv_def)
  from rs(1) obtain xs v F ys where split: "rs = xs @ (t, v, F) # ys" "map fst xs = ts" "map fst ys = us"
    by (auto simp: map_eq_append_conv map_eq_Cons_conv)
  note one = coexist_remove [OF rs(2) [unfolded split(1)]]
  let ?w = "drop_blocks F w"
  have "coexist tensor_rep (heap ?w) (xs @ ys)"
    by (rule tens.coexist_frame [OF conjunct2 [OF conjunct2 [OF one]]])
      (use conjunct1 [OF conjunct2 [OF one]] in \<open>auto simp: restrict_map_def\<close>)
  moreover have "heap ?w |` (- footprint (xs @ ys)) = heap w0"
    using rs(3) unfolding split(1) footprint_remove by simp
  moreover have "footprint (xs @ ys) \<subseteq> {brk w0..}" using rs(4) unfolding split(1) footprint_remove by blast
  moreover have "world_ok ?w"
    using rs(6) by (rule world_ok_drop) (use tens.rep_live [OF conjunct1 [OF one]] in simp)
  ultimately have "session_inv w0 (ts @ us) ?w"
    unfolding session_inv_def using split rs(5) by (intro exI [of _ "xs @ ys"]) simp
  with tens.free_rep [OF conjunct1 [OF one], of E] show ?thesis by blast
qed

lemma session_inv_old:
  assumes "session_inv w0 ts w" and "heap w0 p = Some b"
  shows "heap w p = Some b"
proof -
  from assms(1) obtain A where "heap w |` A = heap w0" by (auto simp: session_inv_def)
  with assms(2) have "(heap w |` A) p = Some b" by simp
  then show ?thesis by (simp add: restrict_map_def split: if_splits)
qed

lemma session_invariant:
  assumes ok: "world_ok w0"
  shows "tensor_session E w0 ts w \<Longrightarrow> session_inv w0 ts w"
proof (induction rule: tensor_session.induct)
  case idle
  show ?case using ok by (auto simp: session_inv_def intro: exI [of _ "[]"])
next
  case (wrap_f64 ts w p r c t w')
  from wrap_f64.IH have "world_ok w" by (auto simp: session_inv_def)
  from cpu_f64_2d_rep [OF this, of E p r c] wrap_f64.hyps session_inv_add [OF wrap_f64.IH] show ?case by fastforce
next
  case (wrap_i32 ts w p n t w')
  from wrap_i32.IH have "world_ok w" by (auto simp: session_inv_def)
  from cpu_i32_1d_rep [OF this, of E p n] wrap_i32.hyps session_inv_add [OF wrap_i32.IH] show ?case by fastforce
next
  case (wrap_matrix ts w p t w')
  from wrap_matrix.IH have "world_ok w" by (auto simp: session_inv_def)
  from cpu_f64_2d_rep [OF this, of E p 3 3] wrap_matrix.hyps session_inv_add [OF wrap_matrix.IH] show ?case
    unfolding cpu_f64_matrix3_eq by fastforce
next
  case (copy_f64 ts w p xs r c t w')
  from copy_f64.IH have "world_ok w" by (auto simp: session_inv_def)
  from owned_copy_rep [OF this session_inv_old [OF copy_f64.IH copy_f64.hyps(2)] copy_f64.hyps(3,4), of E]
    copy_f64.hyps(5) session_inv_add [OF copy_f64.IH] show ?case by fastforce
next
  case (free ts t us w w')
  from session_inv_free [OF free.IH, of E] free.hyps show ?case by fastforce
qed

lemma session_ok: "session_inv w0 ts w \<Longrightarrow> world_ok w"
  by (auto simp: session_inv_def)

lemma session_handles:
  assumes "session_inv w0 ts w"
  shows "distinct ts" and "t \<in> set ts \<Longrightarrow> heap w t \<noteq> None" and "ts = [] \<Longrightarrow> heap w = heap w0"
proof -
  from assms obtain rs where rs: "map fst rs = ts" "coexist tensor_rep (heap w) rs"
    "heap w |` (- footprint rs) = heap w0" by (auto simp: session_inv_def)
  from tens.coexist_handles_distinct [OF rs(2)] rs(1) show "distinct ts" by simp
  show "heap w t \<noteq> None" if "t \<in> set ts"
    using tens.coexist_live [OF rs(2) tens.coexist_handle [OF rs(2)]] that rs(1) by force
  show "heap w = heap w0" if "ts = []" using rs(1,3) that by simp
qed

text \<open>
  C7: Sessions.  However a caller interleaves wrapping, copying and freeing, where the buffers it
  copies exist before the session and have the size it states, in every state
  it can reach: the tensors it holds are distinct; each of them can be freed, and the
  free returns; another tensor can always be made, at an address that is none of the
  held ones; everything in memory before the session is as it was; and once all
  tensors are freed, in whatever order, memory is exactly what it was.
\<close>

theorem tensor_session_safe:
  assumes "world_ok w0" and "tensor_session E w0 ts w"
  shows "distinct ts \<and>
     (\<forall>us t vs. ts = us @ t # vs \<longrightarrow>
        (\<exists>w'. rgpot_tensor_free E t w = Done () w' \<and> tensor_session E w0 (us @ vs) w')) \<and>
     (\<forall>p r c. \<exists>t w'. rgpot_tensor_cpu_f64_2d E p r c w = Done t w' \<and> t \<notin> set ts) \<and>
     (\<forall>p b. heap w0 p = Some b \<longrightarrow> heap w p = Some b) \<and>
     (ts = [] \<longrightarrow> heap w = heap w0)"
proof -
  note inv = session_invariant [OF assms]
  have "\<exists>w'. rgpot_tensor_free E t w = Done () w' \<and> tensor_session E w0 (us @ vs) w'"
    if "ts = us @ t # vs" for us t vs
    using session_inv_free [of w0 us t vs w E] inv tensor_session.free [of E w0 us t vs w] assms(2) that
    by blast
  moreover have "\<exists>t w'. rgpot_tensor_cpu_f64_2d E p r c w = Done t w' \<and> t \<notin> set ts" for p r c
  proof -
    obtain t w' F where run: "rgpot_tensor_cpu_f64_2d E p r c w = Done t w'" and g: "grows w w' F"
      and rep: "tensor_rep (heap w') t \<lparr>kind = Borrowed, buffer = p, elem = dtype_f64, extents = [r, c]\<rparr> F"
      using cpu_f64_2d_rep [OF session_ok [OF inv]] by blast
    have "heap w t = None"
      using tens.rep_self [OF rep] growsD(6) [OF g] world_ok_fresh [OF session_ok [OF inv]] by auto
    with run session_handles(2) [OF inv] show ?thesis by blast
  qed
  ultimately show ?thesis using session_handles(1,3) [OF inv] session_inv_old [OF inv] by blast
qed

theorem tensor_session_safe_witness:
  "\<exists>t u w. tensor_session plain_env boot_world [t, u] w \<and> t \<noteq> u \<and>
     (\<exists>w'. rgpot_tensor_free plain_env u w = Done () w')"
proof -
  obtain u w1 F where 1: "rgpot_tensor_cpu_f64_2d plain_env 7 2 3 boot_world = Done u w1" "grows boot_world w1 F"
    using cpu_f64_2d_rep [OF boot_world_ok] by blast
  obtain t w2 where 2: "rgpot_tensor_cpu_i32_1d plain_env 8 2 w1 = Done t w2"
    using cpu_i32_1d_rep [OF growsD(1) [OF 1(2)]] by blast
  have s: "tensor_session plain_env boot_world [t, u] w2"
    by (rule tensor_session.wrap_i32 [OF tensor_session.wrap_f64 [OF tensor_session.idle 1(1)] 2])
  have "[t, u] = [t] @ u # []" by simp
  with tensor_session_safe [OF boot_world_ok s] s show ?thesis
    by (metis distinct_length_2_or_more)
qed

end
