(* ===== verification/Rgpot_Types.thy ===== *)
theory Rgpot_Types
  imports Rgpot_Tensor
begin

text \<open>
  \<^verbatim>\<open>rgpot-core/src/types.rs\<close> and \<^verbatim>\<open>c_api/types.rs\<close>: the atom count of an input, and
  the constructors and the destructor of the input and output structs.
\<close>

section \<open>Definitions\<close>

definition n_atoms :: "rgpot_force_input_t \<Rightarrow> usize option comp" where
  "n_atoms self =
     (if positions self = null then ret None
      else bnd (load_managed (positions self)) (\<lambda>m.
        let t = dl_tensor m in
        if sint (t_ndim t) < 1 \<or> t_shape t = null then ret None
        else bnd (i64_slice (t_shape t) 1) (\<lambda>shape. ret (Some (shape ! 0)))))"

definition rgpot_force_input_create ::
    "'x env_scheme \<Rightarrow> usize \<Rightarrow> ptr \<Rightarrow> ptr \<Rightarrow> ptr \<Rightarrow> rgpot_force_input_t comp" where
  "rgpot_force_input_create E n pos atmnrs box_p = extern_C
     (bnd (rgpot_tensor_cpu_f64_2d E pos n 3) (\<lambda>p.
      bnd (rgpot_tensor_cpu_i32_1d E atmnrs n) (\<lambda>a.
      bnd (rgpot_tensor_cpu_f64_matrix3 E box_p) (\<lambda>b.
      ret \<lparr>positions = p, atomic_numbers = a, box_matrix = b\<rparr>))))"

definition rgpot_force_input_free :: "'x env_scheme \<Rightarrow> ptr \<Rightarrow> unit comp" where
  "rgpot_force_input_free E input = extern_C
     (if input = null then ret ()
      else bnd (load_input input) (\<lambda>inp.
           bnd (rgpot_tensor_free E (positions inp)) (\<lambda>_.
           bnd (rgpot_tensor_free E (atomic_numbers inp)) (\<lambda>_.
           bnd (rgpot_tensor_free E (box_matrix inp)) (\<lambda>_.
           store_input input
             (inp\<lparr>positions := null, atomic_numbers := null, box_matrix := null\<rparr>))))))"

definition rgpot_force_out_create :: "rgpot_force_out_t comp" where
  "rgpot_force_out_create = extern_C (ret \<lparr>forces = null, energy = 0, variance = 0\<rparr>)"

section \<open>Inputs in memory\<close>

text \<open>
  The three borrowed tensors of an input over the caller's arrays \<open>p\<close>, \<open>a\<close> and \<open>b\<close>.
\<close>

definition input_tensors ::
    "rgpot_force_input_t \<Rightarrow> usize \<Rightarrow> ptr \<Rightarrow> ptr \<Rightarrow> ptr \<Rightarrow> ptr set \<Rightarrow> ptr set \<Rightarrow> ptr set
      \<Rightarrow> (ptr \<times> tensor_view \<times> ptr set) list" where
  "input_tensors i n p a b F1 F2 F3 =
     [(positions i, \<lparr>kind = Borrowed, buffer = p, elem = dtype_f64, extents = [n, 3]\<rparr>, F1),
      (atomic_numbers i, \<lparr>kind = Borrowed, buffer = a, elem = dtype_i32, extents = [n]\<rparr>, F2),
      (box_matrix i, \<lparr>kind = Borrowed, buffer = b, elem = dtype_f64, extents = [3, 3]\<rparr>, F3)]"

definition input_rep ::
    "mem \<Rightarrow> rgpot_force_input_t \<Rightarrow> usize \<Rightarrow> ptr \<Rightarrow> ptr \<Rightarrow> ptr \<Rightarrow> ptr set \<Rightarrow> bool" where
  "input_rep h i n p a b F \<longleftrightarrow>
     (\<exists>F1 F2 F3. F = F1 \<union> F2 \<union> F3 \<and> coexist tensor_rep h (input_tensors i n p a b F1 F2 F3))"

abbreviation no_input :: rgpot_force_input_t where
  "no_input \<equiv> \<lparr>positions = null, atomic_numbers = null, box_matrix = null\<rparr>"

lemma footprint_input_tensors [simp]: "footprint (input_tensors i n p a b F1 F2 F3) = F1 \<union> F2 \<union> F3"
  by (simp add: input_tensors_def Un_assoc)

lemma input_rep_frame:
  "input_rep h i n p a b F \<Longrightarrow> (\<And>q. q \<in> F \<Longrightarrow> h' q = h q) \<Longrightarrow> input_rep h' i n p a b F"
  unfolding input_rep_def by (metis footprint_input_tensors tens.coexist_frame)

lemma input_rep_live: "input_rep h i n p a b F \<Longrightarrow> q \<in> F \<Longrightarrow> h q \<noteq> None \<and> \<not> is_cstr (h q)"
  unfolding input_rep_def by (metis footprint_input_tensors tens.coexist_live)

lemma input_rep_grows:
  "input_rep (heap w) i n p a b F \<Longrightarrow> world_ok w \<Longrightarrow> grows w w' G \<Longrightarrow> input_rep (heap w') i n p a b F"
  unfolding input_rep_def by (metis tens.coexist_grows)

lemma input_rep_positions:
  "input_rep h i n p a b F \<Longrightarrow>
     \<exists>G. tensor_rep h (positions i) \<lparr>kind = Borrowed, buffer = p, elem = dtype_f64, extents = [n, 3]\<rparr> G"
  "input_rep h i n p a b F \<Longrightarrow>
     \<exists>G. tensor_rep h (atomic_numbers i) \<lparr>kind = Borrowed, buffer = a, elem = dtype_i32, extents = [n]\<rparr> G"
  "input_rep h i n p a b F \<Longrightarrow>
     \<exists>G. tensor_rep h (box_matrix i) \<lparr>kind = Borrowed, buffer = b, elem = dtype_f64, extents = [3, 3]\<rparr> G"
  by (auto simp: input_rep_def input_tensors_def)

text \<open>Three tensors made one after the other coexist.\<close>

lemma three_tensors:
  assumes ok: "world_ok w"
  shows "\<exists>t1 t2 t3 w1 w2 w3 F.
     rgpot_tensor_cpu_f64_2d E p n 3 w = Done t1 w1 \<and>
     rgpot_tensor_cpu_i32_1d E a n w1 = Done t2 w2 \<and>
     rgpot_tensor_cpu_f64_matrix3 E b w2 = Done t3 w3 \<and>
     grows w w3 F \<and>
     input_rep (heap w3) \<lparr>positions = t1, atomic_numbers = t2, box_matrix = t3\<rparr> n p a b F"
proof -
  obtain t1 w1 F1 where 1: "rgpot_tensor_cpu_f64_2d E p n 3 w = Done t1 w1" "grows w w1 F1"
    "tensor_rep (heap w1) t1 \<lparr>kind = Borrowed, buffer = p, elem = dtype_f64, extents = [n, 3]\<rparr> F1"
    using cpu_f64_2d_rep [OF ok] by blast
  note ok1 = growsD(1) [OF 1(2)]
  obtain t2 w2 F2 where 2: "rgpot_tensor_cpu_i32_1d E a n w1 = Done t2 w2" "grows w1 w2 F2"
    "tensor_rep (heap w2) t2 \<lparr>kind = Borrowed, buffer = a, elem = dtype_i32, extents = [n]\<rparr> F2"
    using cpu_i32_1d_rep [OF ok1] by blast
  note ok2 = growsD(1) [OF 2(2)]
  obtain t3 w3 F3 where 3: "rgpot_tensor_cpu_f64_matrix3 E b w2 = Done t3 w3" "grows w2 w3 F3"
    "tensor_rep (heap w3) t3 \<lparr>kind = Borrowed, buffer = b, elem = dtype_f64, extents = [3, 3]\<rparr> F3"
    using cpu_f64_2d_rep [OF ok2] unfolding cpu_f64_matrix3_eq by blast
  have disj: "F1 \<inter> F2 = {}" "F1 \<inter> F3 = {}" "F2 \<inter> F3 = {}"
    using growsD(4,6) [OF 1(2)] growsD(4,6) [OF 2(2)] growsD(4,6) [OF 3(2)] by fastforce+
  have "tensor_rep (heap w3) t1 \<lparr>kind = Borrowed, buffer = p, elem = dtype_f64, extents = [n, 3]\<rparr> F1"
    using tens.rep_grows [OF tens.rep_grows [OF 1(3) ok1 2(2)] ok2 3(2)] .
  moreover have "tensor_rep (heap w3) t2 \<lparr>kind = Borrowed, buffer = a, elem = dtype_i32, extents = [n]\<rparr> F2"
    using tens.rep_grows [OF 2(3) ok2 3(2)] .
  ultimately have "input_rep (heap w3) \<lparr>positions = t1, atomic_numbers = t2, box_matrix = t3\<rparr> n p a b
      (F1 \<union> F2 \<union> F3)"
    using 3(3) disj unfolding input_rep_def
    by (intro exI [of _ F1] exI [of _ F2] exI [of _ F3]) (simp add: input_tensors_def Int_Un_distrib)
  moreover have "grows w w3 (F1 \<union> F2 \<union> F3)"
    using grows_trans [OF grows_trans [OF 1(2) 2(2)] 3(2)] .
  ultimately show ?thesis using 1(1) 2(1) 3(1) by blast
qed

lemma force_input_create_rep:
  assumes "world_ok w"
  shows "\<exists>i w' F. rgpot_force_input_create E n p a b w = Done i w' \<and> grows w w' F \<and>
     input_rep (heap w') i n p a b F"
proof -
  obtain t1 t2 t3 w1 w2 w3 F where "rgpot_tensor_cpu_f64_2d E p n 3 w = Done t1 w1"
    "rgpot_tensor_cpu_i32_1d E a n w1 = Done t2 w2" "rgpot_tensor_cpu_f64_matrix3 E b w2 = Done t3 w3"
    and r: "grows w w3 F"
      "input_rep (heap w3) \<lparr>positions = t1, atomic_numbers = t2, box_matrix = t3\<rparr> n p a b F"
    using three_tensors [OF assms] by blast
  then have "rgpot_force_input_create E n p a b w =
      Done \<lparr>positions = t1, atomic_numbers = t2, box_matrix = t3\<rparr> w3"
    by (simp add: rgpot_force_input_create_def bnd_def ret_def extern_C_def)
  with r show ?thesis by blast
qed

text \<open>Freeing the three tensors of an input in the order of its fields.\<close>

lemma free_input_tensors:
  assumes "input_rep (heap w) i n p a b F"
  shows "bnd (rgpot_tensor_free E (positions i)) (\<lambda>_.
         bnd (rgpot_tensor_free E (atomic_numbers i)) (\<lambda>_.
         rgpot_tensor_free E (box_matrix i))) w = Done () (drop_blocks F w)"
proof -
  from assms obtain F1 F2 F3 where F: "F = F1 \<union> F2 \<union> F3"
    and co: "coexist tensor_rep (heap w) (input_tensors i n p a b F1 F2 F3)"
    by (auto simp: input_rep_def)
  from tens.free_all_coexist [OF co, of E] show ?thesis
    by (simp add: F Un_assoc input_tensors_def)
qed

lemma n_atoms_rep:
  assumes "input_rep (heap w) i n p a b F"
  shows "n_atoms i w = Done (Some n) w"
proof -
  obtain G where "tensor_rep (heap w) (positions i)
      \<lparr>kind = Borrowed, buffer = p, elem = dtype_f64, extents = [n, 3]\<rparr> G"
    using input_rep_positions(1) [OF assms] by blast
  from tensor_rep_load [OF this] show ?thesis
    by (auto simp: n_atoms_def Let_def i64_slice_def bnd_def ret_def)
qed

lemma force_input_free_rep:
  assumes rep: "input_rep (heap w) i n p a b F" and q: "heap w q = Some (Force_input i)"
    and "q \<noteq> null" "q \<notin> F"
  shows "rgpot_force_input_free E q w = Done () (set_block q (Force_input no_input) (drop_blocks F w))"
proof -
  have *: "bnd (rgpot_tensor_free E (positions i)) (\<lambda>_.
         bnd (rgpot_tensor_free E (atomic_numbers i)) (\<lambda>_.
         bnd (rgpot_tensor_free E (box_matrix i)) (\<lambda>_. k))) w = k (drop_blocks F w)" for k :: "unit comp"
  proof -
    have "bnd (bnd (rgpot_tensor_free E (positions i)) (\<lambda>_.
         bnd (rgpot_tensor_free E (atomic_numbers i)) (\<lambda>_.
         rgpot_tensor_free E (box_matrix i)))) (\<lambda>_. k) w = k (drop_blocks F w)"
      by (rule bnd_Done) (rule free_input_tensors [OF rep])
    then show ?thesis by (simp add: bnd_assoc)
  qed
  show ?thesis
    using assms(2-4)
    by (simp add: rgpot_force_input_free_def * extern_C_def bnd_def [of "load_input q"] load_input_def
        store_input_def bnd_def [where w = "drop_blocks F w"])
      (cases i, simp)
qed

lemma force_input_free_cleared:
  assumes "heap w q = Some (Force_input no_input)" and "q \<noteq> null"
  shows "rgpot_force_input_free E q w = Done () (set_block q (Force_input no_input) w)"
  using assms by (simp add: rgpot_force_input_free_def rgpot_tensor_free_def exec)

text \<open>
  C8: Lifecycle of an input.  Creating an input over the caller's arrays always succeeds,
  its atom count is the one given, and freeing it through the caller's variable
  releases everything the creation allocated: the memory is as before, with the
  variable's three pointers cleared and the arrays untouched.  Freeing it again
  changes nothing.
\<close>

theorem force_input_lifecycle:
  assumes ok: "world_ok w" and q: "heap w q = Some (Force_input i0)"
  shows "\<exists>i w1 w2. rgpot_force_input_create E n p a b w = Done i w1 \<and>
     n_atoms i w1 = Done (Some n) w1 \<and>
     rgpot_force_input_free E q (set_block q (Force_input i) w1) = Done () w2 \<and>
     heap w2 = (heap w)(q \<mapsto> Force_input no_input) \<and>
     rgpot_force_input_free E q w2 = Done () w2"
proof -
  obtain i w1 F where run: "rgpot_force_input_create E n p a b w = Done i w1" and g: "grows w w1 F"
    and rep: "input_rep (heap w1) i n p a b F"
    using force_input_create_rep [OF ok] by blast
  let ?w = "set_block q (Force_input i) w1"
  have q': "q \<noteq> null" "q \<notin> F" using world_ok_less [OF ok q] growsD(6) [OF g] by auto
  have "input_rep (heap ?w) i n p a b F" using rep by (rule input_rep_frame) (use q' in auto)
  then have free: "rgpot_force_input_free E q ?w =
      Done () (set_block q (Force_input no_input) (drop_blocks F ?w))" (is "_ = Done () ?w2")
    by (rule force_input_free_rep) (use q' in simp_all)
  have "heap ?w2 = (heap w1 |` (- F))(q \<mapsto> Force_input no_input)"
    using q' by (simp add: restrict_map_def fun_eq_iff)
  then have "heap ?w2 = (heap w)(q \<mapsto> Force_input no_input)" using growsD(5) [OF g] by simp
  moreover have "rgpot_force_input_free E q ?w2 = Done () ?w2"
    using q' force_input_free_cleared [of ?w2 q E] by (simp add: set_block_def)
  ultimately show ?thesis using run n_atoms_rep [OF rep] free by blast
qed

theorem force_input_lifecycle_witness:
  "\<exists>i w1 w2. rgpot_force_input_create plain_env 2 10 11 12 (push (Force_input no_input) boot_world)
       = Done i w1 \<and> n_atoms i w1 = Done (Some 2) w1 \<and>
     rgpot_force_input_free plain_env 1 (set_block 1 (Force_input i) w1) = Done () w2"
proof -
  have "heap (push (Force_input no_input) boot_world) 1 = Some (Force_input no_input)"
    by (simp add: boot_world_def)
  from force_input_lifecycle [OF world_ok_push [OF boot_world_ok] this, of plain_env 2 10 11 12]
  show ?thesis by blast
qed

end
