(* ===== verification/Rgpot_Potential.thy ===== *)
theory Rgpot_Potential
  imports Rgpot_Types
begin

text \<open>
  \<^verbatim>\<open>rgpot-core/src/potential.rs\<close> and \<^verbatim>\<open>c_api/potential.rs\<close>: the opaque handle around a
  callback, its dispatch and its destruction.  The callback and the destructor
  behind the handle are code outside the core: they are what the environment
  gives for the function pointers, and every statement about them is a
  hypothesis.
\<close>

section \<open>Definitions\<close>

definition PotentialImpl_new :: "fnptr \<Rightarrow> ptr \<Rightarrow> fnptr option \<Rightarrow> PotentialImpl" where
  "PotentialImpl_new cb ud ff = \<lparr>callback = cb, user_data = ud, free_fn = ff\<rparr>"

text \<open>The callback has the C ABI: a panic inside it cannot leave it.\<close>

definition PotentialImpl_calculate ::
    "'x env_scheme \<Rightarrow> PotentialImpl \<Rightarrow> ptr \<Rightarrow> ptr \<Rightarrow> rgpot_status_t comp" where
  "PotentialImpl_calculate E self input output =
     extern_C (callback_code E (callback self) (user_data self) input output)"

definition PotentialImpl_drop :: "'x env_scheme \<Rightarrow> PotentialImpl \<Rightarrow> unit comp" where
  "PotentialImpl_drop E self = (case free_fn self of
      Some free \<Rightarrow>
        if user_data self \<noteq> null then extern_C (free_fn_code E free (user_data self)) else ret ()
    | None \<Rightarrow> ret ())"

definition rgpot_potential_new :: "fnptr \<Rightarrow> ptr \<Rightarrow> fnptr option \<Rightarrow> ptr comp" where
  "rgpot_potential_new cb ud ff =
     extern_C (alloc (Potential_impl (PotentialImpl_new cb ud ff)))"

definition rgpot_potential_calculate ::
    "'x env_scheme \<Rightarrow> ptr \<Rightarrow> ptr \<Rightarrow> ptr \<Rightarrow> rgpot_status_t comp" where
  "rgpot_potential_calculate E pot input output = extern_C (catch_unwind
     (if pot = null
      then bnd (set_last_error ''rgpot_potential_calculate: pot is NULL'') (\<lambda>_.
           ret RGPOT_INVALID_PARAMETER)
      else if input = null
      then bnd (set_last_error ''rgpot_potential_calculate: input is NULL'') (\<lambda>_.
           ret RGPOT_INVALID_PARAMETER)
      else if output = null
      then bnd (set_last_error ''rgpot_potential_calculate: output is NULL'') (\<lambda>_.
           ret RGPOT_INVALID_PARAMETER)
      else bnd (load_pot pot) (\<lambda>pot_ref.
           PotentialImpl_calculate E pot_ref input output)))"

definition rgpot_potential_free :: "'x env_scheme \<Rightarrow> ptr \<Rightarrow> unit comp" where
  "rgpot_potential_free E pot = extern_C
     (if pot \<noteq> null
      then bnd (load_pot pot) (\<lambda>p. bnd (PotentialImpl_drop E p) (\<lambda>_. dealloc pot))
      else ret ())"

section \<open>Argument checks\<close>

text \<open>The first null argument, in the order the code checks them.\<close>

definition null_argument :: "(string \<times> ptr) list \<Rightarrow> string option" where
  "null_argument args = map_option fst (find (\<lambda>a. snd a = null) args)"

lemma calculate_null_outcome:
  assumes "world_ok w"
    and "null_argument [(''pot'', pot), (''input'', input), (''output'', output)] = Some arg"
  shows "rgpot_potential_calculate E pot input output w =
     Done RGPOT_INVALID_PARAMETER
       (record_error (''rgpot_potential_calculate: '' @ arg @ '' is NULL'') w)"
  using assms
  by (auto simp: rgpot_potential_calculate_def null_argument_def error_simps extern_C_def
      catch_unwind_def split: if_splits)

lemma null_message_nul_free:
  assumes "null_argument [(''pot'', pot), (''input'', input), (''output'', output)] = Some arg"
  shows "stored_message (''rgpot_potential_calculate: '' @ arg @ '' is NULL'') =
     ''rgpot_potential_calculate: '' @ arg @ '' is NULL''"
  using assms by (auto simp: stored_message_def nul_free_def null_argument_def split: if_splits)

text \<open>
  Null arguments.  If the handle, the input or the output pointer is null, the call
  returns \<^verbatim>\<open>RGPOT_INVALID_PARAMETER\<close> with a message naming the first null argument in
  that order; it does so for every environment, so no callback runs, and leaves all
  memory outside the error buffers and the other threads' messages as they were.
\<close>

theorem calculate_null_arguments:
  assumes "world_ok w"
    and "null_argument [(''pot'', pot), (''input'', input), (''output'', output)] = Some arg"
  shows "\<exists>w'. (\<forall>E :: 'x env_scheme. rgpot_potential_calculate E pot input output w =
        Done RGPOT_INVALID_PARAMETER w') \<and>
     messages w' = (messages w)(thread w := ''rgpot_potential_calculate: '' @ arg @ '' is NULL'') \<and>
     core_mem w' = core_mem w \<and> world_ok w'"
proof (intro exI conjI allI)
  let ?msg = "''rgpot_potential_calculate: '' @ arg @ '' is NULL''"
  show "rgpot_potential_calculate E pot input output w =
      Done RGPOT_INVALID_PARAMETER (record_error ?msg w)" for E :: "'x env_scheme"
    by (rule calculate_null_outcome [OF assms])
  show "messages (record_error ?msg w) = (messages w)(thread w := ?msg)"
    unfolding err.texts_after [OF assms(1)] null_message_nul_free [OF assms(2)] ..
qed (simp_all only: error_simps assms(1))

theorem calculate_null_arguments_witness:
  "\<exists>w'. rgpot_potential_calculate plain_env 5 0 0 boot_world = Done RGPOT_INVALID_PARAMETER w' \<and>
     messages w' 0 = ''rgpot_potential_calculate: input is NULL''"
  using calculate_null_arguments [OF boot_world_ok, of 5 0 0 "''input''", where 'x = unit]
  by (auto simp: null_argument_def boot_world_def)

section \<open>Dispatch\<close>

lemma calculate_dispatch:
  assumes "heap w pot = Some (Potential_impl i)" and "pot \<noteq> null" "input \<noteq> null" "output \<noteq> null"
  shows "rgpot_potential_calculate E pot input output w =
     extern_C (callback_code E (callback i) (user_data i) input output) w"
  using assms
  by (simp add: rgpot_potential_calculate_def PotentialImpl_calculate_def catch_unwind_def exec
      split: outcome.split)

text \<open>
  C14: Error propagation.  With valid arguments the handle calls its callback once, with
  its own user data, and returns whatever status the callback returns, in the
  state the callback left.  In particular the core adds no error message of its
  own: a callback that fails without storing one leaves the message of an earlier,
  unrelated failure in place.  A callback that panics aborts the process instead
  of reaching the panic barrier.
\<close>

theorem callback_status_propagates:
  assumes "heap w pot = Some (Potential_impl i)" and "pot \<noteq> null" "input \<noteq> null" "output \<noteq> null"
  shows "case callback_code E (callback i) (user_data i) input output w of
      Done s w' \<Rightarrow> rgpot_potential_calculate E pot input output w = Done s w'
    | Panicked _ _ \<Rightarrow> rgpot_potential_calculate E pot input output w = Aborted
    | Aborted \<Rightarrow> rgpot_potential_calculate E pot input output w = Aborted
    | Undefined \<Rightarrow> rgpot_potential_calculate E pot input output w = Undefined"
  using calculate_dispatch [OF assms, of E] by (simp add: extern_C_def split: outcome.split)

text \<open>The failing callback of the source's tests: an error status and no message.\<close>

definition error_callback :: "ptr \<Rightarrow> ptr \<Rightarrow> ptr \<Rightarrow> rgpot_status_t comp" where
  "error_callback ud input output = extern_C (ret RGPOT_INVALID_PARAMETER)"

definition failing_env :: env where
  "failing_env = plain_env\<lparr>callback_code := \<lambda>_. error_callback\<rparr>"

definition failing_world :: world where
  "failing_world = push (Potential_impl (PotentialImpl_new 3 0 None)) boot_world"

theorem callback_status_propagates_witness:
  "rgpot_potential_calculate failing_env 1 2 3 failing_world = Done RGPOT_INVALID_PARAMETER failing_world
     \<and> messages failing_world 0 = []"
proof -
  have "heap failing_world 1 = Some (Potential_impl (PotentialImpl_new 3 0 None))"
    by (simp add: failing_world_def boot_world_def)
  from callback_status_propagates [OF this, of 2 3 failing_env] show ?thesis
    by (simp add: failing_env_def error_callback_def exec)
      (simp add: failing_world_def boot_world_def messages_def)
qed

section \<open>Ownership of the handle\<close>

text \<open>
  A destructor that does its job on the objects of the user: it frees the object it
  is given, which must be live.  Running it twice on one object is undefined.
\<close>

definition owning_destructor :: "'x env_scheme \<Rightarrow> fnptr \<Rightarrow> bool" where
  "owning_destructor E f \<longleftrightarrow>
     (\<forall>w u x. heap w u = Some (User_block x) \<longrightarrow> free_fn_code E f u w = Done () (drop_blocks {u} w))"

definition owned_user_data :: "PotentialImpl \<Rightarrow> ptr set" where
  "owned_user_data i = (if free_fn i \<noteq> None \<and> user_data i \<noteq> null then {user_data i} else {})"

definition handle_rep :: "'x env_scheme \<Rightarrow> mem \<Rightarrow> ptr \<Rightarrow> PotentialImpl \<Rightarrow> ptr set \<Rightarrow> bool" where
  "handle_rep E h t i F \<longleftrightarrow>
     h t = Some (Potential_impl i) \<and> t \<noteq> null \<and> F = {t} \<union> owned_user_data i \<and>
     (\<forall>u \<in> owned_user_data i. (\<exists>x. h u = Some (User_block x)) \<and> owning_destructor E (the (free_fn i)))"

lemma handle_rep_free:
  assumes rep: "handle_rep E (heap w) t i F"
  shows "rgpot_potential_free E t w = Done () (drop_blocks F w)"
proof (cases "free_fn i \<noteq> None \<and> user_data i \<noteq> null")
  case True
  then obtain f where f: "free_fn i = Some f" "user_data i \<noteq> null" by auto
  with rep obtain x where u: "heap w (user_data i) = Some (User_block x)"
    and "owning_destructor E f" by (auto simp: handle_rep_def owned_user_data_def)
  then have "free_fn_code E f (user_data i) w = Done () (drop_blocks {user_data i} w)"
    by (simp add: owning_destructor_def)
  moreover have "t \<noteq> user_data i" using rep u by (auto simp: handle_rep_def)
  ultimately show ?thesis
    using rep f u
    by (simp add: rgpot_potential_free_def PotentialImpl_drop_def handle_rep_def owned_user_data_def exec
        insert_commute)
next
  case False
  then have "PotentialImpl_drop E i = ret ()" and "owned_user_data i = {}"
    by (auto simp: PotentialImpl_drop_def owned_user_data_def split: option.split)
  with rep show ?thesis by (simp add: rgpot_potential_free_def handle_rep_def exec)
qed

interpretation pot: resource "handle_rep E" "rgpot_potential_free E" for E
proof unfold_locales
  show "rgpot_potential_free E t w = Undefined" if "t \<noteq> null" "heap w t = None" for t w
    using that by (simp add: rgpot_potential_free_def exec)
  show "h p \<noteq> None \<and> \<not> is_cstr (h p)" if "handle_rep E h t v F" "p \<in> F" for h t v F p
    using that by (auto simp: handle_rep_def)
  show "handle_rep E h' t v F"
    if "handle_rep E h t v F" "\<And>p. p \<in> F \<Longrightarrow> h' p = h p" for h h' t v F
    using that by (auto simp: handle_rep_def)
qed (auto simp: handle_rep_def intro: handle_rep_free [unfolded handle_rep_def])

text \<open>
  C13: Ownership of user data.  Creating a handle allocates one block.  Freeing it runs
  the destructor on the user data exactly when there is a destructor and the user
  data is not null, and then releases the handle: afterwards memory is as before
  the creation, without the user object if the handle owned it.  A second free of
  the handle is undefined behaviour, so the destructor cannot run twice unnoticed.
\<close>

theorem potential_lifecycle:
  assumes ok: "world_ok w"
    and ud: "\<And>f. ff = Some f \<Longrightarrow> ud \<noteq> null \<Longrightarrow>
      owning_destructor E f \<and> (\<exists>x. heap w ud = Some (User_block x))"
  shows "\<exists>t w1 w2. rgpot_potential_new cb ud ff w = Done t w1 \<and>
     heap w1 t = Some (Potential_impl \<lparr>callback = cb, user_data = ud, free_fn = ff\<rparr>) \<and>
     rgpot_potential_free E t w1 = Done () w2 \<and>
     heap w2 = heap w |` (- (if ff \<noteq> None \<and> ud \<noteq> null then {ud} else {})) \<and>
     rgpot_potential_free E t w2 = Undefined"
proof -
  let ?i = "\<lparr>callback = cb, user_data = ud, free_fn = ff\<rparr>"
  let ?t = "brk w" and ?w = "push (Potential_impl ?i) w"
  have new: "rgpot_potential_new cb ud ff w = Done ?t ?w"
    by (simp add: rgpot_potential_new_def PotentialImpl_new_def exec)
  have fresh: "heap w ?t = None" by (rule world_ok_fresh [OF ok order_refl])
  have rep: "handle_rep E (heap ?w) ?t ?i ({?t} \<union> owned_user_data ?i)"
    using ud world_ok_brk [OF ok] fresh by (cases ff) (auto simp: handle_rep_def owned_user_data_def)
  have "heap (drop_blocks ({?t} \<union> owned_user_data ?i) ?w) = heap w |` (- owned_user_data ?i)"
    using fresh by (auto simp: restrict_map_def fun_eq_iff)
  moreover have "rgpot_potential_free E ?t (drop_blocks ({?t} \<union> owned_user_data ?i) ?w) = Undefined"
    using pot.double_free [OF rep] pot.free_rep [OF rep] by (simp add: bnd_def)
  ultimately show ?thesis
    using new pot.free_rep [OF rep] by (auto simp: owned_user_data_def)
qed

definition owning_env :: env where
  "owning_env = plain_env\<lparr>free_fn_code := \<lambda>_ u. dealloc u\<rparr>"

lemma owning_env_destructor: "owning_destructor owning_env f"
  by (simp add: owning_destructor_def owning_env_def dealloc_def)

theorem potential_lifecycle_witness:
  "\<exists>t w1 w2. rgpot_potential_new 3 1 (Some 4) (push (User_block 42) boot_world) = Done t w1 \<and>
     rgpot_potential_free owning_env t w1 = Done () w2 \<and> heap w2 1 = None"
proof -
  let ?w = "push (User_block 42) boot_world"
  have "\<exists>x. heap ?w 1 = Some (User_block x)" by (simp add: boot_world_def)
  then have "\<exists>t w1 w2. rgpot_potential_new 3 1 (Some 4) ?w = Done t w1 \<and>
     rgpot_potential_free owning_env t w1 = Done () w2 \<and> heap w2 = heap ?w |` (- {1})"
    using potential_lifecycle [OF world_ok_push [OF boot_world_ok], of "Some 4" 1 owning_env
        "User_block 42" 3] owning_env_destructor by auto
  then show ?thesis by auto
qed

end
