(* ===== verification/Rgpot_Callback.thy ===== *)
theory Rgpot_Callback
  imports Rgpot_Potential
begin

text \<open>
  The contract between the core and a potential: what a callback that computes an
  energy, a variance and forces from the atomic configuration does to memory.  It
  is stated as a locale, used by the handle, the RPC server and the end-to-end
  theorems, and interpreted on the callbacks of the source's own tests.
\<close>

section \<open>Configurations in memory\<close>

text \<open>
  The caller's arrays hold the configuration \<open>(xs, zs, bs)\<close>.  No Rust allocation
  exceeds \<^verbatim>\<open>isize::MAX\<close> bytes, hence the bound on the number of values.
\<close>

definition input_data ::
    "mem \<Rightarrow> usize \<Rightarrow> ptr \<Rightarrow> ptr \<Rightarrow> ptr \<Rightarrow> f64 list \<Rightarrow> i32 list \<Rightarrow> f64 list \<Rightarrow> bool" where
  "input_data h n p a b xs zs bs \<longleftrightarrow>
     h p = Some (F64s xs) \<and> length xs = 3 * unat n \<and> length xs < 2 ^ 60 \<and>
     h a = Some (I32s zs) \<and> length zs = unat n \<and>
     h b = Some (F64s bs) \<and> length bs = 9"

lemma input_data_frame:
  "input_data h n p a b xs zs bs \<Longrightarrow> h' p = h p \<Longrightarrow> h' a = h a \<Longrightarrow> h' b = h b \<Longrightarrow>
     input_data h' n p a b xs zs bs"
  by (simp add: input_data_def)

lemma input_data_grows:
  "input_data (heap w) n p a b xs zs bs \<Longrightarrow> world_ok w \<Longrightarrow> grows w w' G \<Longrightarrow>
     input_data (heap w') n p a b xs zs bs"
  by (auto simp: input_data_def grows_keeps)

lemma triple_atoms:
  assumes "input_data h n p a b xs zs bs"
  shows "mul_usize E n 3 = ret (n * 3)" and "unat (n * 3) = length xs"
proof -
  have "unat n * unat (3 :: usize) < 2 ^ 64" using assms by (simp add: input_data_def)
  from mul_usize_fits [OF this] show "mul_usize E n 3 = ret (n * 3)" .
  from unat_mult_64 [OF \<open>unat n * unat (3 :: usize) < 2 ^ 64\<close>] assms
  show "unat (n * 3) = length xs" by (simp add: input_data_def)
qed

section \<open>The contract\<close>

text \<open>
  The output struct a successful callback leaves behind.  \<open>good\<close> are the configurations the
  potential is made for.
\<close>

abbreviation out_struct :: "ptr \<Rightarrow> f64 \<Rightarrow> f64 \<Rightarrow> block" where
  "out_struct t e v \<equiv> Force_out \<lparr>forces = t, energy = e, variance = v\<rparr>"

abbreviation forces_view :: "usize \<Rightarrow> ptr \<Rightarrow> tensor_view" where
  "forces_view n d \<equiv> \<lparr>kind = Owned_f64, buffer = d, elem = dtype_f64, extents = [n, 3]\<rparr>"

locale potential_callback =
  fixes E :: "'x env_scheme" and f :: fnptr and ud :: ptr
    and good :: "f64 list \<Rightarrow> i32 list \<Rightarrow> f64 list \<Rightarrow> bool"
    and en :: "f64 list \<Rightarrow> i32 list \<Rightarrow> f64 list \<Rightarrow> f64"
    and va :: "f64 list \<Rightarrow> i32 list \<Rightarrow> f64 list \<Rightarrow> f64"
    and fo :: "f64 list \<Rightarrow> i32 list \<Rightarrow> f64 list \<Rightarrow> f64 list"
  assumes computes: "world_ok w \<Longrightarrow> heap w pin = Some (Force_input i) \<Longrightarrow>
      heap w pout = Some (Force_out r) \<Longrightarrow> input_rep (heap w) i n p a b F \<Longrightarrow>
      input_data (heap w) n p a b xs zs bs \<Longrightarrow> good xs zs bs \<Longrightarrow>
      \<exists>w' t d G. callback_code E f ud pin pout w = Done RGPOT_SUCCESS w' \<and>
        grows (set_block pout (out_struct t (en xs zs bs) (va xs zs bs)) w) w' G \<and>
        tensor_rep (heap w') t (forces_view n d) G \<and>
        heap w' d = Some (F64s (fo xs zs bs))"
    and forces_length: "good xs zs bs \<Longrightarrow> length (fo xs zs bs) = length xs"
begin

text \<open>The handle adds nothing and takes nothing away.\<close>

lemma calculate_computes:
  assumes ok: "world_ok w" and pot: "heap w h = Some (Potential_impl \<lparr>callback = f, user_data = ud, free_fn = ff\<rparr>)"
    and pin: "heap w pin = Some (Force_input i)" and pout: "heap w pout = Some (Force_out r)"
    and rep: "input_rep (heap w) i n p a b F" and dat: "input_data (heap w) n p a b xs zs bs"
    and good: "good xs zs bs"
  shows "\<exists>w' t d G. rgpot_potential_calculate E h pin pout w = Done RGPOT_SUCCESS w' \<and>
     grows (set_block pout (out_struct t (en xs zs bs) (va xs zs bs)) w) w' G \<and>
     tensor_rep (heap w') t (forces_view n d) G \<and> heap w' d = Some (F64s (fo xs zs bs))"
proof -
  have nn: "h \<noteq> null" "pin \<noteq> null" "pout \<noteq> null"
    using world_ok_less [OF ok pot] world_ok_less [OF ok pin] world_ok_less [OF ok pout] by simp_all
  have "rgpot_potential_calculate E h pin pout w = extern_C (callback_code E f ud pin pout) w"
    using calculate_dispatch [OF pot nn, of E] by simp
  with computes [OF ok pin pout rep dat good] show ?thesis by (metis extern_C_Done)
qed

end

section \<open>The callbacks of the test suite\<close>

text \<open>
  \<^verbatim>\<open>n as f64\<close>: the bit pattern of the nearest double, ties to even.
\<close>

fun floor_log :: "nat \<Rightarrow> nat" where
  "floor_log n = (if n < 2 then 0 else Suc (floor_log (n div 2)))"

declare floor_log.simps [simp del]

definition round_half_even :: "nat \<Rightarrow> nat \<Rightarrow> nat" where
  "round_half_even n s =
     (let q = n div 2 ^ s; r = n mod 2 ^ s; half = 2 ^ s div 2
      in if s = 0 \<or> r < half \<or> (r = half \<and> even q) then q else q + 1)"

definition usize_as_f64 :: "usize \<Rightarrow> f64" where
  "usize_as_f64 x =
     (let n = unat x; e = floor_log n;
          m = (if e \<le> 52 then n * 2 ^ (52 - e) else round_half_even n (e - 52))
      in if n = 0 then 0 else word_of_nat ((1023 + e) * 2 ^ 52 + m - 2 ^ 52))"

text \<open>An assignment to fields of \<^verbatim>\<open>*output\<close>.\<close>

definition update_out :: "ptr \<Rightarrow> (rgpot_force_out_t \<Rightarrow> rgpot_force_out_t) \<Rightarrow> unit comp" where
  "update_out p g = bnd (load_out p) (\<lambda>r. store_out p (g r))"

definition sum_callback :: "'x env_scheme \<Rightarrow> ptr \<Rightarrow> ptr \<Rightarrow> ptr \<Rightarrow> rgpot_status_t comp" where
  "sum_callback E ud input output = extern_C
     (bnd (load_input input) (\<lambda>inp.
      bnd (n_atoms inp) (\<lambda>on.
      let n = (case on of Some n \<Rightarrow> n | None \<Rightarrow> 0) in
      bnd (update_out output (\<lambda>out. out\<lparr>energy := usize_as_f64 n\<rparr>)) (\<lambda>_.
      bnd (update_out output (\<lambda>out. out\<lparr>variance := 0\<rparr>)) (\<lambda>_.
      bnd (mul_usize E n 3) (\<lambda>n3.
      bnd (create_owned_f64_tensor E (replicate (unat n3) 0) [n, 3]) (\<lambda>t.
      bnd (update_out output (\<lambda>out. out\<lparr>forces := t\<rparr>)) (\<lambda>_.
      ret RGPOT_SUCCESS))))))))"

definition writing_callback :: "'x env_scheme \<Rightarrow> ptr \<Rightarrow> ptr \<Rightarrow> ptr \<Rightarrow> rgpot_status_t comp" where
  "writing_callback E ud input output = extern_C
     (bnd (load_input input) (\<lambda>inp.
      bnd (n_atoms inp) (\<lambda>on.
      let n = (case on of Some n \<Rightarrow> n | None \<Rightarrow> 0) in
      bnd (mul_usize E n 3) (\<lambda>n3.
      bnd (create_owned_f64_tensor E
             (map (\<lambda>i. usize_as_f64 (word_of_nat i)) [1..<Suc (unat n3)]) [n, 3]) (\<lambda>t.
      bnd (update_out output (\<lambda>out. out\<lparr>forces := t\<rparr>)) (\<lambda>_.
      bnd (update_out output (\<lambda>out. out\<lparr>energy := 0xC045000000000000\<rparr>)) (\<lambda>_.
      bnd (update_out output (\<lambda>out. out\<lparr>variance := 0x3FE0000000000000\<rparr>)) (\<lambda>_.
      ret RGPOT_SUCCESS))))))))"

definition failing_callback :: "ptr \<Rightarrow> ptr \<Rightarrow> ptr \<Rightarrow> rgpot_status_t comp" where
  "failing_callback ud input output = extern_C
     (bnd (set_last_error ''deliberately failed'') (\<lambda>_. ret RGPOT_INTERNAL_ERROR))"

text \<open>The counter is an atomic 32-bit integer behind \<^verbatim>\<open>user_data\<close>; it wraps.\<close>

definition load_counter :: "ptr \<Rightarrow> u32 comp" where
  "load_counter p w = (case heap w p of Some (User_block c) \<Rightarrow> Done c w | _ \<Rightarrow> Undefined)"

definition fetch_add :: "ptr \<Rightarrow> u32 \<Rightarrow> u32 comp" where
  "fetch_add p k = bnd (load_counter p) (\<lambda>c w. Done c (set_block p (User_block (c + k)) w))"

definition counting_callback :: "ptr \<Rightarrow> ptr \<Rightarrow> ptr \<Rightarrow> rgpot_status_t comp" where
  "counting_callback ud input output = extern_C
     (bnd (fetch_add ud 1) (\<lambda>_.
      bnd (load_counter ud) (\<lambda>c.
      bnd (update_out output (\<lambda>out. out\<lparr>energy := usize_as_f64 (ucast c)\<rparr>)) (\<lambda>_.
      ret RGPOT_SUCCESS))))"

text \<open>An environment in which these are the code behind the function pointers 1 to 4.\<close>

definition test_code :: "fnptr \<Rightarrow> ptr \<Rightarrow> ptr \<Rightarrow> ptr \<Rightarrow> rgpot_status_t comp" where
  "test_code f =
     (if f = 1 then sum_callback plain_env
      else if f = 2 then writing_callback plain_env
      else if f = 3 then failing_callback
      else if f = 4 then counting_callback
      else error_callback)"

definition test_env :: env where
  "test_env = plain_env\<lparr>callback_code := test_code\<rparr>"

section \<open>They meet the contract\<close>

lemma set_block_set_block [simp]: "set_block p b (set_block p c w) = set_block p b w"
  by (simp add: set_block_def)

lemma grows_set_block:
  assumes g: "grows w w' F" and ok: "world_ok w" and p: "heap w p = Some b'" "\<not> is_cstr (Some b')"
  shows "grows (set_block p b w) (set_block p b w') F"
proof -
  have p': "p \<notin> F" using world_ok_less [OF ok p(1)] growsD(6) [OF g] by auto
  then have "heap (set_block p b w') |` (- F) = (heap w' |` (- F))(p \<mapsto> b)"
    by (auto simp: restrict_map_def fun_eq_iff)
  moreover have "world_ok (set_block p b w')"
    using growsD(1) [OF g] grows_keeps [OF g ok p(1)] p(2) by (rule world_ok_set_block)
  ultimately show ?thesis using g by (simp add: grows_def)
qed

lemma update_out_Done:
  "heap w p = Some (Force_out r) \<Longrightarrow> update_out p g w = Done () (set_block p (Force_out (g r)) w)"
  by (simp add: update_out_def exec)

lemma set_block_same [simp]: "heap w p = Some b \<Longrightarrow> set_block p b w = w"
  by (simp add: set_block_def fun_upd_idem)

text \<open>Finishing the output struct after the forces tensor has been made.\<close>

lemma output_written:
  assumes ok: "world_ok w" and pout: "heap w pout = Some (Force_out r)"
    and g: "grows (set_block pout (Force_out r2) w) w3 G"
    and rep: "tensor_rep (heap w3) t v G" and d: "heap w3 d = Some (F64s fs)"
  shows "grows (set_block pout (Force_out R) w) (set_block pout (Force_out R) w3) G"
    and "tensor_rep (heap (set_block pout (Force_out R) w3)) t v G"
    and "heap (set_block pout (Force_out R) w3) d = Some (F64s fs)"
    and "heap w3 pout = Some (Force_out r2)"
proof -
  let ?w2 = "set_block pout (Force_out r2) w"
  have ok2: "world_ok ?w2" using ok pout by (rule world_ok_set_block) simp
  have out2: "heap ?w2 pout = Some (Force_out r2)" by simp
  from grows_set_block [OF g ok2 out2, of "Force_out R"]
  show "grows (set_block pout (Force_out R) w) (set_block pout (Force_out R) w3) G" by simp
  show out3: "heap w3 pout = Some (Force_out r2)" by (rule grows_keeps [OF g ok2 out2])
  have "pout \<notin> G" using world_ok_less [OF ok pout] growsD(6) [OF g] by auto
  with rep show "tensor_rep (heap (set_block pout (Force_out R) w3)) t v G"
    by (auto intro: tens.rep_frame)
  from d out3 show "heap (set_block pout (Force_out R) w3) d = Some (F64s fs)" by auto
qed

definition sum_energy :: "f64 list \<Rightarrow> i32 list \<Rightarrow> f64 list \<Rightarrow> f64" where
  "sum_energy xs zs bs = usize_as_f64 (word_of_nat (length zs))"

definition zero_forces :: "f64 list \<Rightarrow> i32 list \<Rightarrow> f64 list \<Rightarrow> f64 list" where
  "zero_forces xs zs bs = replicate (length xs) 0"

definition ramp_forces :: "f64 list \<Rightarrow> i32 list \<Rightarrow> f64 list \<Rightarrow> f64 list" where
  "ramp_forces xs zs bs = map (\<lambda>i. usize_as_f64 (word_of_nat i)) [1..<Suc (length xs)]"

lemma input_data_count: "input_data h n p a b xs zs bs \<Longrightarrow> word_of_nat (length zs) = n"
  by (simp add: input_data_def)

interpretation sum_pot: potential_callback test_env 1 ud "\<lambda>_ _ _. True" sum_energy "\<lambda>_ _ _. 0" zero_forces for ud
proof unfold_locales
  fix w pin i pout r n p a b F xs zs bs
  assume ok: "world_ok w" and pin: "heap w pin = Some (Force_input i)"
    and pout: "heap w pout = Some (Force_out r)" and rep: "input_rep (heap w) i n p a b F"
    and dat: "input_data (heap w) n p a b xs zs bs"
  let ?r2 = "r\<lparr>energy := usize_as_f64 n, variance := 0\<rparr>"
  let ?w2 = "set_block pout (Force_out ?r2) w"
  have ok2: "world_ok ?w2" using ok pout by (rule world_ok_set_block) simp
  obtain t w3 G d where new: "create_owned_f64_tensor plain_env (zero_forces xs zs bs) [n, 3] ?w2 = Done t w3"
    and g: "grows ?w2 w3 G" and t: "tensor_rep (heap w3) t (forces_view n d) G"
    and d: "heap w3 d = Some (F64s (zero_forces xs zs bs))"
    using create_owned_f64_rep [OF ok2 strides_2d [of plain_env n 3]] by blast
  note out = output_written [OF ok pout g t d]
  let ?R = "\<lparr>forces = t, energy = usize_as_f64 n, variance = 0\<rparr>"
  have R: "?r2\<lparr>forces := t\<rparr> = ?R" by (cases r) simp
  have "callback_code test_env 1 ud pin pout w = Done RGPOT_SUCCESS (set_block pout (Force_out ?R) w3)"
    using pin pout n_atoms_rep [OF rep] new out(4) triple_atoms(1) [OF dat, of plain_env] triple_atoms(2) [OF dat]
    by (simp add: test_env_def test_code_def sum_callback_def bnd_def ret_def extern_C_def load_input_def
        update_out_Done zero_forces_def R)
  with out show "\<exists>w' t d G. callback_code test_env 1 ud pin pout w = Done RGPOT_SUCCESS w' \<and>
      grows (set_block pout (out_struct t (sum_energy xs zs bs) 0) w) w' G \<and>
      tensor_rep (heap w') t (forces_view n d) G \<and> heap w' d = Some (F64s (zero_forces xs zs bs))"
    using input_data_count [OF dat] unfolding sum_energy_def by blast
qed (simp add: zero_forces_def)

interpretation writing_pot: potential_callback test_env 2 ud "\<lambda>_ _ _. True"
    "\<lambda>_ _ _. 0xC045000000000000" "\<lambda>_ _ _. 0x3FE0000000000000" ramp_forces for ud
proof unfold_locales
  fix w pin i pout r n p a b F xs zs bs
  assume ok: "world_ok w" and pin: "heap w pin = Some (Force_input i)"
    and pout: "heap w pout = Some (Force_out r)" and rep: "input_rep (heap w) i n p a b F"
    and dat: "input_data (heap w) n p a b xs zs bs"
  obtain t w3 G d where new: "create_owned_f64_tensor plain_env (ramp_forces xs zs bs) [n, 3] w = Done t w3"
    and g: "grows w w3 G" and t: "tensor_rep (heap w3) t (forces_view n d) G"
    and d: "heap w3 d = Some (F64s (ramp_forces xs zs bs))"
    using create_owned_f64_rep [OF ok strides_2d [of plain_env n 3]] by blast
  have "grows (set_block pout (Force_out r) w) w3 G" using g pout by simp
  note out = output_written [OF ok pout this t d]
  let ?R = "\<lparr>forces = t, energy = 0xC045000000000000, variance = 0x3FE0000000000000\<rparr>"
  have R: "r\<lparr>forces := t, energy := 0xC045000000000000, variance := 0x3FE0000000000000\<rparr> = ?R"
    by (cases r) simp
  have "callback_code test_env 2 ud pin pout w = Done RGPOT_SUCCESS (set_block pout (Force_out ?R) w3)"
    using pin pout n_atoms_rep [OF rep] new out(4) triple_atoms(1) [OF dat, of plain_env] triple_atoms(2) [OF dat]
    by (simp add: test_env_def test_code_def writing_callback_def bnd_def ret_def extern_C_def load_input_def
        update_out_Done ramp_forces_def R del: upt_Suc)
  with out show "\<exists>w' t d G. callback_code test_env 2 ud pin pout w = Done RGPOT_SUCCESS w' \<and>
      grows (set_block pout (out_struct t 0xC045000000000000 0x3FE0000000000000) w) w' G \<and>
      tensor_rep (heap w') t (forces_view n d) G \<and> heap w' d = Some (F64s (ramp_forces xs zs bs))"
    by blast
qed (simp add: ramp_forces_def del: upt_Suc)

section \<open>Runs through the handle\<close>

text \<open>A caller's world: positions, atomic numbers and box of a two-atom configuration.\<close>

definition sample_positions :: "f64 list" where
  "sample_positions = [1, 2, 3, 4, 5, 6]"

definition sample_box :: "f64 list" where
  "sample_box = replicate 9 0"

definition sample_world :: world where
  "sample_world = push (F64s sample_box) (push (I32s [29, 1]) (push (F64s sample_positions) boot_world))"

text \<open>Its state once the caller has built the input and stored it beside an output struct and \<open>b\<close>.\<close>

definition with_args :: "rgpot_force_input_t \<Rightarrow> block \<Rightarrow> world \<Rightarrow> world" where
  "with_args i b w = push b (push (out_struct null 0 0) (push (Force_input i) w))"

lemma sample_ready:
  "\<exists>i w F. rgpot_force_input_create E 2 1 2 3 sample_world = Done i w \<and>
     world_ok (with_args i b w) \<and>
     heap (with_args i b w) (brk w) = Some (Force_input i) \<and>
     heap (with_args i b w) (brk w + 1) = Some (out_struct null 0 0) \<and>
     heap (with_args i b w) (brk w + 2) = Some b \<and>
     input_rep (heap (with_args i b w)) i 2 1 2 3 F \<and>
     input_data (heap (with_args i b w)) 2 1 2 3 sample_positions [29, 1] sample_box \<and>
     thread (with_args i b w) = 0"
proof -
  have ok: "world_ok sample_world" unfolding sample_world_def by (intro world_ok_push boot_world_ok)
  then obtain i w F where run: "rgpot_force_input_create E 2 1 2 3 sample_world = Done i w"
    and g: "grows sample_world w F" and rep: "input_rep (heap w) i 2 1 2 3 F"
    using force_input_create_rep by blast
  let ?w = "with_args i b w"
  have ok1: "world_ok w" by (rule growsD(1) [OF g])
  have g2: "grows w ?w {brk w..<brk w + 3}"
    using grows_pushes [OF ok1, of "[Force_input i, out_struct null 0 0, b]"]
    by (simp add: with_args_def eval_nat_numeral)
  have "input_data (heap sample_world) 2 1 2 3 sample_positions [29, 1] sample_box"
    by (simp add: sample_world_def boot_world_def input_data_def sample_positions_def sample_box_def)
  then have "input_data (heap ?w) 2 1 2 3 sample_positions [29, 1] sample_box"
    by (intro input_data_grows [OF _ ok1 g2] input_data_grows [OF _ ok g])
  moreover have "thread ?w = 0"
    using growsD(3) [OF g2] growsD(3) [OF g] by (simp add: sample_world_def boot_world_def)
  ultimately show ?thesis
    using run input_rep_grows [OF rep ok1 g2] growsD(1) [OF g2]
    by (auto simp: with_args_def)
qed

text \<open>\<open>k\<close> calls in a row, with the statuses they return.\<close>

fun repeat_calculate :: "'x env_scheme \<Rightarrow> ptr \<Rightarrow> ptr \<Rightarrow> ptr \<Rightarrow> nat \<Rightarrow> rgpot_status_t list comp" where
  "repeat_calculate E pot pin pout 0 = ret []"
| "repeat_calculate E pot pin pout (Suc k) =
     bnd (rgpot_potential_calculate E pot pin pout) (\<lambda>s.
     bnd (repeat_calculate E pot pin pout k) (\<lambda>ss. ret (s # ss)))"

definition counted :: "ptr \<Rightarrow> ptr \<Rightarrow> rgpot_force_out_t \<Rightarrow> u32 \<Rightarrow> world \<Rightarrow> world" where
  "counted u pout r c w =
     set_block pout (Force_out (r\<lparr>energy := usize_as_f64 (ucast c)\<rparr>)) (set_block u (User_block c) w)"

lemma counted_counted:
  "u \<noteq> pout \<Longrightarrow> counted u pout (r\<lparr>energy := e\<rparr>) c' (counted u pout r c w) = counted u pout r c' w"
  by (simp add: counted_def set_block_def fun_upd_twist)

lemma counting_calculate:
  assumes "heap w pot = Some (Potential_impl \<lparr>callback = 4, user_data = u, free_fn = ff\<rparr>)"
    and "heap w u = Some (User_block c)" and "heap w pout = Some (Force_out r)"
    and "pot \<noteq> null" "pin \<noteq> null" "pout \<noteq> null"
  shows "rgpot_potential_calculate test_env pot pin pout w =
     Done RGPOT_SUCCESS (counted u pout r (c + 1) w)"
proof -
  have ne: "u \<noteq> pout" using assms(2,3) by auto
  show ?thesis
    using assms ne
    by (simp add: calculate_dispatch test_env_def test_code_def counting_callback_def fetch_add_def
        load_counter_def update_out_def exec counted_def)
qed

text \<open>
  User data is passed through.  With the counting callback, \<open>k + 1\<close> calls through one
  handle all succeed, add \<open>k + 1\<close> to the 32-bit counter behind \<^verbatim>\<open>user_data\<close> (modulo
  \<open>2 ^ 32\<close>), and leave the last count as the energy of the output; nothing else
  changes.
\<close>

theorem calls_count:
  assumes "heap w pot = Some (Potential_impl \<lparr>callback = 4, user_data = u, free_fn = ff\<rparr>)"
    and "heap w u = Some (User_block c)" and "heap w pout = Some (Force_out r)"
    and "pot \<noteq> null" "pin \<noteq> null" "pout \<noteq> null"
  shows "repeat_calculate test_env pot pin pout (Suc k) w =
     Done (replicate (Suc k) RGPOT_SUCCESS)
       (set_block pout (Force_out (r\<lparr>energy := usize_as_f64 (ucast (c + 1 + word_of_nat k))\<rparr>))
         (set_block u (User_block (c + 1 + word_of_nat k)) w))"
  using assms
proof (induction k arbitrary: w c r)
  case 0
  from counting_calculate [OF 0] show ?case by (simp add: exec counted_def)
next
  case (Suc k)
  let ?w = "counted u pout r (c + 1) w"
  let ?r = "r\<lparr>energy := usize_as_f64 (ucast (c + 1))\<rparr>"
  from Suc.prems have ne: "u \<noteq> pout" "pot \<noteq> pout" "pot \<noteq> u" by auto
  have "repeat_calculate test_env pot pin pout (Suc k) ?w =
      Done (replicate (Suc k) RGPOT_SUCCESS) (counted u pout ?r (c + 1 + 1 + word_of_nat k) ?w)"
    unfolding counted_def [of _ _ ?r]
    by (rule Suc.IH) (use Suc.prems ne in \<open>simp_all add: counted_def\<close>)
  with counting_calculate [OF Suc.prems] ne show ?case
    by (simp add: repeat_calculate.simps(2) [of _ _ _ _ "Suc k"] bnd_Done ret_def counted_counted
        counted_def [symmetric] add_ac del: repeat_calculate.simps)
qed

definition counter_world :: world where
  "counter_world = push (out_struct null 0 0)
     (push (Potential_impl \<lparr>callback = 4, user_data = 1, free_fn = None\<rparr>)
       (push (User_block 0xFFFFFFFE) boot_world))"

theorem calls_count_witness:
  "\<exists>w. repeat_calculate test_env 2 7 3 3 counter_world = Done [RGPOT_SUCCESS, RGPOT_SUCCESS, RGPOT_SUCCESS] w \<and>
     heap w 1 = Some (User_block 1)"
proof -
  have h: "heap counter_world 2 = Some (Potential_impl \<lparr>callback = 4, user_data = 1, free_fn = None\<rparr>)"
    "heap counter_world 1 = Some (User_block 0xFFFFFFFE)"
    "heap counter_world 3 = Some (out_struct null 0 0)"
    by (simp_all add: counter_world_def boot_world_def)
  have "replicate 3 RGPOT_SUCCESS = [RGPOT_SUCCESS, RGPOT_SUCCESS, RGPOT_SUCCESS]"
    by (simp add: eval_nat_numeral)
  with calls_count [OF h, where pin = 7 and k = 2] show ?thesis
    by (simp add: numeral_2_eq_2 [symmetric] numeral_3_eq_3 [symmetric] del: repeat_calculate.simps)
qed

end
