(* ===== verification/Rgpot_Wire.thy ===== *)
theory Rgpot_Wire
  imports Rgpot_Callback
begin

text \<open>
  What the RPC client and server share: the messages of
  \<^verbatim>\<open>rgpot-core/schema/Potentials.capnp\<close> as the generated readers and builders present
  them, the loops that fill and read a Cap'n Proto list, and the operations of
  tokio and Cap'n Proto, which are not part of the repository, as a record of
  parameters.
\<close>

section \<open>Messages\<close>

datatype capnp_error = Failed string | Other_error string

text \<open>
  Every accessor of a pointer field can fail on a malformed message.  A list
  that has been read is its elements.
\<close>

record fip_reader =
  fr_pos :: "capnp_error + f64 list"
  fr_atmnrs :: "capnp_error + i32 list"
  fr_box :: "capnp_error + f64 list"

record result_reader =
  rr_energy :: f64
  rr_forces :: "capnp_error + f64 list"

record fip_builder =
  fb_pos :: "f64 list"
  fb_atmnrs :: "i32 list"
  fb_box :: "f64 list"

record result_builder =
  rb_energy :: f64
  rb_forces :: "f64 list"

text \<open>
  The parameters of a call (\<^verbatim>\<open>params.get()\<close>, then \<^verbatim>\<open>get_fip()\<close>) and its response
  (\<^verbatim>\<open>response.get()\<close>, then \<^verbatim>\<open>get_result()\<close>).
\<close>

type_synonym calculate_params = "capnp_error + capnp_error + fip_reader"
type_synonym calculate_response = "capnp_error + capnp_error + result_reader"

section \<open>The libraries\<close>

text \<open>
  Runtimes, connections, listeners and capabilities are opaque numbers, I/O errors
  their texts.  \<open>send_request\<close> is \<^verbatim>\<open>request.send().promise.await\<close>.  The list
  builders are the \<^verbatim>\<open>init_*\<close> and \<^verbatim>\<open>set\<close> methods of the generated code; the state of
  a builder is the list it holds.
\<close>

record rpc_lib =
  runtime_new :: "(string + nat) comp"
  runtime_drop :: "nat \<Rightarrow> unit comp"
  tcp_connect :: "string \<Rightarrow> (string + nat) comp"
  tcp_bind :: "string \<Rightarrow> (string + nat) comp"
  set_nodelay :: "nat \<Rightarrow> bool \<Rightarrow> (string + unit) comp"
  rpc_bootstrap :: "nat \<Rightarrow> nat comp"
  send_request :: "nat \<Rightarrow> fip_builder \<Rightarrow> (capnp_error + calculate_response) comp"
  show_capnp :: "capnp_error \<Rightarrow> string"
  init_f64_list :: "u32 \<Rightarrow> f64 list comp"
  set_f64_list :: "f64 list \<Rightarrow> u32 \<Rightarrow> f64 \<Rightarrow> f64 list comp"
  init_i32_list :: "u32 \<Rightarrow> i32 list comp"
  set_i32_list :: "i32 list \<Rightarrow> u32 \<Rightarrow> i32 \<Rightarrow> i32 list comp"

section \<open>List loops\<close>

text \<open>
  \<^verbatim>\<open>for (i, &val) in xs.iter().enumerate() { builder.set(i as u32, val); }\<close>, from
  index \<open>i\<close> on.
\<close>

fun set_loop :: "('l \<Rightarrow> u32 \<Rightarrow> 'v \<Rightarrow> 'l comp) \<Rightarrow> 'l \<Rightarrow> nat \<Rightarrow> 'v list \<Rightarrow> 'l comp" where
  "set_loop set_op b i [] = ret b"
| "set_loop set_op b i (v # vs) = bnd (set_op b (word_of_nat i) v) (\<lambda>b'. set_loop set_op b' (Suc i) vs)"

text \<open>A list reader's \<^verbatim>\<open>len()\<close>, and \<^verbatim>\<open>(0..r.len()).map(|i| r.get(i)).collect()\<close>.\<close>

definition list_len :: "'v list \<Rightarrow> u32" where
  "list_len xs = word_of_nat (length xs)"

definition collect_list :: "'v list \<Rightarrow> 'v list" where
  "collect_list xs = map (\<lambda>i. xs ! i) [0..<unat (list_len xs)]"

text \<open>
  What Cap'n Proto documents of lists of numbers: fewer than \<open>2 ^ 29\<close> elements, zero
  when created, and \<^verbatim>\<open>set\<close> replaces the element at an index in range.
\<close>

definition max_list :: nat where
  "max_list = 2 ^ 29"

definition list_builder_ok ::
    "(u32 \<Rightarrow> ('v :: zero) list comp) \<Rightarrow> ('v list \<Rightarrow> u32 \<Rightarrow> 'v \<Rightarrow> 'v list comp) \<Rightarrow> bool" where
  "list_builder_ok init_op set_op \<longleftrightarrow>
     (\<forall>n. unat n < max_list \<longrightarrow> init_op n = ret (replicate (unat n) 0)) \<and>
     (\<forall>xs i v. unat i < length xs \<longrightarrow> set_op xs i v = ret (xs[unat i := v]))"

definition builders_ok :: "rpc_lib \<Rightarrow> bool" where
  "builders_ok R \<longleftrightarrow>
     list_builder_ok (init_f64_list R) (set_f64_list R) \<and>
     list_builder_ok (init_i32_list R) (set_i32_list R)"

lemma collect_list_id: "length xs < max_list \<Longrightarrow> collect_list xs = xs"
  by (simp add: collect_list_def list_len_def max_list_def map_nth)

lemma set_loop_fills:
  assumes ok: "list_builder_ok init_op set_op"
    and "length pre + length vs < max_list" and "length b = length vs"
  shows "set_loop set_op (pre @ b) (length pre) vs = ret (pre @ vs)"
  using assms(2-)
proof (induction vs arbitrary: pre b)
  case Nil
  then show ?case by simp
next
  case (Cons v vs)
  then obtain c b' where b: "b = c # b'" by (cases b) auto
  have i: "unat (word_of_nat (length pre) :: u32) = length pre"
    using Cons.prems(1) by (simp add: max_list_def)
  have "set_op (pre @ b) (word_of_nat (length pre)) v = ret ((pre @ b)[length pre := v])"
    using ok i by (simp add: list_builder_ok_def b)
  moreover have "(pre @ b)[length pre := v] = (pre @ [v]) @ b'" by (simp add: b)
  ultimately show ?case
    using Cons.IH [of "pre @ [v]" b'] Cons.prems by (simp add: b)
qed

text \<open>Creating a list of the right length and running the loop gives exactly the values.\<close>

lemma build_list:
  assumes ok: "list_builder_ok init_op set_op" and len: "length vs < max_list"
  shows "bnd (init_op (word_of_nat (length vs))) (\<lambda>b. set_loop set_op b 0 vs) = ret vs"
proof -
  have "unat (word_of_nat (length vs) :: u32) = length vs" using len by (simp add: max_list_def)
  with ok len have "init_op (word_of_nat (length vs)) = ret (replicate (length vs) 0)"
    by (simp add: list_builder_ok_def)
  with set_loop_fills [OF ok, of "[]" vs "replicate (length vs) 0"] len show ?thesis by simp
qed

text \<open>Builders with the documented behaviour, panicking outside of it.\<close>

definition init_list :: "u32 \<Rightarrow> ('v :: zero) list comp" where
  "init_list n = (if unat n < max_list then ret (replicate (unat n) 0)
     else panic (Str_payload ''list too large''))"

definition set_list :: "('v :: zero) list \<Rightarrow> u32 \<Rightarrow> 'v \<Rightarrow> 'v list comp" where
  "set_list xs i v = (if unat i < length xs then ret (xs[unat i := v])
     else panic (Str_payload ''assertion failed: index < self.len()''))"

lemma init_set_list_ok: "list_builder_ok init_list set_list"
  by (simp add: list_builder_ok_def init_list_def set_list_def)

section \<open>Quiet networks\<close>

text \<open>
  The operations of the libraries do not touch the memory of the process.  A
  network that behaves so is described by the answers it gives.
\<close>

record net_answers =
  net_connect :: "string \<Rightarrow> string + nat"
  net_nodelay :: "nat \<Rightarrow> string + unit"
  net_bootstrap :: "nat \<Rightarrow> nat"
  net_call :: "nat \<Rightarrow> fip_builder \<Rightarrow> capnp_error + calculate_response"

definition quiet_network :: "rpc_lib \<Rightarrow> net_answers \<Rightarrow> bool" where
  "quiet_network R N \<longleftrightarrow>
     (\<forall>a. tcp_connect R a = ret (net_connect N a)) \<and>
     (\<forall>c b. set_nodelay R c b = ret (net_nodelay N c)) \<and>
     (\<forall>c. rpc_bootstrap R c = ret (net_bootstrap N c)) \<and>
     (\<forall>p q. send_request R p q = ret (net_call N p q)) \<and>
     builders_ok R"

lemma quiet_networkD:
  assumes "quiet_network R N"
  shows "tcp_connect R a = ret (net_connect N a)" "set_nodelay R c b = ret (net_nodelay N c)"
    "rpc_bootstrap R c = ret (net_bootstrap N c)" "send_request R p q = ret (net_call N p q)"
    "list_builder_ok (init_f64_list R) (set_f64_list R)"
    "list_builder_ok (init_i32_list R) (set_i32_list R)"
  using assms by (simp_all add: quiet_network_def builders_ok_def)

text \<open>A library over such answers, for concrete runs.\<close>

definition lib_of :: "net_answers \<Rightarrow> rpc_lib" where
  "lib_of N = \<lparr>
     runtime_new = ret (Inr 0), runtime_drop = (\<lambda>_. ret ()),
     tcp_connect = (\<lambda>a. ret (net_connect N a)), tcp_bind = (\<lambda>_. ret (Inr 0)),
     set_nodelay = (\<lambda>c _. ret (net_nodelay N c)), rpc_bootstrap = (\<lambda>c. ret (net_bootstrap N c)),
     send_request = (\<lambda>p q. ret (net_call N p q)),
     show_capnp = (\<lambda>e. case e of Failed s \<Rightarrow> ''Failed: '' @ s | Other_error s \<Rightarrow> s),
     init_f64_list = init_list, set_f64_list = set_list,
     init_i32_list = init_list, set_i32_list = set_list\<rparr>"

lemma quiet_lib_of: "quiet_network (lib_of N) N"
  by (simp add: quiet_network_def lib_of_def builders_ok_def init_set_list_ok)

text \<open>A network without a server.\<close>

definition silent_net :: net_answers where
  "silent_net = \<lparr>net_connect = (\<lambda>_. Inl ''refused''), net_nodelay = (\<lambda>_. Inr ()),
     net_bootstrap = (\<lambda>_. 0), net_call = (\<lambda>_ _. Inl (Failed ''disconnected''))\<rparr>"

end
