(* ===== verification/Rgpot_Client.thy ===== *)
theory Rgpot_Client
  imports Rgpot_Wire
begin

text \<open>
  \<^verbatim>\<open>rgpot-core/src/rpc/client.rs\<close> and \<^verbatim>\<open>c_api/rpc.rs\<close>: the RPC client and its C
  interface.
\<close>

section \<open>Definitions\<close>

text \<open>\<^verbatim>\<open>m.map_err(f)?\<close>\<close>

definition try_op :: "('e + 'a) comp \<Rightarrow> ('e \<Rightarrow> string) \<Rightarrow> ('a \<Rightarrow> (string + 'b) comp) \<Rightarrow> (string + 'b) comp" where
  "try_op m f k = bnd m (\<lambda>r. case r of Inl e \<Rightarrow> ret (Inl (f e)) | Inr x \<Rightarrow> k x)"

definition RpcClient_new :: "rpc_lib \<Rightarrow> string \<Rightarrow> u16 \<Rightarrow> (string + RpcClient) comp" where
  "RpcClient_new R host port =
     try_op (runtime_new R) (\<lambda>e. ''failed to create tokio runtime: '' @ e) (\<lambda>rt.
     ret (Inr \<lparr>runtime = rt, addr = show_addr host port\<rparr>))"

definition extract_cpu_input ::
    "'x env_scheme \<Rightarrow> rgpot_force_input_t \<Rightarrow> usize \<Rightarrow> (string + f64 list \<times> i32 list \<times> f64 list) comp" where
  "extract_cpu_input E input n =
     (if positions input = null then ret (Inl ''positions tensor is NULL'')
      else bnd (load_managed (positions input)) (\<lambda>pm. let pos_t = dl_tensor pm in
      if device_type (t_device pos_t) \<noteq> kDLCPU
      then ret (Inl ''RPC requires CPU tensors; positions is not on CPU'')
      else bnd (mul_usize E n 3) (\<lambda>n3.
      bnd (f64_slice (t_data pos_t) (unat n3)) (\<lambda>poss.
      if atomic_numbers input = null then ret (Inl ''atomic_numbers tensor is NULL'')
      else bnd (load_managed (atomic_numbers input)) (\<lambda>am. let atm_t = dl_tensor am in
      if device_type (t_device atm_t) \<noteq> kDLCPU
      then ret (Inl ''RPC requires CPU tensors; atomic_numbers is not on CPU'')
      else bnd (i32_slice (t_data atm_t) (unat n)) (\<lambda>atmnrs.
      if box_matrix input = null then ret (Inl ''box_matrix tensor is NULL'')
      else bnd (load_managed (box_matrix input)) (\<lambda>bm. let box_t = dl_tensor bm in
      if device_type (t_device box_t) \<noteq> kDLCPU
      then ret (Inl ''RPC requires CPU tensors; box_matrix is not on CPU'')
      else bnd (f64_slice (t_data box_t) 9) (\<lambda>box_data.
      ret (Inr (poss, atmnrs, box_data))))))))))"

text \<open>The request: the three lists are created and filled in this order.\<close>

definition build_request ::
    "rpc_lib \<Rightarrow> f64 list \<Rightarrow> i32 list \<Rightarrow> f64 list \<Rightarrow> fip_builder comp" where
  "build_request R poss atmnrs box_data =
     bnd (init_f64_list R (word_of_nat (length poss))) (\<lambda>pos_builder.
     bnd (set_loop (set_f64_list R) pos_builder 0 poss) (\<lambda>pb.
     bnd (init_i32_list R (word_of_nat (length atmnrs))) (\<lambda>atm_builder.
     bnd (set_loop (set_i32_list R) atm_builder 0 atmnrs) (\<lambda>ab.
     bnd (init_f64_list R 9) (\<lambda>box_builder.
     bnd (set_loop (set_f64_list R) box_builder 0 box_data) (\<lambda>bb.
     ret \<lparr>fb_pos = pb, fb_atmnrs = ab, fb_box = bb\<rparr>))))))"

text \<open>Reading the response into the caller's output struct.\<close>

definition read_response ::
    "'x env_scheme \<Rightarrow> rpc_lib \<Rightarrow> usize \<Rightarrow> ptr \<Rightarrow> calculate_response \<Rightarrow> (string + unit) comp" where
  "read_response E R n output response =
     try_op (ret response) (\<lambda>e. ''failed to read response: '' @ show_capnp R e) (\<lambda>got.
     try_op (ret got) (\<lambda>e. ''failed to get result: '' @ show_capnp R e) (\<lambda>result.
     bnd (update_out output (\<lambda>out. out\<lparr>energy := rr_energy result\<rparr>)) (\<lambda>_.
     try_op (ret (rr_forces result)) (\<lambda>e. ''failed to read forces: '' @ show_capnp R e) (\<lambda>fs.
     bnd (mul_usize E n 3) (\<lambda>n3.
     if (ucast (list_len fs) :: usize) \<noteq> n3
     then bnd (mul_usize E n 3) (\<lambda>n3.
          ret (Inl (''force array size mismatch: expected '' @ show_nat (unat n3) @
            '', got '' @ show_nat (unat (list_len fs)))))
     else bnd (create_owned_f64_tensor E (collect_list fs) [n, 3]) (\<lambda>t.
          bnd (update_out output (\<lambda>out. out\<lparr>forces := t\<rparr>)) (\<lambda>_.
          ret (Inr ()))))))))"

definition calculate_async ::
    "'x env_scheme \<Rightarrow> rpc_lib \<Rightarrow> RpcClient \<Rightarrow> rgpot_force_input_t \<Rightarrow> ptr \<Rightarrow> (string + unit) comp" where
  "calculate_async E R self input output =
     try_op (bnd (n_atoms input) (\<lambda>on. ret (case on of None \<Rightarrow> Inl () | Some n \<Rightarrow> Inr n)))
       (\<lambda>_. ''cannot determine n_atoms from input tensors'') (\<lambda>n.
     try_op (extract_cpu_input E input n) (\<lambda>e. e) (\<lambda>(poss, atmnrs, box_data).
     try_op (tcp_connect R (addr self)) (\<lambda>e. ''connection failed: '' @ e) (\<lambda>stream.
     try_op (set_nodelay R stream True) (\<lambda>e. ''set_nodelay failed: '' @ e) (\<lambda>_.
     bnd (rpc_bootstrap R stream) (\<lambda>potential_client.
     bnd (build_request R poss atmnrs box_data) (\<lambda>request.
     try_op (send_request R potential_client request) (\<lambda>e. ''RPC call failed: '' @ show_capnp R e) (\<lambda>response.
     read_response E R n output response)))))))"

text \<open>\<^verbatim>\<open>block_on\<close> runs the future to its end on the calling thread.\<close>

definition RpcClient_calculate ::
    "'x env_scheme \<Rightarrow> rpc_lib \<Rightarrow> RpcClient \<Rightarrow> rgpot_force_input_t \<Rightarrow> ptr \<Rightarrow> (string + unit) comp" where
  "RpcClient_calculate E R self input output = calculate_async E R self input output"

definition rgpot_rpc_client_new :: "rpc_lib \<Rightarrow> ptr \<Rightarrow> u16 \<Rightarrow> ptr comp" where
  "rgpot_rpc_client_new R host port = extern_C
     (if host = null
      then bnd (set_last_error ''rgpot_rpc_client_new: host is NULL'') (\<lambda>_. ret null)
      else bnd (load_cstr host) (\<lambda>s. case to_str s of
          Inl e \<Rightarrow> bnd (set_last_error (''rgpot_rpc_client_new: invalid host string: '' @ e)) (\<lambda>_. ret null)
        | Inr host_str \<Rightarrow>
            bnd (RpcClient_new R host_str port) (\<lambda>r. case r of
                Inr client \<Rightarrow> alloc (Rpc_client client)
              | Inl e \<Rightarrow> bnd (set_last_error (''rgpot_rpc_client_new: '' @ e)) (\<lambda>_. ret null))))"

definition rgpot_rpc_calculate ::
    "'x env_scheme \<Rightarrow> rpc_lib \<Rightarrow> ptr \<Rightarrow> ptr \<Rightarrow> ptr \<Rightarrow> rgpot_status_t comp" where
  "rgpot_rpc_calculate E R client input output = extern_C (catch_unwind
     (if client = null
      then bnd (set_last_error ''rgpot_rpc_calculate: client is NULL'') (\<lambda>_. ret RGPOT_INVALID_PARAMETER)
      else if input = null
      then bnd (set_last_error ''rgpot_rpc_calculate: input is NULL'') (\<lambda>_. ret RGPOT_INVALID_PARAMETER)
      else if output = null
      then bnd (set_last_error ''rgpot_rpc_calculate: output is NULL'') (\<lambda>_. ret RGPOT_INVALID_PARAMETER)
      else bnd (load_client client) (\<lambda>client_ref.
           bnd (load_input input) (\<lambda>inp.
           bnd (load_out output) (\<lambda>_.
           bnd (RpcClient_calculate E R client_ref inp output) (\<lambda>r. case r of
               Inr _ \<Rightarrow> ret RGPOT_SUCCESS
             | Inl e \<Rightarrow> bnd (set_last_error (''rgpot_rpc_calculate: '' @ e)) (\<lambda>_. ret RGPOT_RPC_ERROR)))))))"

definition rgpot_rpc_client_free :: "rpc_lib \<Rightarrow> ptr \<Rightarrow> unit comp" where
  "rgpot_rpc_client_free R client = extern_C
     (if client \<noteq> null
      then bnd (load_client client) (\<lambda>c. bnd (runtime_drop R (runtime c)) (\<lambda>_. dealloc client))
      else ret ())"

section \<open>The handle\<close>

text \<open>A client in memory, whose runtime can be shut down without touching memory.\<close>

definition client_rep :: "rpc_lib \<Rightarrow> mem \<Rightarrow> ptr \<Rightarrow> RpcClient \<Rightarrow> ptr set \<Rightarrow> bool" where
  "client_rep R h t c F \<longleftrightarrow>
     h t = Some (Rpc_client c) \<and> t \<noteq> null \<and> F = {t} \<and> runtime_drop R (runtime c) = ret ()"

interpretation cli: resource "client_rep R" "rgpot_rpc_client_free R" for R
  by unfold_locales (auto simp: client_rep_def rgpot_rpc_client_free_def exec)

lemma client_new_cases:
  assumes ok: "world_ok w" and rt: "runtime_new R = ret rr"
  shows "rgpot_rpc_client_new R host port w =
     (if host = null then Done null (record_error ''rgpot_rpc_client_new: host is NULL'' w)
      else case heap w host of
        Some (Cstr s) \<Rightarrow> (case to_str s of
            Inl e \<Rightarrow> Done null (record_error (''rgpot_rpc_client_new: invalid host string: '' @ e) w)
          | Inr hs \<Rightarrow> (case rr of
                Inl e \<Rightarrow> Done null (record_error
                  (''rgpot_rpc_client_new: failed to create tokio runtime: '' @ e) w)
              | Inr r \<Rightarrow> Done (brk w) (push (Rpc_client \<lparr>runtime = r, addr = show_addr hs port\<rparr>) w)))
      | _ \<Rightarrow> Undefined)"
  unfolding rgpot_rpc_client_new_def RpcClient_new_def try_op_def rt
  using ok
  by (simp add: extern_C_def load_cstr_def error_simps alloc_def bnd_def [of "load_cstr host"]
      split: option.split block.split sum.split)

text \<open>
  C16: Creating a client.  With a valid UTF-8 host name and a runtime, the call returns a
  handle for \<open>host:port\<close>, and freeing the handle gives all memory back.  No
  connection is attempted: the result is the same whatever a connection attempt would
  do.  A null or ill-formed host, or a failing runtime, gives the null handle, a
  message saying which, and unchanged memory.
\<close>

theorem client_lifecycle:
  assumes ok: "world_ok w" and host: "heap w host = Some (Cstr s)" "host \<noteq> null"
    and rt: "runtime_new R = ret rr" "\<And>r. runtime_drop R r = ret ()"
  shows "(case (to_str s, rr) of
      (Inr _, Inr r) \<Rightarrow> (\<exists>t w'. t \<noteq> null \<and>
          (\<forall>N. rgpot_rpc_client_new (R\<lparr>tcp_connect := N\<rparr>) host port w = Done t w') \<and>
          heap w' t = Some (Rpc_client \<lparr>runtime = r, addr = show_addr s port\<rparr>) \<and>
          rgpot_rpc_client_free R t w' = Done () (w\<lparr>brk := brk w'\<rparr>))
    | (Inr _, Inl e) \<Rightarrow> rgpot_rpc_client_new R host port w =
          Done null (record_error (''rgpot_rpc_client_new: failed to create tokio runtime: '' @ e) w)
    | (Inl e, _) \<Rightarrow> rgpot_rpc_client_new R host port w =
          Done null (record_error (''rgpot_rpc_client_new: invalid host string: '' @ e) w)) \<and>
    rgpot_rpc_client_new R null port w = Done null (record_error ''rgpot_rpc_client_new: host is NULL'' w)"
proof (rule conjI)
  let ?t = "brk w"
  have "\<exists>t w'. t \<noteq> null \<and>
          (\<forall>N. rgpot_rpc_client_new (R\<lparr>tcp_connect := N\<rparr>) host port w = Done t w') \<and>
          heap w' t = Some (Rpc_client \<lparr>runtime = r, addr = show_addr s port\<rparr>) \<and>
          rgpot_rpc_client_free R t w' = Done () (w\<lparr>brk := brk w'\<rparr>)"
    if "to_str s = Inr hs" "rr = Inr r" for hs r
  proof (intro exI conjI allI)
    let ?c = "\<lparr>runtime = r, addr = show_addr s port\<rparr>"
    let ?w = "push (Rpc_client ?c) w"
    show nn: "?t \<noteq> null" using world_ok_brk [OF ok] by simp
    show "rgpot_rpc_client_new (R\<lparr>tcp_connect := N\<rparr>) host port w = Done ?t ?w" for N
      using client_new_cases [OF ok, of "R\<lparr>tcp_connect := N\<rparr>" rr host port] rt(1) host that
        to_str_Inr [OF that(1)] by simp
    have "client_rep R (heap ?w) ?t ?c {?t}" using rt(2) nn by (simp add: client_rep_def)
    then show "rgpot_rpc_client_free R ?t ?w = Done () (w\<lparr>brk := brk ?w\<rparr>)"
      by (rule cli.free_restores [OF grows_push [OF ok]])
  qed simp
  then show "case (to_str s, rr) of
      (Inr _, Inr r) \<Rightarrow> (\<exists>t w'. t \<noteq> null \<and>
          (\<forall>N. rgpot_rpc_client_new (R\<lparr>tcp_connect := N\<rparr>) host port w = Done t w') \<and>
          heap w' t = Some (Rpc_client \<lparr>runtime = r, addr = show_addr s port\<rparr>) \<and>
          rgpot_rpc_client_free R t w' = Done () (w\<lparr>brk := brk w'\<rparr>))
    | (Inr _, Inl e) \<Rightarrow> rgpot_rpc_client_new R host port w =
          Done null (record_error (''rgpot_rpc_client_new: failed to create tokio runtime: '' @ e) w)
    | (Inl e, _) \<Rightarrow> rgpot_rpc_client_new R host port w =
          Done null (record_error (''rgpot_rpc_client_new: invalid host string: '' @ e) w)"
    using client_new_cases [OF ok rt(1), of host port] host by (auto split: sum.split)
qed (simp add: client_new_cases [OF ok rt(1)])

theorem client_lifecycle_witness:
  "\<exists>t w'. rgpot_rpc_client_new (lib_of silent_net) 1 12345 (push (Cstr ''localhost'') boot_world) = Done t w' \<and>
     heap w' t = Some (Rpc_client \<lparr>runtime = 0, addr = ''localhost:12345''\<rparr>) \<and>
     rgpot_rpc_client_free (lib_of silent_net) t w' =
       Done () ((push (Cstr ''localhost'') boot_world)\<lparr>brk := brk w'\<rparr>)"
proof -
  let ?w = "push (Cstr ''localhost'') boot_world" and ?R = "lib_of silent_net"
  have "heap ?w 1 = Some (Cstr ''localhost'')" by (simp add: boot_world_def)
  moreover have "to_str ''localhost'' = Inr ''localhost''" by (rule to_str_ascii) auto
  moreover have "runtime_new ?R = ret (Inr 0)" "\<And>r. runtime_drop ?R r = ret ()"
    by (simp_all add: lib_of_def)
  ultimately have "\<exists>t w'. t \<noteq> null \<and>
      (\<forall>N. rgpot_rpc_client_new (?R\<lparr>tcp_connect := N\<rparr>) 1 12345 ?w = Done t w') \<and>
      heap w' t = Some (Rpc_client \<lparr>runtime = 0, addr = show_addr ''localhost'' 12345\<rparr>) \<and>
      rgpot_rpc_client_free ?R t w' = Done () (?w\<lparr>brk := brk w'\<rparr>)"
    using client_lifecycle [OF world_ok_push [OF boot_world_ok], where host = 1 and s = "''localhost''"
        and R = ?R and rr = "Inr 0" and port = 12345] by simp
  then obtain t w' where r: "\<forall>N. rgpot_rpc_client_new (?R\<lparr>tcp_connect := N\<rparr>) 1 12345 ?w = Done t w'"
    "heap w' t = Some (Rpc_client \<lparr>runtime = 0, addr = show_addr ''localhost'' 12345\<rparr>)"
    "rgpot_rpc_client_free ?R t w' = Done () (?w\<lparr>brk := brk w'\<rparr>)"
    by blast
  have "?R\<lparr>tcp_connect := tcp_connect ?R\<rparr> = ?R" by simp
  moreover have "show_addr ''localhost'' 12345 = ''localhost:12345''" 
    by (simp add: show_addr_def show_nat.simps digit_def char_of_def bit_0)
  ultimately show ?thesis using r by metis
qed

section \<open>What the client sends and reads\<close>

lemma extract_rep:
  assumes ok: "world_ok w" and rep: "input_rep (heap w) i n p a b F"
    and dat: "input_data (heap w) n p a b xs zs bs"
  shows "extract_cpu_input E i n w = Done (Inr (xs, zs, bs)) w"
proof -
  obtain G1 G2 G3 where
    "tensor_rep (heap w) (positions i) \<lparr>kind = Borrowed, buffer = p, elem = dtype_f64, extents = [n, 3]\<rparr> G1"
    "tensor_rep (heap w) (atomic_numbers i) \<lparr>kind = Borrowed, buffer = a, elem = dtype_i32, extents = [n]\<rparr> G2"
    "tensor_rep (heap w) (box_matrix i) \<lparr>kind = Borrowed, buffer = b, elem = dtype_f64, extents = [3, 3]\<rparr> G3"
    using input_rep_positions [OF rep] by blast
  note t = this [THEN tensor_rep_load]
  from dat have m: "heap w p = Some (F64s xs)" "heap w a = Some (I32s zs)" "heap w b = Some (F64s bs)"
    and len: "length zs = unat n" "length bs = 9" by (simp_all add: input_data_def)
  have "p \<noteq> null" "a \<noteq> null" "b \<noteq> null" using m world_ok_less [OF ok] by fastforce+
  then have s: "f64_slice p (length xs) w = Done xs w" "i32_slice a (unat n) w = Done zs w"
    "f64_slice b 9 w = Done bs w"
    using m slice_exact(1) [of p w xs] slice_exact(2) [of a w zs] slice_exact(1) [of b w bs] len by simp_all
  from t show ?thesis
    using s triple_atoms(1) [OF dat, of E] triple_atoms(2) [OF dat]
    by (auto simp: extract_cpu_input_def Let_def bnd_def ret_def cpu_device_def)
qed

lemma build_list_then:
  assumes "list_builder_ok init_op set_op" and "length vs < max_list"
  shows "bnd (init_op (word_of_nat (length vs))) (\<lambda>b. bnd (set_loop set_op b 0 vs) k) = k vs"
  using arg_cong [OF build_list [OF assms], of "\<lambda>m. bnd m k"] by (simp add: bnd_assoc)

lemma build_request_ok:
  assumes R: "quiet_network R N" and len: "length xs < max_list" "length zs < max_list" "length bs = 9"
  shows "build_request R xs zs bs = ret \<lparr>fb_pos = xs, fb_atmnrs = zs, fb_box = bs\<rparr>"
proof -
  have bx: "(9 :: u32) = word_of_nat (length bs)" and bl: "length bs < max_list"
    using len(3) by (simp_all add: max_list_def)
  show ?thesis
    unfolding build_request_def bx
    by (simp only: build_list_then [OF quiet_networkD(5) [OF R] len(1)]
        build_list_then [OF quiet_networkD(6) [OF R] len(2)]
        build_list_then [OF quiet_networkD(5) [OF R] bl])
qed

section \<open>The client against its specification\<close>

text \<open>
  What a remote calculation comes to, as a function of the network's answers: a
  refusal with its message and, when the response carried one, the energy already
  written; or an energy and forces.
\<close>

datatype verdict = Refuse string "f64 option" | Accept f64 "f64 list"

definition judge_result :: "rpc_lib \<Rightarrow> f64 list \<Rightarrow> result_reader \<Rightarrow> verdict" where
  "judge_result R xs result = (case rr_forces result of
      Inl e \<Rightarrow> Refuse (''failed to read forces: '' @ show_capnp R e) (Some (rr_energy result))
    | Inr fs \<Rightarrow>
        if length fs = length xs then Accept (rr_energy result) fs
        else Refuse (''force array size mismatch: expected '' @ show_nat (length xs) @
               '', got '' @ show_nat (length fs)) (Some (rr_energy result)))"

definition judge_response :: "rpc_lib \<Rightarrow> f64 list \<Rightarrow> calculate_response \<Rightarrow> verdict" where
  "judge_response R xs response = (case response of
      Inl e \<Rightarrow> Refuse (''failed to read response: '' @ show_capnp R e) None
    | Inr (Inl e) \<Rightarrow> Refuse (''failed to get result: '' @ show_capnp R e) None
    | Inr (Inr result) \<Rightarrow> judge_result R xs result)"

definition remote_verdict ::
    "rpc_lib \<Rightarrow> net_answers \<Rightarrow> string \<Rightarrow> f64 list \<Rightarrow> i32 list \<Rightarrow> f64 list \<Rightarrow> verdict" where
  "remote_verdict R N ad xs zs bs = (case net_connect N ad of
      Inl e \<Rightarrow> Refuse (''connection failed: '' @ e) None
    | Inr stream \<Rightarrow> (case net_nodelay N stream of
        Inl e \<Rightarrow> Refuse (''set_nodelay failed: '' @ e) None
      | Inr _ \<Rightarrow> (case net_call N (net_bootstrap N stream) \<lparr>fb_pos = xs, fb_atmnrs = zs, fb_box = bs\<rparr> of
          Inl e \<Rightarrow> Refuse (''RPC call failed: '' @ show_capnp R e) None
        | Inr response \<Rightarrow> judge_response R xs response)))"

text \<open>The responses of the network are well-formed: their lists have a legal length.\<close>

definition legal_answers :: "net_answers \<Rightarrow> bool" where
  "legal_answers N \<longleftrightarrow>
     (\<forall>p q result fs. net_call N p q = Inr (Inr (Inr result)) \<longrightarrow> rr_forces result = Inr fs \<longrightarrow>
        length fs < max_list)"

text \<open>
  What a verdict means for the caller: the status, the message, and the memory.
\<close>

definition energy_written :: "ptr \<Rightarrow> rgpot_force_out_t \<Rightarrow> f64 option \<Rightarrow> world \<Rightarrow> world" where
  "energy_written pout r oe w = (case oe of
      None \<Rightarrow> w | Some e \<Rightarrow> set_block pout (Force_out (r\<lparr>energy := e\<rparr>)) w)"

definition forces_delivered ::
    "world \<Rightarrow> ptr \<Rightarrow> rgpot_force_out_t \<Rightarrow> usize \<Rightarrow> f64 \<Rightarrow> f64 list \<Rightarrow> world \<Rightarrow> bool" where
  "forces_delivered w pout r n e fs w' \<longleftrightarrow>
     (\<exists>t d G. grows (set_block pout (out_struct t e (variance r)) w) w' G \<and>
        tensor_rep (heap w') t (forces_view n d) G \<and> heap w' d = Some (F64s fs))"

definition client_result ::
    "world \<Rightarrow> ptr \<Rightarrow> rgpot_force_out_t \<Rightarrow> usize \<Rightarrow> verdict \<Rightarrow> (string + unit) outcome \<Rightarrow> bool" where
  "client_result w pout r n v res = (case v of
      Refuse msg oe \<Rightarrow> res = Done (Inl msg) (energy_written pout r oe w)
    | Accept e fs \<Rightarrow> (\<exists>w'. res = Done (Inr ()) w' \<and> forces_delivered w pout r n e fs w'))"

lemma read_result_judged:
  assumes ok: "world_ok w" and pout: "heap w pout = Some (Force_out r)"
    and n3: "mul_usize E n 3 = ret (n * 3)" "unat (n * 3) = length xs"
    and legal: "\<And>fs. rr_forces result = Inr fs \<Longrightarrow> length fs < max_list"
  shows "client_result w pout r n (judge_result R xs result) (read_response E R n pout (Inr (Inr result)) w)"
proof (cases "rr_forces result")
  case (Inl e)
  with pout show ?thesis
    by (simp add: client_result_def judge_result_def read_response_def try_op_def energy_written_def
        update_out_Done bnd_def ret_def)
next
  case (Inr fs)
  let ?r1 = "r\<lparr>energy := rr_energy result\<rparr>"
  let ?w1 = "set_block pout (Force_out ?r1) w"
  have len: "unat (list_len fs) = length fs" "unat (ucast (list_len fs) :: usize) = length fs"
    using legal [OF Inr] by (simp_all add: list_len_def max_list_def unsigned_ucast_eq take_bit_nat_eq_self)
  then have test: "ucast (list_len fs) = n * 3 \<longleftrightarrow> length fs = length xs"
    using n3(2) by (metis word_unat_eq_iff)
  show ?thesis
  proof (cases "length fs = length xs")
    case False
    with Inr pout n3 len test show ?thesis
      by (simp add: client_result_def judge_result_def read_response_def try_op_def energy_written_def
          update_out_Done bnd_def ret_def)
  next
    case True
    have ok1: "world_ok ?w1" using ok pout by (rule world_ok_set_block) simp
    obtain t w3 G d where new: "create_owned_f64_tensor E fs [n, 3] ?w1 = Done t w3"
      and g: "grows ?w1 w3 G" and t: "tensor_rep (heap w3) t (forces_view n d) G"
      and d: "heap w3 d = Some (F64s fs)"
      using create_owned_f64_rep [OF ok1 strides_2d [of E n 3]] by blast
    note out = output_written [OF ok pout g t d]
    let ?R = "\<lparr>forces = t, energy = rr_energy result, variance = variance r\<rparr>"
    have R: "?r1\<lparr>forces := t\<rparr> = ?R" by (cases r) simp
    have "read_response E R n pout (Inr (Inr result)) w = Done (Inr ()) (set_block pout (Force_out ?R) w3)"
      using Inr pout n3 test True new out(4) collect_list_id [OF legal [OF Inr]]
      by (simp add: read_response_def try_op_def update_out_Done bnd_def ret_def R)
    moreover have "forces_delivered w pout r n (rr_energy result) fs (set_block pout (Force_out ?R) w3)"
      using out unfolding forces_delivered_def by blast
    ultimately show ?thesis using Inr True by (simp add: client_result_def judge_result_def)
  qed
qed

lemma client_judged:
  assumes ok: "world_ok w" and pout: "heap w pout = Some (Force_out r)"
    and rep: "input_rep (heap w) i n p a b F" and dat: "input_data (heap w) n p a b xs zs bs"
    and net: "quiet_network R N" "legal_answers N" and len: "length xs < max_list"
  shows "client_result w pout r n (remote_verdict R N (addr c) xs zs bs)
     (RpcClient_calculate E R c i pout w)"
proof -
  have lz: "length zs < max_list" "length bs = 9"
    using dat len by (simp_all add: input_data_def)
  note q = quiet_networkD(1-4) [OF net(1)]
  let ?req = "\<lparr>fb_pos = xs, fb_atmnrs = zs, fb_box = bs\<rparr>"
  have *: "RpcClient_calculate E R c i pout w = (case net_connect N (addr c) of
      Inl e \<Rightarrow> Done (Inl (''connection failed: '' @ e)) w
    | Inr stream \<Rightarrow> (case net_nodelay N stream of
        Inl e \<Rightarrow> Done (Inl (''set_nodelay failed: '' @ e)) w
      | Inr _ \<Rightarrow> (case net_call N (net_bootstrap N stream) ?req of
          Inl e \<Rightarrow> Done (Inl (''RPC call failed: '' @ show_capnp R e)) w
        | Inr response \<Rightarrow> read_response E R n pout response w)))"
    by (simp add: RpcClient_calculate_def calculate_async_def try_op_def q bnd_assoc
        build_request_ok [OF net(1) len lz] bnd_Done [where m = "n_atoms i" and w = w, OF n_atoms_rep [OF rep]]
        bnd_Done [where m = "extract_cpu_input E i n" and w = w, OF extract_rep [OF ok rep dat]] ret_def split: sum.split)
  have resp: "client_result w pout r n (judge_response R xs response) (read_response E R n pout response w)"
    if "net_call N cap ?req = Inr response" for cap response
  proof (cases response)
    case (Inr got)
    show ?thesis
    proof (cases got)
      case (Inr result)
      with \<open>response = Inr got\<close> that show ?thesis
        using read_result_judged [OF ok pout triple_atoms [OF dat], of result R] net(2)
        by (simp add: judge_response_def legal_answers_def)
    qed (simp add: \<open>response = Inr got\<close> client_result_def judge_response_def read_response_def try_op_def
        energy_written_def ret_def)
  qed (simp add: client_result_def judge_response_def read_response_def try_op_def energy_written_def ret_def)
  show ?thesis
    using resp unfolding *
    by (auto simp: remote_verdict_def client_result_def energy_written_def split: sum.split)
qed

lemma energy_written_ok:
  assumes "world_ok w" and "heap w pout = Some (Force_out r)"
  shows "world_ok (energy_written pout r oe w)"
proof (cases oe)
  case (Some e)
  have "world_ok (set_block pout (Force_out (r\<lparr>energy := e\<rparr>)) w)"
    using assms by (rule world_ok_set_block) simp
  with Some show ?thesis by (simp add: energy_written_def)
qed (simp add: energy_written_def assms)

text \<open>The C function around the client's method, when its arguments are valid.\<close>

lemma rpc_calculate_wraps:
  assumes ok: "world_ok w" and "heap w cl = Some (Rpc_client c)"
    and "heap w pin = Some (Force_input i)" and "heap w pout = Some (Force_out r)"
    and res: "RpcClient_calculate E R c i pout w = Done res w'" and ok': "world_ok w'"
  shows "rgpot_rpc_calculate E R cl pin pout w = (case res of
      Inr _ \<Rightarrow> Done RGPOT_SUCCESS w'
    | Inl e \<Rightarrow> Done RGPOT_RPC_ERROR (record_error (''rgpot_rpc_calculate: '' @ e) w'))"
proof -
  have "cl \<noteq> null" "pin \<noteq> null" "pout \<noteq> null"
    using assms(2-4) world_ok_less [OF ok] by fastforce+
  with assms(2-4) res show ?thesis
    by (simp add: err.fail_with [OF ok'] rgpot_rpc_calculate_def catch_unwind_def extern_C_def load_client_def load_input_def
        load_out_def bnd_Done [where w = w] ret_def split: sum.split)
qed

lemma rpc_calculate_judged:
  assumes ok: "world_ok w" and cl: "heap w cl = Some (Rpc_client c)"
    and pin: "heap w pin = Some (Force_input i)" and pout: "heap w pout = Some (Force_out r)"
    and inp: "input_rep (heap w) i n p a b F" "input_data (heap w) n p a b xs zs bs"
    and net: "quiet_network R N" "legal_answers N" and len: "length xs < max_list"
  shows "case remote_verdict R N (addr c) xs zs bs of
      Accept e fs \<Rightarrow> (\<exists>w'. rgpot_rpc_calculate E R cl pin pout w = Done RGPOT_SUCCESS w' \<and>
        forces_delivered w pout r n e fs w')
    | Refuse msg oe \<Rightarrow> rgpot_rpc_calculate E R cl pin pout w =
        Done RGPOT_RPC_ERROR (record_error (''rgpot_rpc_calculate: '' @ msg) (energy_written pout r oe w))"
proof (cases "remote_verdict R N (addr c) xs zs bs")
  case (Refuse msg oe)
  with client_judged [OF ok pout inp net len, of c E]
  have "RpcClient_calculate E R c i pout w = Done (Inl msg) (energy_written pout r oe w)"
    by (simp add: client_result_def)
  from rpc_calculate_wraps [OF ok cl pin pout this energy_written_ok [OF ok pout]] Refuse
  show ?thesis by simp
next
  case (Accept e fs)
  with client_judged [OF ok pout inp net len, of c E] obtain w'
    where run: "RpcClient_calculate E R c i pout w = Done (Inr ()) w'"
    and del: "forces_delivered w pout r n e fs w'" by (auto simp: client_result_def)
  from del have "world_ok w'" by (auto simp: forces_delivered_def dest: growsD(1))
  from rpc_calculate_wraps [OF ok cl pin pout run this] Accept del show ?thesis by simp
qed

text \<open>
  C2: A remote calculation refines its specification.  For a valid configuration and a
  network that answers, \<^verbatim>\<open>rgpot_rpc_calculate\<close> does exactly what the verdict over
  those answers says.  On acceptance the status is \<^verbatim>\<open>RGPOT_SUCCESS\<close>, the output
  struct holds the energy, its old variance and a fresh owned \<open>[n, 3]\<close> tensor with
  the forces, and nothing else has changed.  On every refusal the status is
  \<^verbatim>\<open>RGPOT_RPC_ERROR\<close> with the message of the failed step; no tensor is created, the
  forces pointer keeps its value, and at most the energy field has been
  overwritten, which happens exactly when the response carried an energy.
\<close>

theorem rpc_calculate_refines:
  assumes ok: "world_ok w" and cl: "heap w cl = Some (Rpc_client c)"
    and pin: "heap w pin = Some (Force_input i)" and pout: "heap w pout = Some (Force_out r)"
    and inp: "input_rep (heap w) i n p a b F" "input_data (heap w) n p a b xs zs bs"
    and net: "quiet_network R N" "legal_answers N" and len: "length xs < max_list"
  shows "case remote_verdict R N (addr c) xs zs bs of
      Accept e fs \<Rightarrow> (\<exists>w'. rgpot_rpc_calculate E R cl pin pout w = Done RGPOT_SUCCESS w' \<and>
        forces_delivered w pout r n e fs w')
    | Refuse msg oe \<Rightarrow> rgpot_rpc_calculate E R cl pin pout w =
        Done RGPOT_RPC_ERROR (record_error (''rgpot_rpc_calculate: '' @ msg) (energy_written pout r oe w))"
  by (rule rpc_calculate_judged [OF assms])

text \<open>A network on which every call is answered with these energy and forces.\<close>

definition answering :: "f64 \<Rightarrow> f64 list \<Rightarrow> net_answers" where
  "answering e fs = \<lparr>net_connect = (\<lambda>_. Inr 0), net_nodelay = (\<lambda>_. Inr ()), net_bootstrap = (\<lambda>_. 0),
     net_call = (\<lambda>_ _. Inr (Inr (Inr \<lparr>rr_energy = e, rr_forces = Inr fs\<rparr>)))\<rparr>"

theorem rpc_calculate_refines_witness:
  "\<exists>i w w'. rgpot_force_input_create plain_env 2 1 2 3 sample_world = Done i w \<and>
     rgpot_rpc_calculate plain_env (lib_of (answering 7 [1, 2, 3])) (brk w + 2) (brk w) (brk w + 1)
       (with_args i (Rpc_client \<lparr>runtime = 0, addr = ''h:1''\<rparr>) w) = Done RGPOT_RPC_ERROR w' \<and>
     messages w' 0 = ''rgpot_rpc_calculate: force array size mismatch: expected 6, got 3'' \<and>
     heap w' (brk w + 1) = Some (out_struct null 7 0)"
proof -
  let ?c = "\<lparr>runtime = 0, addr = ''h:1''\<rparr>"
  let ?b = "Rpc_client ?c" and ?N = "answering 7 [1, 2, 3]"
  let ?msg = "''force array size mismatch: expected 6, got 3''"
  obtain i w F where r: "rgpot_force_input_create plain_env 2 1 2 3 sample_world = Done i w"
     "world_ok (with_args i ?b w)"
     "heap (with_args i ?b w) (brk w) = Some (Force_input i)"
     "heap (with_args i ?b w) (brk w + 1) = Some (out_struct null 0 0)"
     "heap (with_args i ?b w) (brk w + 2) = Some ?b"
     "input_rep (heap (with_args i ?b w)) i 2 1 2 3 F"
     "input_data (heap (with_args i ?b w)) 2 1 2 3 sample_positions [29, 1] sample_box"
     "thread (with_args i ?b w) = 0"
    using sample_ready [of plain_env ?b] by auto
  have "legal_answers ?N" by (simp add: legal_answers_def answering_def max_list_def)
  note spec = rpc_calculate_refines [OF r(2,5,3,4,6,7) quiet_lib_of this, of plain_env]
  have "remote_verdict (lib_of ?N) ?N (addr ?c) sample_positions [29, 1] sample_box = Refuse ?msg (Some 7)"
    by (simp add: remote_verdict_def answering_def judge_response_def judge_result_def sample_positions_def
        show_nat.simps digit_def char_of_def bit_0)
  let ?w1 = "energy_written (brk w + 1) \<lparr>forces = null, energy = 0, variance = 0\<rparr> (Some 7) (with_args i ?b w)"
  have ok1: "world_ok ?w1" by (rule energy_written_ok [OF r(2,4)])
  have "rgpot_rpc_calculate plain_env (lib_of ?N) (brk w + 2) (brk w) (brk w + 1) (with_args i ?b w) =
      Done RGPOT_RPC_ERROR (record_error (''rgpot_rpc_calculate: '' @ ?msg) ?w1)"
    using spec \<open>remote_verdict _ _ _ _ _ _ = _\<close> by (simp add: sample_positions_def max_list_def)
  moreover have "heap (record_error (''rgpot_rpc_calculate: '' @ ?msg) ?w1) (brk w + 1) = Some (out_struct null 7 0)"
    by (rule record_error_keeps [OF ok1]) (simp_all add: energy_written_def)
  moreover have "thread ?w1 = 0" using r(8) by (simp add: energy_written_def)
  ultimately show ?thesis
    using r(1) err.fail_text [OF ok1, of "''rgpot_rpc_calculate: '' @ ?msg"]
    by (auto simp: stored_message_def nul_free_def)
qed

section \<open>Refusals before the network\<close>

text \<open>
  Null arguments of a remote calculation.  A null client, input or output pointer gives
  \<^verbatim>\<open>RGPOT_INVALID_PARAMETER\<close> and a message naming the first of them; it does so
  for every environment and every network, so no connection is opened, and memory
  and the other threads' messages stay as they were.
\<close>

theorem rpc_null_arguments:
  assumes "world_ok w"
    and "null_argument [(''client'', cl), (''input'', pin), (''output'', pout)] = Some arg"
  shows "\<exists>w'. (\<forall>(E :: 'x env_scheme) R. rgpot_rpc_calculate E R cl pin pout w =
        Done RGPOT_INVALID_PARAMETER w') \<and>
     messages w' = (messages w)(thread w := ''rgpot_rpc_calculate: '' @ arg @ '' is NULL'') \<and>
     core_mem w' = core_mem w \<and> world_ok w'"
proof (intro exI conjI allI)
  let ?msg = "''rgpot_rpc_calculate: '' @ arg @ '' is NULL''"
  show "rgpot_rpc_calculate E R cl pin pout w = Done RGPOT_INVALID_PARAMETER (record_error ?msg w)"
    for E :: "'x env_scheme" and R
    using assms
    by (auto simp: rgpot_rpc_calculate_def null_argument_def error_simps extern_C_def catch_unwind_def
        split: if_splits)
  have "stored_message ?msg = ?msg"
    using assms(2) by (auto simp: stored_message_def nul_free_def null_argument_def split: if_splits)
  then show "messages (record_error ?msg w) = (messages w)(thread w := ?msg)"
    unfolding err.texts_after [OF assms(1)] by (rule arg_cong)
qed (simp_all only: error_simps assms(1))

theorem rpc_null_arguments_witness:
  "\<exists>w'. rgpot_rpc_calculate plain_env (lib_of silent_net) 5 6 0 boot_world = Done RGPOT_INVALID_PARAMETER w' \<and>
     messages w' 0 = ''rgpot_rpc_calculate: output is NULL''"
  using rpc_null_arguments [OF boot_world_ok, of 5 6 0 "''output''", where 'x = unit]
  by (auto simp: null_argument_def boot_world_def)

text \<open>
  Only host memory is sent.  When the positions tensor lives on another device than the
  CPU, the call fails with \<^verbatim>\<open>RGPOT_RPC_ERROR\<close> before its data pointer is followed and
  before the network is used, whatever that would do; the output struct is not
  touched.  The same holds when the positions pointer of the input is null.
\<close>

theorem foreign_device_refused:
  assumes ok: "world_ok w" and cl: "heap w cl = Some (Rpc_client c)"
    and pin: "heap w pin = Some (Force_input i)" and pout: "heap w pout = Some (Force_out r)"
  shows "(positions i = null \<longrightarrow> rgpot_rpc_calculate E R cl pin pout w = Done RGPOT_RPC_ERROR
       (record_error ''rgpot_rpc_calculate: cannot determine n_atoms from input tensors'' w)) \<and>
     (\<forall>m n. heap w (positions i) = Some (Managed m) \<and> device_type (t_device (dl_tensor m)) \<noteq> kDLCPU \<and>
        n_atoms i w = Done (Some n) w \<longrightarrow>
        rgpot_rpc_calculate E R cl pin pout w = Done RGPOT_RPC_ERROR
          (record_error ''rgpot_rpc_calculate: RPC requires CPU tensors; positions is not on CPU'' w))"
proof (intro conjI allI impI)
  assume "positions i = null"
  then have "RpcClient_calculate E R c i pout w =
      Done (Inl ''cannot determine n_atoms from input tensors'') w"
    by (simp add: RpcClient_calculate_def calculate_async_def n_atoms_def try_op_def exec)
  from rpc_calculate_wraps [OF ok cl pin pout this ok]
  show "rgpot_rpc_calculate E R cl pin pout w = Done RGPOT_RPC_ERROR
      (record_error ''rgpot_rpc_calculate: cannot determine n_atoms from input tensors'' w)" by simp
next
  fix m n
  assume dev: "heap w (positions i) = Some (Managed m) \<and> device_type (t_device (dl_tensor m)) \<noteq> kDLCPU \<and>
      n_atoms i w = Done (Some n) w"
  then have "positions i \<noteq> null" using world_ok_less [OF ok] by fastforce
  with dev have "extract_cpu_input E i n w =
      Done (Inl ''RPC requires CPU tensors; positions is not on CPU'') w"
    by (simp add: extract_cpu_input_def exec Let_def)
  with dev have "RpcClient_calculate E R c i pout w =
      Done (Inl ''RPC requires CPU tensors; positions is not on CPU'') w"
    by (simp add: RpcClient_calculate_def calculate_async_def try_op_def bnd_def ret_def)
  from rpc_calculate_wraps [OF ok cl pin pout this ok]
  show "rgpot_rpc_calculate E R cl pin pout w = Done RGPOT_RPC_ERROR
      (record_error ''rgpot_rpc_calculate: RPC requires CPU tensors; positions is not on CPU'' w)" by simp
qed

text \<open>A positions tensor of one atom on a GPU, at address 2 with its shape at 1.\<close>

definition gpu_tensor :: DLManagedTensorVersioned where
  "gpu_tensor = \<lparr>version = dlpack_version, manager_ctx = null, deleter = None, flags = 0,
     dl_tensor = \<lparr>t_data = 99, t_device = \<lparr>device_type = other_device 2, device_id = 0\<rparr>, t_ndim = 2,
       t_dtype = dtype_f64, t_shape = 1, t_strides = null, t_byte_offset = 0\<rparr>\<rparr>"

definition gpu_world :: world where
  "gpu_world = push (out_struct null 0 0)
     (push (Force_input \<lparr>positions = 2, atomic_numbers = null, box_matrix = null\<rparr>)
     (push (Rpc_client \<lparr>runtime = 0, addr = ''h:1''\<rparr>)
     (push (Managed gpu_tensor) (push (I64s [1, 3]) boot_world))))"

theorem foreign_device_refused_witness:
  "\<exists>w. rgpot_rpc_calculate plain_env (lib_of silent_net) 3 4 5 gpu_world = Done RGPOT_RPC_ERROR w"
proof -
  let ?i = "\<lparr>positions = 2, atomic_numbers = null, box_matrix = null\<rparr>"
  have ok: "world_ok gpu_world" unfolding gpu_world_def by (intro world_ok_push boot_world_ok)
  have h: "heap gpu_world 3 = Some (Rpc_client \<lparr>runtime = 0, addr = ''h:1''\<rparr>)"
    "heap gpu_world 4 = Some (Force_input ?i)" "heap gpu_world 5 = Some (out_struct null 0 0)"
    "heap gpu_world 2 = Some (Managed gpu_tensor)" "heap gpu_world 1 = Some (I64s [1, 3])"
    by (simp_all add: gpu_world_def boot_world_def)
  have "n_atoms ?i gpu_world = Done (Some 1) gpu_world"
    using h(4,5) by (simp add: n_atoms_def exec gpu_tensor_def i64_slice_def)
  with foreign_device_refused [OF ok h(1-3), of plain_env "lib_of silent_net"] h(4)
  show ?thesis by (simp add: gpu_tensor_def)
qed

end
