(* ===== verification/Rgpot_Server.thy ===== *)
theory Rgpot_Server
  imports Rgpot_Wire
begin

text \<open>
  \<^verbatim>\<open>rgpot-core/src/rpc/server.rs\<close>: the method that serves a calculation, and the
  server loop as a state machine over the events of the network.
\<close>

section \<open>Serving one calculation\<close>

record PotentialServer =
  ps_callback :: fnptr
  ps_user_data :: ptr

text \<open>\<^verbatim>\<open>pry!\<close>: an error ends the method and becomes its result.\<close>

definition pry :: "capnp_error + 'a \<Rightarrow> ('a \<Rightarrow> (capnp_error + 'b) comp) \<Rightarrow> (capnp_error + 'b) comp" where
  "pry r k = (case r of Inl e \<Rightarrow> ret (Inl e) | Inr x \<Rightarrow> k x)"

text \<open>Reading the forces the callback left in the output.\<close>

definition read_forces :: "'x env_scheme \<Rightarrow> usize \<Rightarrow> ptr \<Rightarrow> f64 list comp" where
  "read_forces E n fs =
     (if fs \<noteq> null
      then bnd (load_managed fs) (\<lambda>m.
           bnd (mul_usize E n 3) (\<lambda>len.
           f64_slice (t_data (dl_tensor m)) (unat len)))
      else ret [])"

definition build_results :: "rpc_lib \<Rightarrow> f64 \<Rightarrow> f64 list \<Rightarrow> result_builder comp" where
  "build_results R e forces_copy =
     bnd (init_f64_list R (word_of_nat (length forces_copy))) (\<lambda>forces_builder.
     bnd (set_loop (set_f64_list R) forces_builder 0 forces_copy) (\<lambda>fb.
     ret \<lparr>rb_energy = e, rb_forces = fb\<rparr>))"

text \<open>From the call of the potential on: read and free the tensors, then answer.\<close>

definition dispatch ::
    "'x env_scheme \<Rightarrow> rpc_lib \<Rightarrow> PotentialServer \<Rightarrow> usize \<Rightarrow> rgpot_force_input_t \<Rightarrow> ptr \<Rightarrow> ptr
      \<Rightarrow> (capnp_error + result_builder) comp" where
  "dispatch E R self n inp input output =
     bnd (extern_C (callback_code E (ps_callback self) (ps_user_data self) input output)) (\<lambda>status.
     bnd (load_out output) (\<lambda>out.
     bnd (read_forces E n (forces out)) (\<lambda>forces_copy.
     bnd (rgpot_tensor_free E (forces out)) (\<lambda>_.
     bnd (rgpot_tensor_free E (positions inp)) (\<lambda>_.
     bnd (rgpot_tensor_free E (atomic_numbers inp)) (\<lambda>_.
     bnd (rgpot_tensor_free E (box_matrix inp)) (\<lambda>_.
     if status \<noteq> RGPOT_SUCCESS
     then ret (Inl (Failed ''potential callback returned an error''))
     else bnd (build_results R (energy out) forces_copy) (\<lambda>rb. ret (Inr rb)))))))))"

text \<open>The non-owning tensors over the copied buffers, and the two structs of the call.\<close>

definition serve_copied ::
    "'x env_scheme \<Rightarrow> rpc_lib \<Rightarrow> PotentialServer \<Rightarrow> usize \<Rightarrow> ptr \<Rightarrow> ptr \<Rightarrow> ptr
      \<Rightarrow> (capnp_error + result_builder) comp" where
  "serve_copied E R self n pos_vec atm_vec box_vec =
     bnd (rgpot_tensor_cpu_f64_2d E pos_vec n 3) (\<lambda>pos_tensor.
     bnd (rgpot_tensor_cpu_i32_1d E atm_vec n) (\<lambda>atm_tensor.
     bnd (rgpot_tensor_cpu_f64_matrix3 E box_vec) (\<lambda>box_tensor.
     let inp = \<lparr>positions = pos_tensor, atomic_numbers = atm_tensor, box_matrix = box_tensor\<rparr> in
     bnd (alloc (Force_input inp)) (\<lambda>input.
     bnd (alloc (Force_out \<lparr>forces = null, energy = 0, variance = 0\<rparr>)) (\<lambda>output.
     with_locals [input, output] (dispatch E R self n inp input output))))))"

definition PotentialServer_calculate ::
    "'x env_scheme \<Rightarrow> rpc_lib \<Rightarrow> PotentialServer \<Rightarrow> calculate_params \<Rightarrow> (capnp_error + result_builder) comp" where
  "PotentialServer_calculate E R self params =
     pry params (\<lambda>got. pry got (\<lambda>fip.
     pry (fr_pos fip) (\<lambda>poss.
     pry (fr_atmnrs fip) (\<lambda>atmnrs.
     pry (fr_box fip) (\<lambda>box_data.
     let n = (ucast (list_len atmnrs) :: usize) in
     bnd (alloc (F64s (collect_list poss))) (\<lambda>pos_vec.
     bnd (alloc (I32s (collect_list atmnrs))) (\<lambda>atm_vec.
     bnd (alloc (F64s (collect_list box_data))) (\<lambda>box_vec.
     with_locals [pos_vec, atm_vec, box_vec]
       (serve_copied E R self n pos_vec atm_vec box_vec)))))))))"

section \<open>Malformed requests\<close>

text \<open>The first accessor that fails, in the order the method calls them.\<close>

definition params_error :: "calculate_params \<Rightarrow> capnp_error option" where
  "params_error params = (case params of
      Inl e \<Rightarrow> Some e
    | Inr (Inl e) \<Rightarrow> Some e
    | Inr (Inr fip) \<Rightarrow> (case (fr_pos fip, fr_atmnrs fip, fr_box fip) of
        (Inl e, _, _) \<Rightarrow> Some e
      | (Inr _, Inl e, _) \<Rightarrow> Some e
      | (Inr _, Inr _, Inl e) \<Rightarrow> Some e
      | (Inr _, Inr _, Inr _) \<Rightarrow> None))"

lemma malformed_answer:
  assumes "params_error params = Some e"
  shows "PotentialServer_calculate E R self params w = Done (Inl e) w"
  using assms
  by (auto simp: params_error_def PotentialServer_calculate_def pry_def ret_def split: sum.splits)

text \<open>
  Malformed requests.  If an accessor of the request fails, the method answers with the
  first such error; it neither allocates nor calls the potential, whatever that
  potential is.
\<close>

theorem malformed_request:
  assumes "params_error params = Some e"
  shows "PotentialServer_calculate E R self params w = Done (Inl e) w"
  using assms by (rule malformed_answer)

theorem malformed_request_witness:
  "PotentialServer_calculate plain_env (lib_of silent_net) \<lparr>ps_callback = 1, ps_user_data = 0\<rparr>
     (Inr (Inr \<lparr>fr_pos = Inr [1], fr_atmnrs = Inl (Failed ''bad list''), fr_box = Inl (Failed ''other'')\<rparr>)) boot_world =
     Done (Inl (Failed ''bad list'')) boot_world"
  by (rule malformed_request) (simp add: params_error_def)

section \<open>Well-formed requests\<close>

text \<open>
  What a callback did that was called on configuration \<open>(xs, zs, bs)\<close>: it
  returned status \<open>s\<close> with an energy, and either no forces or an owned tensor with
  one force per coordinate; it wrote nothing else.
\<close>

definition callback_did ::
    "world \<Rightarrow> ptr \<Rightarrow> usize \<Rightarrow> nat \<Rightarrow> f64 \<Rightarrow> f64 list \<Rightarrow> world \<Rightarrow> bool" where
  "callback_did w pout n k e fs w' \<longleftrightarrow>
     (\<exists>r G. grows (set_block pout (Force_out r) w) w' G \<and> energy r = e \<and>
        (forces r = null \<and> G = {} \<and> fs = [] \<or>
         (\<exists>d. tensor_rep (heap w') (forces r) (forces_view n d) G \<and> heap w' d = Some (F64s fs) \<and>
            length fs = k)))"

lemma callback_did_brk: "callback_did w pout n k e fs w' \<Longrightarrow> brk w \<le> brk w'"
  by (auto simp: callback_did_def dest!: growsD(4))

lemma read_forces_rep:
  assumes ok: "world_ok w" and t: "tensor_rep (heap w) t (forces_view n d) G"
    and d: "heap w d = Some (F64s fs)"
    and n3: "mul_usize E n 3 = ret (n * 3)" "unat (n * 3) = length fs"
  shows "read_forces E n t w = Done fs w"
proof -
  have "d \<noteq> null" using world_ok_less [OF ok d] by simp
  with slice_exact(1) [of d w fs] d have "f64_slice d (length fs) w = Done fs w" by simp
  with tensor_rep_load [OF t] n3 show ?thesis
    by (auto simp: read_forces_def bnd_def ret_def)
qed

lemma build_results_ok:
  assumes "builders_ok R" and "length fs < max_list"
  shows "build_results R e fs = ret \<lparr>rb_energy = e, rb_forces = fs\<rparr>"
proof -
  have "bnd (init_f64_list R (word_of_nat (length fs))) (\<lambda>b. set_loop (set_f64_list R) b 0 fs) = ret fs"
    using assms by (intro build_list) (simp_all add: builders_ok_def)
  from arg_cong [OF this, of "\<lambda>m. bnd m (\<lambda>fb. ret \<lparr>rb_energy = e, rb_forces = fb\<rparr>)"]
  show ?thesis by (simp add: build_results_def bnd_assoc)
qed

definition answer :: "rgpot_status_t \<Rightarrow> f64 \<Rightarrow> f64 list \<Rightarrow> capnp_error + result_builder" where
  "answer s e fs = (if s = RGPOT_SUCCESS then Inr \<lparr>rb_energy = e, rb_forces = fs\<rparr>
     else Inl (Failed ''potential callback returned an error''))"

lemma free_forces:
  assumes ok: "world_ok w" and pout: "heap w pout = Some (Force_out r0)"
    and did: "callback_did w pout n k e fs w'"
    and n3: "mul_usize E n 3 = ret (n * 3)" "unat (n * 3) = k"
  shows "\<exists>r. load_out pout w' = Done r w' \<and> energy r = e \<and> read_forces E n (forces r) w' = Done fs w' \<and>
     rgpot_tensor_free E (forces r) w' = Done () ((set_block pout (Force_out r) w)\<lparr>brk := brk w'\<rparr>)"
proof -
  from did obtain r G where g: "grows (set_block pout (Force_out r) w) w' G" and e: "energy r = e"
    and c: "forces r = null \<and> G = {} \<and> fs = [] \<or>
         (\<exists>d. tensor_rep (heap w') (forces r) (forces_view n d) G \<and> heap w' d = Some (F64s fs) \<and>
            length fs = k)" by (auto simp: callback_did_def)
  have ok1: "world_ok (set_block pout (Force_out r) w)" using ok pout by (rule world_ok_set_block) simp
  have "heap w' pout = Some (Force_out r)" by (rule grows_keeps [OF g ok1]) simp
  then have load: "load_out pout w' = Done r w'" by (simp add: load_out_def)
  from c show ?thesis
  proof
    assume "forces r = null \<and> G = {} \<and> fs = []"
    moreover from this grows_drop [OF g] have "w' = (set_block pout (Force_out r) w)\<lparr>brk := brk w'\<rparr>" by simp
    ultimately show ?thesis
      using load e by (auto simp: read_forces_def rgpot_tensor_free_def exec)
  next
    assume "\<exists>d. tensor_rep (heap w') (forces r) (forces_view n d) G \<and> heap w' d = Some (F64s fs) \<and>
        length fs = k"
    then obtain d where d: "tensor_rep (heap w') (forces r) (forces_view n d) G"
      "heap w' d = Some (F64s fs)" "length fs = k" by blast
    then have "unat (n * 3) = length fs" using n3 by simp
    from read_forces_rep [OF growsD(1) [OF g] d(1,2) n3(1) this] tens.free_restores [OF g d(1)] load e
    show ?thesis by blast
  qed
qed

lemma dispatch_did:
  assumes ok: "world_ok w" and pout: "heap w pout = Some (Force_out r0)" and out: "pout \<notin> F"
    and inp: "input_rep (heap w) inp n p a b F"
    and run: "callback_code E (ps_callback self) (ps_user_data self) pin pout w = Done s w'"
    and did: "callback_did w pout n k e fs w'"
    and n3: "mul_usize E n 3 = ret (n * 3)" "unat (n * 3) = k"
    and R: "builders_ok R" and len: "length fs < max_list"
  shows "\<exists>r. dispatch E R self n inp pin pout w =
     Done (answer s e fs) (drop_blocks F ((set_block pout (Force_out r) w)\<lparr>brk := brk w'\<rparr>))"
proof -
  obtain r where r: "load_out pout w' = Done r w'" "energy r = e" "read_forces E n (forces r) w' = Done fs w'"
     "rgpot_tensor_free E (forces r) w' = Done () ((set_block pout (Force_out r) w)\<lparr>brk := brk w'\<rparr>)"
    using free_forces [OF ok pout did n3] by blast
  let ?w = "(set_block pout (Force_out r) w)\<lparr>brk := brk w'\<rparr>"
  have "input_rep (heap ?w) inp n p a b F" using inp by (rule input_rep_frame) (use out in auto)
  note free = free_input_tensors [OF this, of E]
  have tail: "bnd (rgpot_tensor_free E (positions inp)) (\<lambda>_. bnd (rgpot_tensor_free E (atomic_numbers inp)) (\<lambda>_.
      bnd (rgpot_tensor_free E (box_matrix inp)) (\<lambda>_. q))) ?w = q (drop_blocks F ?w)"
    for q :: "(capnp_error + result_builder) comp"
  proof -
    from free have "bnd (bnd (rgpot_tensor_free E (positions inp)) (\<lambda>_.
        bnd (rgpot_tensor_free E (atomic_numbers inp)) (\<lambda>_. rgpot_tensor_free E (box_matrix inp)))) (\<lambda>_. q) ?w
        = q (drop_blocks F ?w)" by (rule bnd_Done)
    then show ?thesis by (simp add: bnd_assoc)
  qed
  have "dispatch E R self n inp pin pout w = Done (answer s e fs) (drop_blocks F ?w)"
    unfolding dispatch_def
    using r run tail build_results_ok [OF R len, of e]
    by (simp add: bnd_Done [where w = w] bnd_Done [where w = w'] extern_C_def answer_def)
      (simp add: ret_def)
  then show ?thesis by blast
qed

abbreviation request_params :: "f64 list \<Rightarrow> i32 list \<Rightarrow> f64 list \<Rightarrow> calculate_params" where
  "request_params xs zs bs \<equiv> Inr (Inr \<lparr>fr_pos = Inr xs, fr_atmnrs = Inr zs, fr_box = Inr bs\<rparr>)"

text \<open>On this configuration the callback always answers so.\<close>

definition callback_answers ::
    "'x env_scheme \<Rightarrow> fnptr \<Rightarrow> ptr \<Rightarrow> f64 list \<Rightarrow> i32 list \<Rightarrow> f64 list
      \<Rightarrow> rgpot_status_t \<Rightarrow> f64 \<Rightarrow> f64 list \<Rightarrow> bool" where
  "callback_answers E f ud xs zs bs s e fs \<longleftrightarrow>
     (\<forall>w pin pout i n p a b F. world_ok w \<and> heap w pin = Some (Force_input i) \<and>
        heap w pout = Some (out_struct null 0 0) \<and> input_rep (heap w) i n p a b F \<and>
        input_data (heap w) n p a b xs zs bs \<longrightarrow>
        (\<exists>w'. callback_code E f ud pin pout w = Done s w' \<and> callback_did w pout n (length xs) e fs w'))"

definition legal_request :: "f64 list \<Rightarrow> i32 list \<Rightarrow> f64 list \<Rightarrow> bool" where
  "legal_request xs zs bs \<longleftrightarrow>
     length xs = 3 * length zs \<and> length xs < max_list \<and> length bs = 9"

lemma locals_ready:
  assumes ok: "world_ok w" and req: "legal_request xs zs bs"
  shows "let w3 = push (F64s bs) (push (I32s zs) (push (F64s xs) w)) in
     grows w w3 {brk w, brk w + 1, brk w + 2} \<and>
     input_data (heap w3) (ucast (list_len zs)) (brk w) (brk w + 1) (brk w + 2) xs zs bs"
proof -
  let ?w = "push (F64s bs) (push (I32s zs) (push (F64s xs) w))"
  have "{brk w..<brk w + 3} = {brk w, brk w + 1, brk w + 2}" by auto
  then have "grows w ?w {brk w, brk w + 1, brk w + 2}"
    using grows_pushes [OF ok, of "[F64s xs, I32s zs, F64s bs]"] by (simp add: eval_nat_numeral)
  moreover have "unat (ucast (list_len zs) :: usize) = length zs"
    using req by (simp add: legal_request_def max_list_def list_len_def unsigned_ucast_eq take_bit_nat_eq_self)
  ultimately show ?thesis
    using req by (auto simp: Let_def input_data_def legal_request_def max_list_def)
qed

text \<open>The tensors and the two structs of the call, built on top of the copied data.\<close>

lemma args_ready:
  assumes ok: "world_ok w"
  shows "\<exists>i w1 w2 w3 F. rgpot_tensor_cpu_f64_2d E p n 3 w = Done (positions i) w1 \<and>
     rgpot_tensor_cpu_i32_1d E a n w1 = Done (atomic_numbers i) w2 \<and>
     rgpot_tensor_cpu_f64_matrix3 E b w2 = Done (box_matrix i) w3 \<and>
     (let w4 = push (out_struct null 0 0) (push (Force_input i) w3) in
        grows w w4 (F \<union> {brk w3, Suc (brk w3)}) \<and> input_rep (heap w4) i n p a b F) \<and>
     brk w3 \<notin> F \<and> Suc (brk w3) \<notin> F"
proof -
  obtain t1 t2 t3 w1 w2 w3 F where t: "rgpot_tensor_cpu_f64_2d E p n 3 w = Done t1 w1"
    "rgpot_tensor_cpu_i32_1d E a n w1 = Done t2 w2" "rgpot_tensor_cpu_f64_matrix3 E b w2 = Done t3 w3"
    and g: "grows w w3 F"
    and rep: "input_rep (heap w3) \<lparr>positions = t1, atomic_numbers = t2, box_matrix = t3\<rparr> n p a b F"
    using three_tensors [OF ok] by blast
  let ?i = "\<lparr>positions = t1, atomic_numbers = t2, box_matrix = t3\<rparr>"
  let ?w4 = "push (out_struct null 0 0) (push (Force_input ?i) w3)"
  note ok3 = growsD(1) [OF g]
  have "{brk w3..<brk w3 + 2} = {brk w3, Suc (brk w3)}" by auto
  then have g4: "grows w3 ?w4 {brk w3, Suc (brk w3)}"
    using grows_pushes [OF ok3, of "[Force_input ?i, out_struct null 0 0]"] by (simp add: eval_nat_numeral)
  have "brk w3 \<notin> F" "Suc (brk w3) \<notin> F" using growsD(6) [OF g] by auto
  then show ?thesis
    using t grows_trans [OF g g4] input_rep_grows [OF rep ok3 g4]
    by (intro exI [of _ ?i] exI [of _ w1] exI [of _ w2] exI [of _ w3] exI [of _ F]) (simp add: Let_def)
qed

lemma serve_copied_answers:
  assumes ok: "world_ok w" and dat: "input_data (heap w) n p a b xs zs bs" and R: "builders_ok R"
    and cb: "callback_answers E (ps_callback self) (ps_user_data self) xs zs bs s e fs"
    and len: "length fs < max_list"
  shows "\<exists>m \<ge> brk w. serve_copied E R self n p a b w = Done (answer s e fs) (w\<lparr>brk := m\<rparr>)"
proof -
  obtain i w1 w2 w3 F where t: "rgpot_tensor_cpu_f64_2d E p n 3 w = Done (positions i) w1"
     "rgpot_tensor_cpu_i32_1d E a n w1 = Done (atomic_numbers i) w2"
     "rgpot_tensor_cpu_f64_matrix3 E b w2 = Done (box_matrix i) w3"
    and args: "let w4 = push (out_struct null 0 0) (push (Force_input i) w3) in
        grows w w4 (F \<union> {brk w3, Suc (brk w3)}) \<and> input_rep (heap w4) i n p a b F"
    and F: "brk w3 \<notin> F" "Suc (brk w3) \<notin> F"
    using args_ready [OF ok] by blast
  let ?pin = "brk w3" and ?pout = "Suc (brk w3)"
  let ?w4 = "push (out_struct null 0 0) (push (Force_input i) w3)"
  from args have g4: "grows w ?w4 (F \<union> {?pin, ?pout})" and rep: "input_rep (heap ?w4) i n p a b F"
    by (simp_all add: Let_def)
  note dat4 = input_data_grows [OF dat ok g4]
  have st: "heap ?w4 ?pin = Some (Force_input i)" "heap ?w4 ?pout = Some (out_struct null 0 0)" by simp_all
  obtain w5 where "callback_code E (ps_callback self) (ps_user_data self) ?pin ?pout ?w4 = Done s w5"
    and did: "callback_did ?w4 ?pout n (length xs) e fs w5"
    using cb growsD(1) [OF g4] st rep dat4 unfolding callback_answers_def by blast
  from dispatch_did [OF growsD(1) [OF g4] st(2) F(2) rep this(1) did triple_atoms [OF dat4] R len]
  obtain r where disp: "dispatch E R self n i ?pin ?pout ?w4 =
      Done (answer s e fs) (drop_blocks F ((set_block ?pout (Force_out r) ?w4)\<lparr>brk := brk w5\<rparr>))" by blast
  let ?w6 = "(set_block ?pout (Force_out r) ?w4)\<lparr>brk := brk w5\<rparr>"
  have "with_locals [?pin, ?pout] (dispatch E R self n i ?pin ?pout) ?w4 =
      Done (answer s e fs) (drop_blocks (set [?pin, ?pout]) (drop_blocks F ?w6))"
    by (rule with_locals_Done) (use disp F in auto)
  moreover have "drop_blocks (set [?pin, ?pout]) (drop_blocks F ?w6) = w\<lparr>brk := brk w5\<rparr>"
    using scope_ends [OF g4, where p = ?pout and b = "Force_out r" and m = "brk w5"] by simp
  moreover have i: "\<lparr>positions = positions i, atomic_numbers = atomic_numbers i, box_matrix = box_matrix i\<rparr> = i"
    by simp
  ultimately have "serve_copied E R self n p a b w = Done (answer s e fs) (w\<lparr>brk := brk w5\<rparr>)"
    using t by (simp add: serve_copied_def bnd_Done alloc_def Let_def i del: drop_blocks_drop_blocks)
  moreover have "brk w \<le> brk w5" using growsD(4) [OF g4] callback_did_brk [OF did] by simp
  ultimately show ?thesis by blast
qed

lemma serve_answers:
  assumes ok: "world_ok w" and req: "legal_request xs zs bs" and R: "builders_ok R"
    and cb: "callback_answers E (ps_callback self) (ps_user_data self) xs zs bs s e fs"
    and len: "length fs < max_list"
  shows "\<exists>m \<ge> brk w. PotentialServer_calculate E R self (request_params xs zs bs) w =
     Done (answer s e fs) (w\<lparr>brk := m\<rparr>)"
proof -
  let ?n = "ucast (list_len zs) :: usize" and ?L = "[brk w, brk w + 1, brk w + 2]"
  let ?w0 = "push (F64s bs) (push (I32s zs) (push (F64s xs) w))"
  have g0: "grows w ?w0 (set ?L)"
    and dat: "input_data (heap ?w0) ?n (brk w) (brk w + 1) (brk w + 2) xs zs bs"
    using locals_ready [OF ok req] by (simp_all add: Let_def)
  obtain m where m: "brk ?w0 \<le> m" and run: "serve_copied E R self ?n (brk w) (brk w + 1) (brk w + 2) ?w0 =
      Done (answer s e fs) (?w0\<lparr>brk := m\<rparr>)"
    using serve_copied_answers [OF growsD(1) [OF g0] dat R cb len] by blast
  have "with_locals ?L (serve_copied E R self ?n (brk w) (brk w + 1) (brk w + 2)) ?w0 =
      Done (answer s e fs) (drop_blocks (set ?L) (?w0\<lparr>brk := m\<rparr>))"
    by (rule with_locals_Done) (use run in auto)
  moreover have "drop_blocks (set ?L) (?w0\<lparr>brk := m\<rparr>) = w\<lparr>brk := m\<rparr>"
    using g0 by (simp add: grows_def drop_blocks_def)
  moreover have "collect_list xs = xs" "collect_list zs = zs" "collect_list bs = bs"
    using req by (auto intro!: collect_list_id simp: legal_request_def max_list_def)
  ultimately have "PotentialServer_calculate E R self (request_params xs zs bs) w =
      Done (answer s e fs) (w\<lparr>brk := m\<rparr>)"
    by (simp add: PotentialServer_calculate_def pry_def Let_def bnd_def alloc_def)
  moreover have "brk w \<le> m" using m by simp
  ultimately show ?thesis by blast
qed

text \<open>Callbacks that meet the contract answer with what they compute.\<close>

lemma contract_answers:
  assumes "potential_callback E f ud good en va fo" and "good xs zs bs"
  shows "callback_answers E f ud xs zs bs RGPOT_SUCCESS (en xs zs bs) (fo xs zs bs)"
  unfolding callback_answers_def
proof (intro allI impI, elim conjE)
  fix w pin pout i n p a b F
  assume "world_ok w" "heap w pin = Some (Force_input i)" "heap w pout = Some (out_struct null 0 0)"
    "input_rep (heap w) i n p a b F" "input_data (heap w) n p a b xs zs bs"
  from potential_callback.computes [OF assms(1) this assms(2)]
  obtain w' t d G where run: "callback_code E f ud pin pout w = Done RGPOT_SUCCESS w'"
    and g: "grows (set_block pout (out_struct t (en xs zs bs) (va xs zs bs)) w) w' G"
    and t: "tensor_rep (heap w') t (forces_view n d) G" "heap w' d = Some (F64s (fo xs zs bs))" by blast
  have "callback_did w pout n (length xs) (en xs zs bs) (fo xs zs bs) w'"
    unfolding callback_did_def
    by (rule exI [of _ "\<lparr>forces = t, energy = en xs zs bs, variance = va xs zs bs\<rparr>"])
      (use g t potential_callback.forces_length [OF assms] in auto)
  with run show "\<exists>w'. callback_code E f ud pin pout w = Done RGPOT_SUCCESS w' \<and>
      callback_did w pout n (length xs) (en xs zs bs) (fo xs zs bs) w'" by blast
qed

lemma served_right:
  assumes "potential_callback E f ud good en va fo" and "world_ok w" and "legal_request xs zs bs"
    and "builders_ok R" and "good xs zs bs"
  shows "\<exists>m \<ge> brk w. PotentialServer_calculate E R \<lparr>ps_callback = f, ps_user_data = ud\<rparr> (request_params xs zs bs) w =
     Done (Inr \<lparr>rb_energy = en xs zs bs, rb_forces = fo xs zs bs\<rparr>) (w\<lparr>brk := m\<rparr>)"
proof -
  have "callback_answers E (ps_callback \<lparr>ps_callback = f, ps_user_data = ud\<rparr>)
      (ps_user_data \<lparr>ps_callback = f, ps_user_data = ud\<rparr>) xs zs bs RGPOT_SUCCESS (en xs zs bs) (fo xs zs bs)"
    using contract_answers [OF assms(1,5)] by simp
  from serve_answers [OF assms(2-4) this] potential_callback.forces_length [OF assms(1,5)] assms(3)
  show ?thesis by (auto simp: answer_def legal_request_def)
qed

text \<open>
  The server computes the potential.  A well-formed request, over a configuration the
  potential is made for, to a server whose callback
  meets the contract is answered with the energy and the forces the potential
  computes for exactly that configuration, and when the method returns every
  buffer, tensor and struct it allocated, and the callback's tensor, has been
  freed: the memory of the server is as before the request.
\<close>

theorem server_computes:
  assumes "potential_callback E f ud good en va fo" and "world_ok w" and "legal_request xs zs bs"
    and "builders_ok R" and "good xs zs bs"
  shows "\<exists>m. PotentialServer_calculate E R \<lparr>ps_callback = f, ps_user_data = ud\<rparr> (request_params xs zs bs) w =
     Done (Inr \<lparr>rb_energy = en xs zs bs, rb_forces = fo xs zs bs\<rparr>) (w\<lparr>brk := m\<rparr>)"
  using served_right [OF assms] by blast

theorem server_computes_witness:
  "\<exists>m. PotentialServer_calculate test_env (lib_of silent_net) \<lparr>ps_callback = 2, ps_user_data = 0\<rparr>
     (request_params [1, 2, 3] [8] (replicate 9 0)) boot_world =
     Done (Inr \<lparr>rb_energy = 0xC045000000000000,
       rb_forces = [usize_as_f64 1, usize_as_f64 2, usize_as_f64 3]\<rparr>) (boot_world\<lparr>brk := m\<rparr>)"
proof -
  have "legal_request [1, 2, 3] [8] (replicate 9 0)" by (simp add: legal_request_def max_list_def)
  moreover have "builders_ok (lib_of silent_net)"
    by (simp add: builders_ok_def lib_of_def init_set_list_ok)
  ultimately show ?thesis
    using server_computes [OF writing_pot.potential_callback_axioms boot_world_ok, of "[1, 2, 3]" "[8]"]
    by (simp add: ramp_forces_def upt_rec)
qed

text \<open>
  Failures of the potential.  If the callback returns any status but
  \<^verbatim>\<open>RGPOT_SUCCESS\<close> on a well-formed request, the client gets the fixed error, whatever
  energy or forces the callback left, and the server's memory is as before: the
  input tensors, and the forces if the callback made any, have been freed.
\<close>

theorem server_reports_failure:
  assumes "world_ok w" and "legal_request xs zs bs" and "builders_ok R" and "s \<noteq> RGPOT_SUCCESS"
    and "callback_answers E f ud xs zs bs s e fs" and "length fs < max_list"
  shows "\<exists>m. PotentialServer_calculate E R \<lparr>ps_callback = f, ps_user_data = ud\<rparr> (request_params xs zs bs) w =
     Done (Inl (Failed ''potential callback returned an error'')) (w\<lparr>brk := m\<rparr>)"
  using serve_answers [OF assms(1-3), of E "\<lparr>ps_callback = f, ps_user_data = ud\<rparr>" s e fs] assms(4-6)
  by (auto simp: answer_def)

lemma error_callback_answers: "callback_answers failing_env f ud xs zs bs RGPOT_INVALID_PARAMETER 0 []"
  unfolding callback_answers_def
proof (intro allI impI, elim conjE)
  fix w pin pout i n p a b F
  assume ok: "world_ok w" and out: "heap w pout = Some (out_struct null 0 0)"
  have "callback_code failing_env f ud pin pout w = Done RGPOT_INVALID_PARAMETER w"
    by (simp add: failing_env_def error_callback_def exec)
  moreover have "callback_did w pout n (length xs) 0 [] w"
    unfolding callback_did_def
    by (rule exI [of _ "\<lparr>forces = null, energy = 0, variance = 0\<rparr>"], rule exI [of _ "{}"])
      (use ok out in \<open>simp add: grows_refl\<close>)
  ultimately show "\<exists>w'. callback_code failing_env f ud pin pout w = Done RGPOT_INVALID_PARAMETER w' \<and>
      callback_did w pout n (length xs) 0 [] w'" by blast
qed

theorem server_reports_failure_witness:
  "\<exists>m. PotentialServer_calculate failing_env (lib_of silent_net) \<lparr>ps_callback = 3, ps_user_data = 0\<rparr>
     (request_params [1, 2, 3] [8] (replicate 9 0)) boot_world =
     Done (Inl (Failed ''potential callback returned an error'')) (boot_world\<lparr>brk := m\<rparr>)"
proof -
  have "legal_request [1, 2, 3] [8] (replicate 9 0)" by (simp add: legal_request_def max_list_def)
  moreover have "builders_ok (lib_of silent_net)"
    by (simp add: builders_ok_def lib_of_def init_set_list_ok)
  ultimately show ?thesis
    by (rule server_reports_failure [OF boot_world_ok _ _ _ error_callback_answers]) (simp_all add: max_list_def)
qed

section \<open>Requests of the wrong size\<close>

text \<open>
  A callback that reads all the positions its input declares: three per atom, so
  a buffer with fewer makes it read out of bounds.
\<close>

definition reads_declared :: "'x env_scheme \<Rightarrow> fnptr \<Rightarrow> ptr \<Rightarrow> bool" where
  "reads_declared E f ud \<longleftrightarrow>
     (\<forall>w pin pout i n p a b F. heap w pin = Some (Force_input i) \<and> input_rep (heap w) i n p a b F \<and>
        f64_slice p (3 * unat n) w = Undefined \<longrightarrow> callback_code E f ud pin pout w = Undefined)"

text \<open>A callback that runs into undefined behaviour takes the method with it.\<close>

lemma serve_undefined:
  assumes ok: "world_ok w" and len: "length zs < max_list" "length xs < max_list"
    and bad: "\<And>w pin pout i n p a b F. world_ok w \<Longrightarrow> heap w pin = Some (Force_input i) \<Longrightarrow>
      heap w pout = Some (out_struct null 0 0) \<Longrightarrow> input_rep (heap w) i n p a b F \<Longrightarrow> unat n = length zs \<Longrightarrow>
      heap w p = Some (F64s xs) \<Longrightarrow> heap w a = Some (I32s zs) \<Longrightarrow> heap w b = Some (F64s (collect_list bs)) \<Longrightarrow>
      callback_code E f ud pin pout w = Undefined"
  shows "PotentialServer_calculate E R \<lparr>ps_callback = f, ps_user_data = ud\<rparr> (request_params xs zs bs) w =
     Undefined"
proof -
  let ?self = "\<lparr>ps_callback = f, ps_user_data = ud\<rparr>"
  let ?n = "ucast (list_len zs) :: usize"
  let ?w0 = "push (F64s (collect_list bs)) (push (I32s zs) (push (F64s xs) w))"
  have ok0: "world_ok ?w0" by (intro world_ok_push ok)
  obtain i w1 w2 w3 F where t: "rgpot_tensor_cpu_f64_2d E (brk w) ?n 3 ?w0 = Done (positions i) w1"
     "rgpot_tensor_cpu_i32_1d E (Suc (brk w)) ?n w1 = Done (atomic_numbers i) w2"
     "rgpot_tensor_cpu_f64_matrix3 E (Suc (Suc (brk w))) w2 = Done (box_matrix i) w3"
    and args: "let w4 = push (out_struct null 0 0) (push (Force_input i) w3) in
        grows ?w0 w4 (F \<union> {brk w3, Suc (brk w3)}) \<and>
        input_rep (heap w4) i ?n (brk w) (Suc (brk w)) (Suc (Suc (brk w))) F"
    using args_ready [OF ok0] by blast
  let ?w4 = "push (out_struct null 0 0) (push (Force_input i) w3)"
  from args have g: "grows ?w0 ?w4 (F \<union> {brk w3, Suc (brk w3)})"
    and rep: "input_rep (heap ?w4) i ?n (brk w) (Suc (brk w)) (Suc (Suc (brk w))) F" by (simp_all add: Let_def)
  have n: "unat ?n = length zs"
    using len by (simp add: max_list_def list_len_def unsigned_ucast_eq take_bit_nat_eq_self)
  have st: "heap ?w4 (brk w3) = Some (Force_input i)" "heap ?w4 (Suc (brk w3)) = Some (out_struct null 0 0)" by simp_all
  have "callback_code E f ud (brk w3) (Suc (brk w3)) ?w4 = Undefined"
    by (rule bad [OF growsD(1) [OF g] st rep n]) (rule grows_keeps [OF g ok0]; simp)+
  moreover have i: "\<lparr>positions = positions i, atomic_numbers = atomic_numbers i, box_matrix = box_matrix i\<rparr> = i"
    by simp
  ultimately have "serve_copied E R ?self ?n (brk w) (Suc (brk w)) (Suc (Suc (brk w))) ?w0 = Undefined"
    using t by (simp add: serve_copied_def bnd_Done alloc_def Let_def i with_locals_def dispatch_def
        bnd_def [where w = ?w4] extern_C_def)
  with len show ?thesis
    by (simp add: PotentialServer_calculate_def pry_def Let_def bnd_def alloc_def with_locals_def collect_list_id)
qed

text \<open>
  C11: The server trusts the length of the position list.  The atom count is taken from the
  list of atomic numbers alone; a request with fewer than three coordinates per
  atomic number is passed on as if it were complete, and every callback that reads
  the positions it was promised reads out of bounds.  The behaviour is undefined,
  at the choice of the remote client.
\<close>

theorem short_positions_undefined:
  assumes ok: "world_ok w" and reads: "reads_declared E f ud"
    and short: "length xs < 3 * length zs" and len: "length zs < max_list" "length xs < max_list"
  shows "PotentialServer_calculate E R \<lparr>ps_callback = f, ps_user_data = ud\<rparr> (request_params xs zs bs) w =
     Undefined"
proof (rule serve_undefined [OF ok len])
  fix w' :: world and pin pout i n p a b F
  assume pin: "heap w' pin = Some (Force_input i)" and rep: "input_rep (heap w') i n p a b F"
    and "unat n = length zs" and "heap w' p = Some (F64s xs)"
  then have "f64_slice p (3 * unat n) w' = Undefined" using short by (simp add: f64_slice_short)
  with reads pin rep show "callback_code E f ud pin pout w' = Undefined"
    unfolding reads_declared_def by blast
qed

text \<open>A callback that does nothing but read its positions.\<close>

definition reading_callback :: "ptr \<Rightarrow> ptr \<Rightarrow> ptr \<Rightarrow> rgpot_status_t comp" where
  "reading_callback ud input output =
     bnd (load_input input) (\<lambda>inp.
     bnd (n_atoms inp) (\<lambda>on. case on of
         None \<Rightarrow> ret RGPOT_INVALID_PARAMETER
       | Some n \<Rightarrow>
           bnd (load_managed (positions inp)) (\<lambda>m.
           bnd (f64_slice (t_data (dl_tensor m)) (3 * unat n)) (\<lambda>_. ret RGPOT_SUCCESS))))"

definition reading_env :: env where
  "reading_env = plain_env\<lparr>callback_code := \<lambda>_. reading_callback\<rparr>"

lemma reading_env_reads: "reads_declared reading_env f ud"
  unfolding reads_declared_def
proof (intro allI impI, elim conjE)
  fix w pin pout i n p a b F
  assume pin: "heap w pin = Some (Force_input i)" and rep: "input_rep (heap w) i n p a b F"
    and bad: "f64_slice p (3 * unat n) w = Undefined"
  obtain G where "tensor_rep (heap w) (positions i)
      \<lparr>kind = Borrowed, buffer = p, elem = dtype_f64, extents = [n, 3]\<rparr> G"
    using input_rep_positions(1) [OF rep] by blast
  from tensor_rep_load [OF this] bad pin n_atoms_rep [OF rep]
  show "callback_code reading_env f ud pin pout w = Undefined"
    by (auto simp: reading_env_def reading_callback_def bnd_def load_input_def)
qed

theorem short_positions_undefined_witness:
  "PotentialServer_calculate reading_env (lib_of silent_net) \<lparr>ps_callback = 1, ps_user_data = 0\<rparr>
     (request_params [1, 2, 3] [1, 8] (replicate 9 0)) boot_world = Undefined"
  by (rule short_positions_undefined [OF boot_world_ok reading_env_reads]) (simp_all add: max_list_def)

section \<open>The server loop\<close>

text \<open>
  What the network can do to a listening server: a connection is accepted, an
  accept fails, or a request arrives on one of the connections.  The method that
  serves a request has no await point, so requests are served one at a time and
  only events interleave.
\<close>

datatype net_event =
    Accepted nat
  | Accept_failed string
  | Request nat calculate_params

text \<open>
  The runtime and the listener, the connections (\<open>None\<close> once a panic has ended the
  task of one), the answers given so far, and the memory; or the status the function
  has returned; or the end of the process.
\<close>

datatype server_config =
    Serving nat nat "PotentialServer option list"
      "(nat \<times> calculate_params \<times> (capnp_error + result_builder)) list" world
  | Returned rgpot_status_t world
  | Died

definition finish :: "rgpot_status_t comp \<Rightarrow> world \<Rightarrow> server_config" where
  "finish m w = (case extern_C (catch_unwind m) w of Done s w' \<Rightarrow> Returned s w' | _ \<Rightarrow> Died)"

definition fail_status :: "string \<Rightarrow> rgpot_status_t \<Rightarrow> rgpot_status_t comp" where
  "fail_status msg s = bnd (set_last_error msg) (\<lambda>_. ret s)"

text \<open>From the entry of the function to the listening socket: a status, or runtime and listener.\<close>

definition server_listen :: "rpc_lib \<Rightarrow> ptr \<Rightarrow> ptr \<Rightarrow> u16 \<Rightarrow> (rgpot_status_t + nat \<times> nat) comp" where
  "server_listen R pot host port =
     (if pot = null
      then bnd (fail_status ''rgpot_rpc_server_start: pot is NULL'' RGPOT_INVALID_PARAMETER) (\<lambda>s. ret (Inl s))
      else if host = null
      then bnd (fail_status ''rgpot_rpc_server_start: host is NULL'' RGPOT_INVALID_PARAMETER) (\<lambda>s. ret (Inl s))
      else bnd (load_pot pot) (\<lambda>_.
      bnd (load_cstr host) (\<lambda>hs. case to_str hs of
          Inl e \<Rightarrow> bnd (fail_status (''invalid host string: '' @ e) RGPOT_INVALID_PARAMETER) (\<lambda>s. ret (Inl s))
        | Inr host_str \<Rightarrow>
      let ad = show_addr host_str port in
      bnd (runtime_new R) (\<lambda>r. case r of
          Inl e \<Rightarrow> bnd (fail_status (''failed to create runtime: '' @ e) RGPOT_INTERNAL_ERROR) (\<lambda>s. ret (Inl s))
        | Inr rt \<Rightarrow>
      bnd (tcp_bind R ad) (\<lambda>l. case l of
          Inl e \<Rightarrow> bnd (fail_status (''failed to bind '' @ ad @ '': '' @ e) RGPOT_RPC_ERROR) (\<lambda>s.
                   bnd (runtime_drop R rt) (\<lambda>_. ret (Inl s)))
        | Inr listener \<Rightarrow> ret (Inr (rt, listener)))))))"

definition server_start :: "rpc_lib \<Rightarrow> ptr \<Rightarrow> ptr \<Rightarrow> u16 \<Rightarrow> world \<Rightarrow> server_config" where
  "server_start R pot host port w = (case server_listen R pot host port w of
      Done (Inl s) w' \<Rightarrow> Returned s w'
    | Done (Inr (rt, listener)) w' \<Rightarrow> Serving rt listener [] [] w'
    | Panicked e w' \<Rightarrow> finish (panic e) w'
    | Aborted \<Rightarrow> Died
    | Undefined \<Rightarrow> Died)"

text \<open>
  A new connection: the socket option is tried, its failure ignored, and the callback
  and the user data are copied out of the handle, which must still be live.
\<close>

definition accept_connection :: "rpc_lib \<Rightarrow> ptr \<Rightarrow> nat \<Rightarrow> PotentialServer comp" where
  "accept_connection R pot stream =
     bnd (set_nodelay R stream True) (\<lambda>_.
     bnd (load_pot pot) (\<lambda>pot_ref.
     ret \<lparr>ps_callback = callback pot_ref, ps_user_data = user_data pot_ref\<rparr>))"

definition serve_request ::
    "'x env_scheme \<Rightarrow> rpc_lib \<Rightarrow> PotentialServer \<Rightarrow> nat \<Rightarrow> calculate_params
      \<Rightarrow> nat \<Rightarrow> nat \<Rightarrow> PotentialServer option list
      \<Rightarrow> (nat \<times> calculate_params \<times> (capnp_error + result_builder)) list \<Rightarrow> world \<Rightarrow> server_config" where
  "serve_request E R srv k params rt l cs log w =
     (case PotentialServer_calculate E R srv params w of
        Done reply w' \<Rightarrow> Serving rt l cs (log @ [(k, params, reply)]) w'
      | Panicked e w' \<Rightarrow> Serving rt l (cs[k := None]) log w'
      | Aborted \<Rightarrow> Died
      | Undefined \<Rightarrow> Died)"

fun server_event ::
    "'x env_scheme \<Rightarrow> rpc_lib \<Rightarrow> ptr \<Rightarrow> server_config \<Rightarrow> net_event \<Rightarrow> server_config" where
  "server_event E R pot (Serving rt l cs log w) (Accepted stream) =
     (case accept_connection R pot stream w of
        Done srv w' \<Rightarrow> Serving rt l (cs @ [Some srv]) log w'
      | Panicked e w' \<Rightarrow> finish (bnd (runtime_drop R rt) (\<lambda>_. panic e)) w'
      | Aborted \<Rightarrow> Died
      | Undefined \<Rightarrow> Died)"
| "server_event E R pot (Serving rt l cs log w) (Accept_failed e) =
     finish (bnd (fail_status (''accept failed: '' @ e) RGPOT_RPC_ERROR) (\<lambda>s.
             bnd (runtime_drop R rt) (\<lambda>_. ret s))) w"
| "server_event E R pot (Serving rt l cs log w) (Request k params) =
     (if k < length cs
      then (case cs ! k of
              Some srv \<Rightarrow> serve_request E R srv k params rt l cs log w
            | None \<Rightarrow> Serving rt l cs log w)
      else Serving rt l cs log w)"
| "server_event E R pot (Returned s w) ev = Returned s w"
| "server_event E R pot Died ev = Died"

text \<open>The function on a finite sequence of events: where it stands after them.\<close>

definition rgpot_rpc_server_start ::
    "'x env_scheme \<Rightarrow> rpc_lib \<Rightarrow> ptr \<Rightarrow> ptr \<Rightarrow> u16 \<Rightarrow> net_event list \<Rightarrow> world \<Rightarrow> server_config" where
  "rgpot_rpc_server_start E R pot host port evs w =
     foldl (server_event E R pot) (server_start R pot host port w) evs"




section \<open>What the server guarantees\<close>

definition quiet_server :: "rpc_lib \<Rightarrow> bool" where
  "quiet_server R \<longleftrightarrow>
     (\<exists>r. runtime_new R = ret r) \<and> (\<forall>a. \<exists>r. tcp_bind R a = ret r) \<and>
     (\<forall>s b. \<exists>r. set_nodelay R s b = ret r) \<and> (\<forall>t. runtime_drop R t = ret ()) \<and> builders_ok R"

lemma quiet_lib_of_server: "quiet_server (lib_of N)"
  by (auto simp: quiet_server_def lib_of_def builders_ok_def init_set_list_ok)

text \<open>Requests of legal size, over configurations the potential is made for.\<close>

definition legal_event :: "(f64 list \<Rightarrow> i32 list \<Rightarrow> f64 list \<Rightarrow> bool) \<Rightarrow> net_event \<Rightarrow> bool" where
  "legal_event good ev = (case ev of
      Request _ params \<Rightarrow> params_error params \<noteq> None \<or>
        (\<exists>xs zs bs. params = request_params xs zs bs \<and> legal_request xs zs bs \<and> good xs zs bs)
    | _ \<Rightarrow> True)"

text \<open>The right answer to a request.\<close>

definition right_answer ::
    "(f64 list \<Rightarrow> i32 list \<Rightarrow> f64 list \<Rightarrow> f64) \<Rightarrow> (f64 list \<Rightarrow> i32 list \<Rightarrow> f64 list \<Rightarrow> f64 list)
      \<Rightarrow> calculate_params \<Rightarrow> capnp_error + result_builder" where
  "right_answer en fo params = (case params_error params of
      Some e \<Rightarrow> Inl e
    | None \<Rightarrow> (let fip = projr (projr params);
                   xs = projr (fr_pos fip); zs = projr (fr_atmnrs fip); bs = projr (fr_box fip)
               in Inr \<lparr>rb_energy = en xs zs bs, rb_forces = fo xs zs bs\<rparr>))"


lemma fail_status_then: "world_ok w \<Longrightarrow> bnd (fail_status msg s) k w = k s (record_error msg w)"
  by (simp add: fail_status_def bnd_assoc bnd_Done set_last_error_eq)


text \<open>Where the function stands before the first event, by what went wrong.\<close>

definition startup ::
    "string + nat \<Rightarrow> string + nat \<Rightarrow> ptr \<Rightarrow> ptr \<Rightarrow> u16 \<Rightarrow> string \<Rightarrow> (rgpot_status_t \<times> string) + nat \<times> nat" where
  "startup r l pot host port hs =
     (if pot = null then Inl (RGPOT_INVALID_PARAMETER, ''rgpot_rpc_server_start: pot is NULL'')
      else if host = null then Inl (RGPOT_INVALID_PARAMETER, ''rgpot_rpc_server_start: host is NULL'')
      else case to_str hs of
        Inl e \<Rightarrow> Inl (RGPOT_INVALID_PARAMETER, ''invalid host string: '' @ e)
      | Inr _ \<Rightarrow> (case r of
          Inl e \<Rightarrow> Inl (RGPOT_INTERNAL_ERROR, ''failed to create runtime: '' @ e)
        | Inr rt \<Rightarrow> (case l of
            Inl e \<Rightarrow> Inl (RGPOT_RPC_ERROR, ''failed to bind '' @ show_addr hs port @ '': '' @ e)
          | Inr li \<Rightarrow> Inr (rt, li))))"

lemma server_start_cases:
  assumes ok: "world_ok w" and pot: "pot = null \<or> heap w pot = Some (Potential_impl i)"
    and host: "host = null \<or> heap w host = Some (Cstr hs)"
    and lib: "runtime_new R = ret r" "tcp_bind R (show_addr hs port) = ret l" "\<And>t. runtime_drop R t = ret ()"
  shows "server_start R pot host port w = (case startup r l pot host port hs of
      Inl (s, msg) \<Rightarrow> Returned s (record_error msg w)
    | Inr (rt, li) \<Rightarrow> Serving rt li [] [] w)"
proof -
  have "server_listen R pot host port w = (case startup r l pot host port hs of
      Inl (s, msg) \<Rightarrow> Done (Inl s) (record_error msg w)
    | Inr (rt, li) \<Rightarrow> Done (Inr (rt, li)) w)"
    using pot host lib to_str_Inr [of hs]
    by (cases "to_str hs")
      (auto simp: server_listen_def startup_def load_pot_def load_cstr_def fail_status_then [OF ok]
        bnd_def [of "load_pot pot"] bnd_def [of "load_cstr host"] ret_def Let_def split: sum.split)
  then show ?thesis by (simp add: server_start_def split: sum.split prod.split)
qed

lemma startup_status: "startup r l pot host port hs = Inl (s, msg) \<Longrightarrow> s \<noteq> RGPOT_SUCCESS"
  by (auto simp: startup_def split: if_splits sum.splits)


lemma accept_step:
  assumes "quiet_server R"
    and "heap w pot = Some (Potential_impl \<lparr>callback = f, user_data = ud, free_fn = ff\<rparr>)"
  shows "server_event E R pot (Serving rt l cs log w) (Accepted stream) =
     Serving rt l (cs @ [Some \<lparr>ps_callback = f, ps_user_data = ud\<rparr>]) log w"
proof -
  obtain r where "set_nodelay R stream True = ret r" using assms(1) unfolding quiet_server_def by blast
  with assms(2) show ?thesis by (simp add: accept_connection_def load_pot_def bnd_def ret_def)
qed



lemma right_answer_served:
  assumes con: "potential_callback E f ud good en va fo" and ok: "world_ok w" and R: "builders_ok R"
    and ev: "legal_event good (Request k params)"
  shows "\<exists>m \<ge> brk w. PotentialServer_calculate E R \<lparr>ps_callback = f, ps_user_data = ud\<rparr> params w =
     Done (right_answer en fo params) (w\<lparr>brk := m\<rparr>)"
proof (cases "params_error params")
  case (Some e)
  then have "PotentialServer_calculate E R \<lparr>ps_callback = f, ps_user_data = ud\<rparr> params w = Done (Inl e) w"
    by (rule malformed_answer)
  with Some show ?thesis by (intro exI [of _ "brk w"]) (simp add: right_answer_def)
next
  case None
  with ev obtain xs zs bs where p: "params = request_params xs zs bs" "legal_request xs zs bs" "good xs zs bs"
    by (auto simp: legal_event_def)
  from served_right [OF con ok p(2) R p(3)] p(1) show ?thesis by (simp add: right_answer_def params_error_def)
qed

lemma request_step:
  assumes con: "potential_callback E f ud good en va fo" and ok: "world_ok w" and R: "quiet_server R"
    and ev: "legal_event good (Request k params)"
    and k: "k < length cs" "cs ! k = Some \<lparr>ps_callback = f, ps_user_data = ud\<rparr>"
  shows "\<exists>m \<ge> brk w. server_event E R pot (Serving rt l cs log w) (Request k params) =
     Serving rt l cs (log @ [(k, params, right_answer en fo params)]) (w\<lparr>brk := m\<rparr>)"
proof -
  have "builders_ok R" using R by (simp add: quiet_server_def)
  from right_answer_served [OF con ok this ev] k show ?thesis by (auto simp: serve_request_def)
qed



definition server_world :: world where
  "server_world = push (Cstr ''localhost'')
     (push (Potential_impl \<lparr>callback = 2, user_data = null, free_fn = None\<rparr>) boot_world)"


section \<open>Every request is answered\<close>

text \<open>
  The server as its clients see it: the number of connections so far and the answers,
  each request on an open connection answered when it arrives.
\<close>

fun ideal_event ::
    "(calculate_params \<Rightarrow> capnp_error + result_builder)
      \<Rightarrow> nat \<times> (nat \<times> calculate_params \<times> (capnp_error + result_builder)) list \<Rightarrow> net_event
      \<Rightarrow> nat \<times> (nat \<times> calculate_params \<times> (capnp_error + result_builder)) list" where
  "ideal_event ans (n, log) (Accepted stream) = (Suc n, log)"
| "ideal_event ans (n, log) (Request k params) =
     (if k < n then (n, log @ [(k, params, ans params)]) else (n, log))"
| "ideal_event ans (n, log) (Accept_failed e) = (n, log)"

definition ideal_server where
  "ideal_server ans evs = foldl (ideal_event ans) (0, []) evs"

abbreviation accept_fails :: "net_event \<Rightarrow> bool" where
  "accept_fails ev \<equiv> (\<exists>e. ev = Accept_failed e)"

lemma ideal_simulation:
  assumes con: "potential_callback E f ud good en va fo" and R: "quiet_server R"
    and "world_ok w" "heap w pot = Some (Potential_impl \<lparr>callback = f, user_data = ud, free_fn = ff\<rparr>)"
    and "list_all (legal_event good) evs" "\<not> list_ex accept_fails evs"
  shows "\<exists>m \<ge> brk w. foldl (server_event E R pot)
       (Serving rt l (replicate n (Some \<lparr>ps_callback = f, ps_user_data = ud\<rparr>)) log w) evs =
     (case foldl (ideal_event (right_answer en fo)) (n, log) evs of (n', log') \<Rightarrow>
        Serving rt l (replicate n' (Some \<lparr>ps_callback = f, ps_user_data = ud\<rparr>)) log' (w\<lparr>brk := m\<rparr>))"
  using assms(3-6)
proof (induction evs arbitrary: n log w)
  case Nil
  then show ?case by (intro exI [of _ "brk w"]) simp
next
  case (Cons ev evs)
  let ?srv = "\<lparr>ps_callback = f, ps_user_data = ud\<rparr>"
  have one: "\<exists>m \<ge> brk w. server_event E R pot (Serving rt l (replicate n (Some ?srv)) log w) ev =
      (case ideal_event (right_answer en fo) (n, log) ev of (n', log') \<Rightarrow>
        Serving rt l (replicate n' (Some ?srv)) log' (w\<lparr>brk := m\<rparr>))"
  proof (cases ev)
    case (Accepted stream)
    with accept_step [OF R Cons.prems(2), of E] show ?thesis
      by (intro exI [of _ "brk w"]) (simp add: replicate_append_same [symmetric])
  next
    case (Request k params)
    then have "legal_event good (Request k params)" using Cons.prems(3) by simp
    from request_step [OF con Cons.prems(1) R this, of "replicate n (Some ?srv)" pot rt l log] Request
    show ?thesis by (cases "k < n") (auto intro: exI [of _ "brk w"])
  qed (use Cons.prems(4) in simp)
  obtain n1 log1 where i: "ideal_event (right_answer en fo) (n, log) ev = (n1, log1)" by force
  with one obtain m where m: "brk w \<le> m" and st: "server_event E R pot (Serving rt l (replicate n (Some ?srv)) log w) ev =
      Serving rt l (replicate n1 (Some ?srv)) log1 (w\<lparr>brk := m\<rparr>)" by auto
  have "world_ok (w\<lparr>brk := m\<rparr>)" using Cons.prems(1) m by (rule world_ok_higher)
  from Cons.IH [OF this, of n1 log1] Cons.prems(2-4) obtain m' where "m \<le> m'" and
    "foldl (server_event E R pot) (Serving rt l (replicate n1 (Some ?srv)) log1 (w\<lparr>brk := m\<rparr>)) evs =
     (case foldl (ideal_event (right_answer en fo)) (n1, log1) evs of (n', log') \<Rightarrow>
        Serving rt l (replicate n' (Some ?srv)) log' (w\<lparr>brk := m'\<rparr>))" by auto
  with st i m show ?case by (intro exI [of _ m']) (simp add: split_beta)
qed

text \<open>
  C4: Every request is answered.  A server that has started, with a callback that meets the
  contract, behaves like the ideal one as long as no accept fails: after any sequence of
  connections and such requests it is still serving, has opened every
  connection, and its answers are exactly the right answers to the requests on open
  connections, one each and in the order of arrival.
\<close>

theorem server_answers:
  assumes "potential_callback E f ud good en va fo" and "world_ok w" and "quiet_server R"
    and "heap w pot = Some (Potential_impl \<lparr>callback = f, user_data = ud, free_fn = ff\<rparr>)"
    and "server_start R pot host port w = Serving rt l [] [] w"
    and "list_all (legal_event good) evs" and "\<not> list_ex accept_fails evs"
  shows "\<exists>m \<ge> brk w. rgpot_rpc_server_start E R pot host port evs w =
     (case ideal_server (right_answer en fo) evs of (n, log) \<Rightarrow>
        Serving rt l (replicate n (Some \<lparr>ps_callback = f, ps_user_data = ud\<rparr>)) log (w\<lparr>brk := m\<rparr>))"
  using ideal_simulation [OF assms(1,3,2,4,6,7), where n = 0 and log = "[]"] assms(5)
  by (simp add: rgpot_rpc_server_start_def ideal_server_def)

theorem server_answers_witness:
  "\<exists>cs w. rgpot_rpc_server_start test_env (lib_of silent_net) 1 2 80
     [Accepted 7, Request 0 (Inl (Failed ''truncated'')), Request 3 (Inl (Failed ''late'')), Accepted 8,
      Request 1 (request_params [1, 2, 3] [8] (replicate 9 0))] server_world =
     Serving 0 0 cs
      [(0, Inl (Failed ''truncated''), Inl (Failed ''truncated'')),
       (1, request_params [1, 2, 3] [8] (replicate 9 0),
        Inr \<lparr>rb_energy = 0xC045000000000000, rb_forces = ramp_forces [1, 2, 3] [8] (replicate 9 0)\<rparr>)] w"
proof -
  let ?evs = "[Accepted 7, Request 0 (Inl (Failed ''truncated'')), Request 3 (Inl (Failed ''late'')), Accepted 8,
      Request 1 (request_params [1, 2, 3] [8] (replicate 9 0))]"
  have ok: "world_ok server_world" unfolding server_world_def by (intro world_ok_push boot_world_ok)
  have h: "heap server_world 1 = Some (Potential_impl \<lparr>callback = 2, user_data = null, free_fn = None\<rparr>)"
    by (simp add: server_world_def boot_world_def)
  have "to_str ''localhost'' = Inr ''localhost''" by (rule to_str_ascii) auto
  then have st: "server_start (lib_of silent_net) 1 2 80 server_world = Serving 0 0 [] [] server_world"
    using server_start_cases [OF ok, of 1 _ 2 "''localhost''" "lib_of silent_net" "Inr 0" 80 "Inr 0"]
    by (simp add: startup_def lib_of_def server_world_def boot_world_def)
  have "legal_request [1, 2, 3] [8] (replicate 9 0)" by (simp add: legal_request_def max_list_def)
  then have ev: "list_all (legal_event (\<lambda>_ _ _. True)) ?evs" "\<not> list_ex accept_fails ?evs"
    by (auto simp: legal_event_def params_error_def)
  from server_answers [OF writing_pot.potential_callback_axioms ok quiet_lib_of_server h st ev]
  show ?thesis by (auto simp: ideal_server_def right_answer_def params_error_def)
qed

section \<open>How the function returns\<close>

lemma returned_stays: "foldl (server_event E R pot) (Returned s w) evs = Returned s w"
  by (induction evs) simp_all

text \<open>
  Starting the server.  The function checks, in this order, the handle, the host pointer,
  the host's encoding, the runtime and the socket; at the first that fails it returns
  that check's status and message and is not affected by anything the network
  does afterwards.  Otherwise it is listening, with no connection, in unchanged memory.
\<close>

theorem server_startup:
  assumes "world_ok w" and "pot = null \<or> heap w pot = Some (Potential_impl i)"
    and "host = null \<or> heap w host = Some (Cstr hs)"
    and "runtime_new R = ret r" and "tcp_bind R (show_addr hs port) = ret l" and "\<And>t. runtime_drop R t = ret ()"
  shows "case startup r l pot host port hs of
      Inl (s, msg) \<Rightarrow> s \<noteq> RGPOT_SUCCESS \<and>
        (\<forall>evs. rgpot_rpc_server_start E R pot host port evs w = Returned s (record_error msg w))
    | Inr (rt, li) \<Rightarrow> rgpot_rpc_server_start E R pot host port [] w = Serving rt li [] [] w"
  using server_start_cases [OF assms] startup_status [of r l pot host port hs]
  by (auto simp: rgpot_rpc_server_start_def returned_stays split: sum.split)

theorem server_startup_witness:
  "\<exists>w. rgpot_rpc_server_start test_env (lib_of silent_net) 1 0 80 [Accepted 1] server_world =
     Returned RGPOT_INVALID_PARAMETER w \<and>
     messages w 0 = ''rgpot_rpc_server_start: host is NULL''"
proof -
  let ?msg = "''rgpot_rpc_server_start: host is NULL''" and ?R = "lib_of silent_net"
  have ok: "world_ok server_world" unfolding server_world_def by (intro world_ok_push boot_world_ok)
  have h: "heap server_world 1 = Some (Potential_impl \<lparr>callback = 2, user_data = null, free_fn = None\<rparr>)"
    by (simp add: server_world_def boot_world_def)
  have R: "runtime_new ?R = ret (Inr 0)" "tcp_bind ?R (show_addr [] 80) = ret (Inr 0)"
    "runtime_drop ?R t = ret ()" for t by (simp_all add: lib_of_def)
  from server_startup [OF ok disjI2 [OF h] disjI1 [OF refl] R, of test_env]
  have "rgpot_rpc_server_start test_env ?R 1 0 80 [Accepted 1] server_world =
      Returned RGPOT_INVALID_PARAMETER (record_error ?msg server_world)"
    by (simp add: startup_def)
  moreover have "thread server_world = 0" by (simp add: server_world_def boot_world_def)
  ultimately show ?thesis
    using err.fail_text [OF ok, of ?msg] by (simp add: stored_message_def nul_free_def)
qed

text \<open>
  The end of the server.  A failing accept ends a serving server with
  \<^verbatim>\<open>RGPOT_RPC_ERROR\<close> and the operating system's error as message, whatever
  connections are open and whatever would come next; memory outside the error
  slot is as it was.
\<close>

theorem accept_failure_ends:
  assumes "rgpot_rpc_server_start E R pot host port evs w = Serving rt l cs log w'" and ok: "world_ok w'"
    and drp: "runtime_drop R rt = ret ()"
  shows "rgpot_rpc_server_start E R pot host port (evs @ Accept_failed e # evs') w =
       Returned RGPOT_RPC_ERROR (record_error (''accept failed: '' @ e) w') \<and>
     core_mem (record_error (''accept failed: '' @ e) w') = core_mem w'"
proof
  have "server_event E R pot (Serving rt l cs log w') (Accept_failed e) =
      Returned RGPOT_RPC_ERROR (record_error (''accept failed: '' @ e) w')"
    using drp by (simp add: finish_def fail_status_then [OF ok] catch_unwind_def extern_C_def ret_def)
  with assms(1) show "rgpot_rpc_server_start E R pot host port (evs @ Accept_failed e # evs') w =
       Returned RGPOT_RPC_ERROR (record_error (''accept failed: '' @ e) w')"
    by (simp add: rgpot_rpc_server_start_def returned_stays)
qed (rule err.rest_after [OF ok])

theorem accept_failure_ends_witness:
  "\<exists>w. rgpot_rpc_server_start test_env (lib_of silent_net) 1 2 80
     [Accepted 7, Accept_failed ''too many open files'', Accepted 8] server_world = Returned RGPOT_RPC_ERROR w"
proof -
  have ok: "world_ok server_world" unfolding server_world_def by (intro world_ok_push boot_world_ok)
  have "to_str ''localhost'' = Inr ''localhost''" by (rule to_str_ascii) auto
  then have "rgpot_rpc_server_start test_env (lib_of silent_net) 1 2 80 [Accepted 7] server_world =
      Serving 0 0 [Some \<lparr>ps_callback = 2, ps_user_data = 0\<rparr>] [] server_world"
    using server_start_cases [OF ok, of 1 _ 2 "''localhost''" "lib_of silent_net" "Inr 0" 80 "Inr 0"]
    by (simp add: rgpot_rpc_server_start_def startup_def lib_of_def server_world_def boot_world_def
        accept_connection_def silent_net_def exec)
  from accept_failure_ends [OF this ok, of "''too many open files''" "[Accepted 8]"]
  show ?thesis by (simp add: lib_of_def)
qed

end
