(* ===== verification/Rgpot_Soundness.thy ===== *)
theory Rgpot_Soundness
  imports Rgpot_Client
begin

text \<open>
  Soundness of the C interface for arbitrary callers: whatever pointers a program passes,
  on whatever threads, every call that does not run into undefined behaviour keeps the
  machine's invariant, never touches the error message of another thread and never
  turns other memory into one.  The proofs follow the structure of the code: one rule
  per primitive and one per way of composing them.
\<close>

section \<open>Sound computations\<close>

definition evolves :: "world \<Rightarrow> world \<Rightarrow> bool" where
  "evolves w w' \<longleftrightarrow>
     world_ok w' \<and> thread w' = thread w \<and> brk w \<le> brk w' \<and>
     (\<forall>p < brk w. \<not> is_cstr (heap w p) \<longrightarrow> \<not> is_cstr (heap w' p)) \<and>
     (\<forall>t. t \<noteq> thread w \<longrightarrow> messages w' t = messages w t)"

fun ends_in :: "(world \<Rightarrow> bool) \<Rightarrow> 'a outcome \<Rightarrow> bool" where
  "ends_in P (Done x w) = P w"
| "ends_in P (Panicked e w) = P w"
| "ends_in P Aborted = True"
| "ends_in P Undefined = True"

definition sound :: "'a comp \<Rightarrow> bool" where
  "sound m \<longleftrightarrow> (\<forall>w. world_ok w \<longrightarrow> ends_in (evolves w) (m w))"

text \<open>Sound provided that the block at \<open>p\<close>, if it is still live, is not a C string.\<close>

definition sound_at :: "ptr \<Rightarrow> 'a comp \<Rightarrow> bool" where
  "sound_at p m \<longleftrightarrow>
     (\<forall>w. world_ok w \<and> p < brk w \<and> \<not> is_cstr (heap w p) \<longrightarrow> ends_in (evolves w) (m w))"

named_theorems sound_rules

lemma evolves_refl: "world_ok w \<Longrightarrow> evolves w w"
  by (simp add: evolves_def)

lemma evolves_trans: "evolves w w1 \<Longrightarrow> evolves w1 w2 \<Longrightarrow> evolves w w2"
  unfolding evolves_def by (metis order.strict_trans2 order.trans)

lemma ends_in_mono: "ends_in P r \<Longrightarrow> (\<And>w. P w \<Longrightarrow> Q w) \<Longrightarrow> ends_in Q r"
  by (cases r) auto

lemma soundD: "sound m \<Longrightarrow> world_ok w \<Longrightarrow> ends_in (evolves w) (m w)"
  by (simp add: sound_def)

lemma ends_in_bnd:
  assumes "ends_in (evolves w) (m w)" and "\<And>x w'. evolves w w' \<Longrightarrow> ends_in (evolves w') (k x w')"
  shows "ends_in (evolves w) (bnd m k w)"
proof (cases "m w")
  case (Done x w')
  with assms(1) have "evolves w w'" by simp
  with assms(2) [of w' x] Done show ?thesis
    by (auto simp: bnd_def intro: ends_in_mono evolves_trans)
qed (use assms(1) in \<open>simp_all add: bnd_def\<close>)

section \<open>Composition\<close>

lemma sound_bnd [sound_rules]: "sound m \<Longrightarrow> (\<And>x. sound (k x)) \<Longrightarrow> sound (bnd m k)"
  unfolding sound_def by (blast intro: ends_in_bnd dest: evolves_def [THEN iffD1])

lemma sound_at_bnd: "sound m \<Longrightarrow> (\<And>x. sound_at p (k x)) \<Longrightarrow> sound_at p (bnd m k)"
  unfolding sound_def sound_at_def
  by (intro allI impI ends_in_bnd) (auto simp: evolves_def)

lemma sound_ret [sound_rules]: "sound (ret x)"
  by (simp add: sound_def ret_def evolves_refl)

lemma sound_panic [sound_rules]: "sound (panic e)"
  by (simp add: sound_def panic_def evolves_refl)

lemma sound_extern_C [sound_rules]: "sound m \<Longrightarrow> sound (extern_C m)"
  unfolding sound_def extern_C_def by (fastforce split: outcome.split)

lemma sound_if [sound_rules]: "(b \<Longrightarrow> sound m) \<Longrightarrow> (\<not> b \<Longrightarrow> sound n) \<Longrightarrow> sound (if b then m else n)"
  by simp

lemma sound_option [sound_rules]:
  "sound m \<Longrightarrow> (\<And>x. sound (k x)) \<Longrightarrow> sound (case r of None \<Rightarrow> m | Some x \<Rightarrow> k x)"
  by (simp split: option.split)

lemma sound_sum [sound_rules]:
  "(\<And>e. sound (m e)) \<Longrightarrow> (\<And>x. sound (k x)) \<Longrightarrow> sound (case r of Inl e \<Rightarrow> m e | Inr x \<Rightarrow> k x)"
  by (simp split: sum.split)

lemma sound_prod [sound_rules]: "(\<And>x y. sound (k x y)) \<Longrightarrow> sound (case r of (x, y) \<Rightarrow> k x y)"
  by (simp split: prod.split)

section \<open>Primitives\<close>

text \<open>Reads.\<close>

lemma sound_loads [sound_rules]:
  "sound (load_managed p)" "sound (load_input p)" "sound (load_out p)" "sound (load_pot p)"
  "sound (load_client p)" "sound (load_cstr p)"
  "sound (f64_slice p n)" "sound (i32_slice p n)" "sound (i64_slice p n)"
  by (auto simp: sound_def load_managed_def load_input_def load_out_def load_pot_def load_client_def
      load_cstr_def f64_slice_def i32_slice_def i64_slice_def evolves_refl
      split: option.split block.split)

text \<open>Fresh blocks.\<close>

lemma messages_push: "world_ok w \<Longrightarrow> messages (push b w) = messages w"
  using world_ok_slot [of w] world_ok_less [of w]
  by (fastforce simp: messages_def fun_eq_iff split: option.split)

lemma sound_alloc [sound_rules]: "sound (alloc b)"
  by (auto simp: sound_def alloc_def evolves_def messages_push)

text \<open>Overwriting or freeing a block that is not a C string.\<close>

lemma messages_other:
  assumes "world_ok w" and "\<not> is_cstr (heap w p)" and "\<And>q. q \<noteq> p \<Longrightarrow> heap w' q = heap w q"
    and "last_error_slot w' = last_error_slot w"
  shows "messages w' = messages w"
proof
  fix t
  have "q \<noteq> p" if "last_error_slot w t = Some q" for q
    using world_ok_slot [OF assms(1) that] assms(2) by auto
  with assms(3,4) show "messages w' t = messages w t"
    by (auto simp: messages_def split: option.split)
qed

lemma evolves_set:
  assumes "world_ok w" "heap w p = Some b" "\<not> is_cstr (Some b)" "\<not> is_cstr (Some b')"
  shows "evolves w (set_block p b' w)"
proof -
  have "messages (set_block p b' w) = messages w" using assms by (intro messages_other) auto
  with assms show ?thesis by (auto simp: evolves_def intro: world_ok_set_block)
qed

lemma evolves_drop:
  assumes "world_ok w" "\<not> is_cstr (heap w p)"
  shows "evolves w (drop_blocks {p} w)"
proof -
  have "messages (drop_blocks {p} w) = messages w" using assms by (intro messages_other) auto
  moreover have "world_ok (drop_blocks {p} w)" using assms by (intro world_ok_drop) auto
  ultimately show ?thesis by (auto simp: evolves_def restrict_map_def)
qed

lemma sound_at_dealloc: "sound_at p (dealloc p)"
  by (auto simp: sound_at_def dealloc_def split: option.split intro: evolves_drop)

lemma sound_typed [sound_rules]:
  "sound (store_input p i)" "sound (store_out p r)" "sound (store_i32 p v)"
  "sound (drop_vec_f64 p)" "sound (drop_vec_i32 p)" "sound (drop_vec_i64 p)"
  by (auto simp: sound_def store_input_def store_out_def store_i32_def drop_vec_f64_def drop_vec_i32_def
      drop_vec_i64_def dealloc_def bnd_def load_input_def load_out_def
      split: option.split block.split list.split intro: evolves_set evolves_drop)

text \<open>What was read at a type of its own is not a C string.\<close>

lemma sound_at_typed:
  "sound_at p m \<Longrightarrow> world_ok w \<Longrightarrow> heap w p = Some b \<Longrightarrow> \<not> is_cstr (Some b) \<Longrightarrow> ends_in (evolves w) (m w)"
  using world_ok_less [of w p b] by (simp add: sound_at_def)

lemma sound_read_then:
  "(\<And>x. sound_at p (k x)) \<Longrightarrow> sound (bnd (load_managed p) k)"
  "(\<And>x. sound_at p (k' x)) \<Longrightarrow> sound (bnd (load_pot p) k')"
  "(\<And>x. sound_at p (k'' x)) \<Longrightarrow> sound (bnd (load_client p) k'')"
  by (auto simp: sound_def bnd_def load_managed_def load_pot_def load_client_def
      split: option.split block.split intro!: sound_at_typed [where p = p])

text \<open>The error slot of the calling thread.\<close>

lemma sound_set_last_error [sound_rules]: "sound (set_last_error msg)"
proof -
  have "\<not> is_cstr (heap (record_error msg w) p)"
    if "world_ok w" "p < brk w" "\<not> is_cstr (heap w p)" for w p
    using that by (auto simp: record_error_heap restrict_map_def split: option.split)
  then show ?thesis by (auto simp: sound_def err.report evolves_def error_simps)
qed

lemma sound_last_error_cell [sound_rules]: "sound last_error_cell"
  unfolding sound_def
proof (intro allI impI)
  fix w assume ok: "world_ok w"
  obtain p w' where cell: "last_error_cell w = Done p w'" using last_error_cell_total by blast
  have "brk w \<le> brk w'" "\<forall>q < brk w. heap w' q = heap w q"
    using cell by (auto simp: last_error_cell_def split: option.splits)
  with last_error_cell_reads [OF ok cell] cell show "ends_in (evolves w) (last_error_cell w)"
    by (simp add: evolves_def)
qed

lemma sound_catch_unwind [sound_rules]:
  assumes "sound m"
  shows "sound (catch_unwind m)"
  unfolding sound_def
proof (intro allI impI)
  fix w assume ok: "world_ok w"
  show "ends_in (evolves w) (catch_unwind m w)"
  proof (cases "m w")
    case (Panicked e w')
    with soundD [OF assms ok] have w': "evolves w w'" by simp
    then have "world_ok w'" by (simp add: evolves_def)
    from soundD [OF sound_set_last_error this, of "panic_message e"] this
    have "evolves w' (record_error (panic_message e) w')" by (simp add: err.report)
    with Panicked w' \<open>world_ok w'\<close> show ?thesis
      by (auto simp: catch_unwind_def error_simps intro: evolves_trans)
  qed (use soundD [OF assms ok] in \<open>simp_all add: catch_unwind_def\<close>)
qed

section \<open>The components\<close>

lemma sound_arith [sound_rules]: "sound (mul_i64 E a b)" "sound (mul_usize E x y)"
  by (simp_all add: mul_i64_def mul_usize_def sound_rules)

lemma sound_stride_loop [sound_rules]: "sound (stride_loop E shape k strides)"
  by (induction k arbitrary: strides) (auto intro: sound_rules)

lemma sound_create [sound_rules]:
  "sound (create_borrowed_tensor E d ty sh)" "sound (create_owned_f64_tensor E xs sh)"
  unfolding create_borrowed_tensor_def create_owned_f64_tensor_def compute_row_major_strides_def Let_def
  by (intro sound_rules)+

text \<open>Dropping the box of a context frees the buffers it names, then the box.\<close>

lemma sound_drop_ctx [sound_rules]:
  "sound (drop_borrowed_ctx p)" "sound (drop_owned_f64_ctx p)" "sound (drop_owned_i32_ctx p)"
  by (auto simp: sound_def drop_borrowed_ctx_def drop_owned_f64_ctx_def drop_owned_i32_ctx_def
      split: option.split block.split
      intro!: sound_at_typed [where p = p] sound_at_bnd sound_at_dealloc sound_rules)

lemma sound_drop_managed [sound_rules]: "sound (drop_managed p)"
  unfolding drop_managed_def by (intro sound_read_then sound_at_dealloc)

text \<open>Code behind function pointers is assumed to be sound.\<close>

definition env_sound :: "'x env_scheme \<Rightarrow> bool" where
  "env_sound E \<longleftrightarrow>
     (\<forall>f ud i out. sound (callback_code E f ud i out)) \<and> (\<forall>f u. sound (free_fn_code E f u)) \<and>
     (\<forall>f t. sound (foreign_deleter_code E f t))"

lemma env_soundD:
  assumes "env_sound E"
  shows "sound (callback_code E f ud i out)" "sound (free_fn_code E f u)" "sound (foreign_deleter_code E f t)"
  using assms by (simp_all add: env_sound_def)

definition lib_sound :: "rpc_lib \<Rightarrow> bool" where
  "lib_sound R \<longleftrightarrow>
     sound (runtime_new R) \<and> (\<forall>t. sound (runtime_drop R t)) \<and> (\<forall>a. sound (tcp_connect R a)) \<and>
     (\<forall>c b. sound (set_nodelay R c b)) \<and> (\<forall>c. sound (rpc_bootstrap R c)) \<and>
     (\<forall>c q. sound (send_request R c q)) \<and>
     (\<forall>n. sound (init_f64_list R n)) \<and> (\<forall>l i v. sound (set_f64_list R l i v)) \<and>
     (\<forall>n. sound (init_i32_list R n)) \<and> (\<forall>l i v. sound (set_i32_list R l i v))"

lemma lib_soundD:
  assumes "lib_sound R"
  shows "sound (runtime_new R)" "sound (runtime_drop R t)" "sound (tcp_connect R a)"
    "sound (set_nodelay R c b)" "sound (rpc_bootstrap R c)" "sound (send_request R c q)"
    "sound (init_f64_list R n)" "sound (set_f64_list R lf i vf)"
    "sound (init_i32_list R n)" "sound (set_i32_list R li i vi)"
  using assms by (simp_all add: lib_sound_def)

lemma sound_tensor [sound_rules]:
  "sound (rgpot_tensor_cpu_f64_2d E p r c)" "sound (rgpot_tensor_cpu_i32_1d E p n)"
  "sound (rgpot_tensor_cpu_f64_matrix3 E p)" "sound (rgpot_tensor_owned_cpu_f64_2d E p r c)"
  "sound (rgpot_tensor_device t)" "sound (rgpot_tensor_data t)" "sound (rgpot_tensor_shape t q)"
  unfolding rgpot_tensor_cpu_f64_2d_def rgpot_tensor_cpu_i32_1d_def rgpot_tensor_cpu_f64_matrix3_def
    rgpot_tensor_owned_cpu_f64_2d_def rgpot_tensor_device_def rgpot_tensor_data_def rgpot_tensor_shape_def
  by (intro sound_rules)+

lemma sound_deleters [sound_rules]:
  "sound (borrowed_deleter p)" "sound (owned_f64_deleter p)" "sound (owned_i32_deleter p)"
  unfolding borrowed_deleter_def owned_f64_deleter_def owned_i32_deleter_def by (intro sound_rules)+

lemma sound_tensor_free:
  assumes "env_sound E"
  shows "sound (rgpot_tensor_free E t)"
proof -
  have "sound (run_deleter E d t)" for d
    by (cases d) (simp_all add: run_deleter_def sound_rules env_soundD [OF assms])
  then show ?thesis unfolding rgpot_tensor_free_def by (intro sound_rules)
qed

lemma sound_types [sound_rules]:
  "sound (n_atoms i)" "sound (rgpot_force_input_create E n p a b)" "sound rgpot_force_out_create"
  unfolding n_atoms_def rgpot_force_input_create_def rgpot_force_out_create_def Let_def
  by (intro sound_rules)+

lemma sound_input_free: "env_sound E \<Longrightarrow> sound (rgpot_force_input_free E p)"
  unfolding rgpot_force_input_free_def by (intro sound_rules sound_tensor_free)

lemma sound_potential:
  assumes "env_sound E"
  shows "sound (rgpot_potential_new cb ud ff)" "sound (rgpot_potential_calculate E pot i out)"
    "sound (rgpot_potential_free E pot)"
proof -
  show "sound (rgpot_potential_new cb ud ff)"
    unfolding rgpot_potential_new_def by (intro sound_rules)
  show "sound (rgpot_potential_calculate E pot i out)"
    unfolding rgpot_potential_calculate_def PotentialImpl_calculate_def
    by (intro sound_rules env_soundD [OF assms])
  have "sound (PotentialImpl_drop E self)" for self
    unfolding PotentialImpl_drop_def by (intro sound_rules env_soundD [OF assms])
  then show "sound (rgpot_potential_free E pot)"
    unfolding rgpot_potential_free_def
    by (intro sound_extern_C sound_if sound_read_then sound_at_bnd sound_at_dealloc sound_ret)
qed

lemma sound_last_error [sound_rules]: "sound rgpot_last_error"
  unfolding rgpot_last_error_def by (intro sound_rules)

lemma sound_set_loop:
  "(\<And>b i v. sound (set_op b i v)) \<Longrightarrow> sound (set_loop set_op b k vs)"
  by (induction vs arbitrary: b k) (auto intro: sound_rules)

lemma sound_update_out [sound_rules]: "sound (update_out p g)"
  unfolding update_out_def by (intro sound_rules)

lemma sound_try_op [sound_rules]: "sound m \<Longrightarrow> (\<And>x. sound (k x)) \<Longrightarrow> sound (try_op m f k)"
  unfolding try_op_def by (intro sound_rules)

lemma sound_extract [sound_rules]: "sound (extract_cpu_input E i n)"
  unfolding extract_cpu_input_def Let_def by (intro sound_rules)

lemma sound_read_response [sound_rules]: "sound (read_response E R n out resp)"
  unfolding read_response_def by (intro sound_rules)

lemma sound_client:
  assumes "lib_sound R"
  shows "sound (rgpot_rpc_client_new R host port)" "sound (rgpot_rpc_calculate E R cl i out)"
    "sound (rgpot_rpc_client_free R cl)"
proof -
  note lib = lib_soundD [OF assms]
  show "sound (rgpot_rpc_client_new R host port)"
    unfolding rgpot_rpc_client_new_def RpcClient_new_def by (intro sound_rules lib)
  have "sound (build_request R xs zs bs)" for xs zs bs
    unfolding build_request_def by (intro sound_rules lib sound_set_loop)
  then show "sound (rgpot_rpc_calculate E R cl i out)"
    unfolding rgpot_rpc_calculate_def RpcClient_calculate_def calculate_async_def
    by (intro sound_rules lib)
  show "sound (rgpot_rpc_client_free R cl)"
    unfolding rgpot_rpc_client_free_def
    by (intro sound_extern_C sound_if sound_read_then sound_at_bnd sound_at_dealloc sound_ret lib)
qed

section \<open>Programs\<close>

text \<open>
  The calls a program can make, with any arguments, and what it does by itself: allocate,
  and overwrite a live block of its choice that is not a C string.
\<close>

datatype api_call =
    Call_tensor_cpu_f64_2d ptr i64 i64
  | Call_tensor_cpu_i32_1d ptr i64
  | Call_tensor_cpu_f64_matrix3 ptr
  | Call_tensor_owned_cpu_f64_2d ptr i64 i64
  | Call_tensor_free ptr
  | Call_tensor_device ptr
  | Call_tensor_data ptr
  | Call_tensor_shape ptr ptr
  | Call_force_input_create usize ptr ptr ptr
  | Call_force_input_free ptr
  | Call_force_out_create
  | Call_potential_new fnptr ptr "fnptr option"
  | Call_potential_calculate ptr ptr ptr
  | Call_potential_free ptr
  | Call_last_error
  | Call_rpc_client_new ptr u16
  | Call_rpc_calculate ptr ptr ptr
  | Call_rpc_client_free ptr
  | Host_alloc block
  | Host_store ptr block

definition host_store :: "ptr \<Rightarrow> block \<Rightarrow> unit comp" where
  "host_store p b w = (if heap w p = None \<or> is_cstr (heap w p) \<or> is_cstr (Some b) then Undefined
     else Done () (set_block p b w))"

abbreviation discard :: "'a comp \<Rightarrow> unit comp" where
  "discard m \<equiv> bnd m (\<lambda>_. ret ())"

fun perform :: "'x env_scheme \<Rightarrow> rpc_lib \<Rightarrow> api_call \<Rightarrow> unit comp" where
  "perform E R (Call_tensor_cpu_f64_2d p r c) = discard (rgpot_tensor_cpu_f64_2d E p r c)"
| "perform E R (Call_tensor_cpu_i32_1d p n) = discard (rgpot_tensor_cpu_i32_1d E p n)"
| "perform E R (Call_tensor_cpu_f64_matrix3 p) = discard (rgpot_tensor_cpu_f64_matrix3 E p)"
| "perform E R (Call_tensor_owned_cpu_f64_2d p r c) = discard (rgpot_tensor_owned_cpu_f64_2d E p r c)"
| "perform E R (Call_tensor_free t) = rgpot_tensor_free E t"
| "perform E R (Call_tensor_device t) = discard (rgpot_tensor_device t)"
| "perform E R (Call_tensor_data t) = discard (rgpot_tensor_data t)"
| "perform E R (Call_tensor_shape t q) = discard (rgpot_tensor_shape t q)"
| "perform E R (Call_force_input_create n p a b) = discard (rgpot_force_input_create E n p a b)"
| "perform E R (Call_force_input_free p) = rgpot_force_input_free E p"
| "perform E R Call_force_out_create = discard rgpot_force_out_create"
| "perform E R (Call_potential_new cb ud ff) = discard (rgpot_potential_new cb ud ff)"
| "perform E R (Call_potential_calculate pot i out) = discard (rgpot_potential_calculate E pot i out)"
| "perform E R (Call_potential_free pot) = rgpot_potential_free E pot"
| "perform E R Call_last_error = discard rgpot_last_error"
| "perform E R (Call_rpc_client_new host port) = discard (rgpot_rpc_client_new R host port)"
| "perform E R (Call_rpc_calculate cl i out) = discard (rgpot_rpc_calculate E R cl i out)"
| "perform E R (Call_rpc_client_free cl) = rgpot_rpc_client_free R cl"
| "perform E R (Host_alloc b) = discard (alloc b)"
| "perform E R (Host_store p b) = host_store p b"

fun run_calls :: "'x env_scheme \<Rightarrow> rpc_lib \<Rightarrow> (tid \<times> api_call) list \<Rightarrow> unit comp" where
  "run_calls E R [] = ret ()"
| "run_calls E R ((t, c) # cs) = bnd (on_thread t (perform E R c)) (\<lambda>_. run_calls E R cs)"

lemma sound_host_store: "sound (host_store p b)"
  by (auto simp: sound_def host_store_def intro: evolves_set)

lemma sound_perform:
  assumes E: "env_sound E" and R: "lib_sound R"
  shows "sound (perform E R c)"
  by (cases c)
    (simp_all only: perform.simps sound_bnd sound_ret sound_tensor sound_tensor_free [OF E] sound_types
      sound_input_free [OF E] sound_potential [OF E] sound_last_error sound_client [OF R] sound_alloc
      sound_host_store)

text \<open>No call lets a panic out.\<close>

definition no_panic :: "'a comp \<Rightarrow> bool" where
  "no_panic m \<longleftrightarrow> (\<forall>w e w'. m w \<noteq> Panicked e w')"

lemma no_panic_extern [simp]: "no_panic (extern_C m)"
  by (simp add: no_panic_def extern_C_no_panic)

lemma no_panic_discard: "no_panic m \<Longrightarrow> no_panic (discard m)"
  unfolding no_panic_def by (auto simp: bnd_def ret_def split: outcome.split)

lemmas extern_defs =
  rgpot_tensor_cpu_f64_2d_def rgpot_tensor_cpu_i32_1d_def rgpot_tensor_cpu_f64_matrix3_def
  rgpot_tensor_owned_cpu_f64_2d_def rgpot_tensor_free_def rgpot_tensor_device_def rgpot_tensor_data_def
  rgpot_tensor_shape_def rgpot_force_input_create_def rgpot_force_input_free_def
  rgpot_force_out_create_def rgpot_potential_new_def rgpot_potential_calculate_def
  rgpot_potential_free_def rgpot_last_error_def rgpot_rpc_client_new_def rgpot_rpc_calculate_def
  rgpot_rpc_client_free_def

lemma perform_no_panic: "no_panic (perform E R c)"
proof -
  have "no_panic (alloc b)" "no_panic (host_store p b)" for b p
    by (simp_all add: no_panic_def alloc_def host_store_def)
  then show ?thesis
    by (cases c) (simp_all only: perform.simps extern_defs no_panic_extern no_panic_discard)
qed

lemma evolves_thread:
  assumes "evolves (w\<lparr>thread := t\<rparr>) w'"
  shows "world_ok w'" "brk w \<le> brk w'" "p < brk w \<Longrightarrow> \<not> is_cstr (heap w p) \<Longrightarrow> \<not> is_cstr (heap w' p)"
    "u \<noteq> t \<Longrightarrow> messages w' u = messages w u"
  using assms by (simp_all add: evolves_def)

lemma run_calls_sound:
  assumes "env_sound E" "lib_sound R"
  shows "world_ok w \<Longrightarrow> (case run_calls E R cs w of
      Done _ w' \<Rightarrow> world_ok w' \<and> brk w \<le> brk w' \<and>
        (\<forall>p < brk w. \<not> is_cstr (heap w p) \<longrightarrow> \<not> is_cstr (heap w' p)) \<and>
        (\<forall>t. t \<notin> fst ` set cs \<longrightarrow> messages w' t = messages w t)
    | Panicked _ _ \<Rightarrow> False | Aborted \<Rightarrow> True | Undefined \<Rightarrow> True)"
proof (induction cs arbitrary: w)
  case Nil
  then show ?case by (simp add: ret_def)
next
  case (Cons tc cs)
  obtain t c where tc: "tc = (t, c)" by (cases tc)
  have ends: "ends_in (evolves (w\<lparr>thread := t\<rparr>)) (on_thread t (perform E R c) w)"
    using soundD [OF sound_perform [OF assms], of "w\<lparr>thread := t\<rparr>" c] Cons.prems by (simp add: on_thread_def)
  show ?case
  proof (cases "on_thread t (perform E R c) w")
    case (Done x w1)
    with ends have ev: "evolves (w\<lparr>thread := t\<rparr>) w1" by simp
    from Cons.IH [OF evolves_thread(1) [OF ev]] evolves_thread [OF ev] Done show ?thesis
      by (auto simp: tc bnd_def split: outcome.split_asm)
  next
    case (Panicked e w1)
    with perform_no_panic [of E R c] show ?thesis by (simp add: no_panic_def on_thread_def)
  qed (simp_all add: tc bnd_def)
qed

text \<open>
  C5: Soundness of the interface.  A program calls any functions of the C interface in any
  order, on any threads and with any arguments, valid or not, and allocates and
  overwrites memory of its own in between; the callbacks and libraries are sound
  themselves.  If it does not run into undefined behaviour or an abort, no panic has
  crossed the interface, the machine is still well-formed (nothing lives at null, every
  error slot owns its own NUL-free string), no memory has been reinterpreted as an error
  string, and the message of every thread that made no call is the one it had.
\<close>

theorem interface_sound:
  assumes "env_sound E" and "lib_sound R" and "world_ok w"
  shows "case run_calls E R cs w of
      Done _ w' \<Rightarrow> world_ok w' \<and> brk w \<le> brk w' \<and>
        (\<forall>p < brk w. \<not> is_cstr (heap w p) \<longrightarrow> \<not> is_cstr (heap w' p)) \<and>
        (\<forall>t. t \<notin> fst ` set cs \<longrightarrow> messages w' t = messages w t)
    | Panicked _ _ \<Rightarrow> False
    | Aborted \<Rightarrow> True
    | Undefined \<Rightarrow> True"
  by (rule run_calls_sound [OF assms])

lemma lib_of_sound: "lib_sound (lib_of N)"
  unfolding lib_sound_def lib_of_def rpc_lib.select_convs init_list_def set_list_def
  by (intro conjI allI sound_rules)

lemma test_env_sound: "env_sound test_env"
proof -
  have "sound (fetch_add p k)" "sound (load_counter p)" for p k
    by (auto simp: sound_def fetch_add_def load_counter_def bnd_def evolves_refl
        split: option.split block.split intro: evolves_set)
  then have "sound (test_code f ud i out)" for f ud i out
    unfolding test_code_def sum_callback_def writing_callback_def failing_callback_def
      counting_callback_def error_callback_def Let_def
    by (auto intro!: sound_rules)
  then show ?thesis by (simp add: env_sound_def test_env_def plain_env_def sound_rules)
qed

theorem interface_sound_witness:
  "\<exists>w. run_calls test_env (lib_of silent_net)
     [(3, Host_alloc (F64s [0, 0, 0])), (3, Call_tensor_cpu_f64_2d 1 1 3), (5, Call_potential_calculate 0 0 0),
      (3, Call_tensor_free 5)] boot_world = Done () w \<and> world_ok w \<and> messages w 4 = []"
proof -
  let ?cs = "[(3, Host_alloc (F64s [0, 0, 0])), (3, Call_tensor_cpu_f64_2d 1 1 3),
      (5, Call_potential_calculate 0 0 0), (3, Call_tensor_free 5)]"
  have "\<exists>w. run_calls test_env (lib_of silent_net) ?cs boot_world = Done () w"
    by (simp add: on_thread_def rgpot_tensor_cpu_f64_2d_def create_borrowed_tensor_def strides_2d
        rgpot_potential_calculate_def catch_unwind_def set_last_error_def last_error_cell_def
        rgpot_tensor_free_def run_deleter_def borrowed_deleter_def drop_borrowed_ctx_def drop_managed_def
        boot_world_def exec Let_def)
  then obtain w where w: "run_calls test_env (lib_of silent_net) ?cs boot_world = Done () w" by blast
  from interface_sound [OF test_env_sound lib_of_sound [of silent_net] boot_world_ok, of ?cs]
  show ?thesis unfolding w by (intro exI [of _ w]) (auto simp: w messages_def boot_world_def)
qed

end
