(* ===== verification/Rgpot_Build.thy ===== *)
theory Rgpot_Build
  imports Rgpot_Text
begin

text \<open>
  \<^verbatim>\<open>rgpot-core/build.rs\<close>: the generation of the C header with its version block, and
  the choice of the Cap'n Proto schema.  The state is the file system; cbindgen and
  the schema compiler are parameters.
\<close>

section \<open>File system and tools\<close>

record fs_state =
  files :: "string \<rightharpoonup> string"
  dirs :: "string set"

datatype 'a build_result = Built 'a fs_state | Build_panicked string fs_state

type_synonym 'a build = "fs_state \<Rightarrow> 'a build_result"

definition built :: "'a \<Rightarrow> 'a build" where
  "built x s = Built x s"

definition build_panic :: "string \<Rightarrow> 'a build" where
  "build_panic msg s = Build_panicked msg s"

definition build_bnd :: "'a build \<Rightarrow> ('a \<Rightarrow> 'b build) \<Rightarrow> 'b build" where
  "build_bnd m k s = (case m s of
      Built x s' \<Rightarrow> k x s'
    | Build_panicked msg s' \<Rightarrow> Build_panicked msg s')"

text \<open>
  A configuration of cbindgen, of which the script reads and writes one field.  The
  bindings it generates are an opaque value.
\<close>

record cbindgen_config =
  after_includes :: "string option"
  other_settings :: nat

record build_tools =
  env_var :: "string \<rightharpoonup> string"
  writable :: "string \<Rightarrow> bool"
  config_from_file :: "string \<Rightarrow> fs_state \<Rightarrow> string + cbindgen_config"
  generate_bindings :: "string \<Rightarrow> cbindgen_config \<Rightarrow> string + nat"
  write_bindings :: "nat \<Rightarrow> string \<Rightarrow> unit build"
  run_capnpc :: "string \<Rightarrow> string \<Rightarrow> fs_state \<Rightarrow> string + fs_state"

text \<open>\<^verbatim>\<open>expect\<close>, and \<^verbatim>\<open>unwrap\<close> with its standard text.\<close>

definition expect :: "string \<Rightarrow> string + 'a \<Rightarrow> 'a build" where
  "expect msg r = (case r of Inl e \<Rightarrow> build_panic (msg @ '': '' @ e) | Inr x \<Rightarrow> built x)"

definition unwrap_result :: "string + 'a \<Rightarrow> 'a build" where
  "unwrap_result = expect ''called `Result::unwrap()` on an `Err` value''"

definition get_var :: "build_tools \<Rightarrow> string \<Rightarrow> string + string" where
  "get_var B v = (case env_var B v of None \<Rightarrow> Inl ''NotPresent'' | Some x \<Rightarrow> Inr x)"

text \<open>The operations of \<^verbatim>\<open>std::fs\<close>.\<close>

definition path_exists :: "fs_state \<Rightarrow> string \<Rightarrow> bool" where
  "path_exists s p \<longleftrightarrow> p \<in> dirs s \<or> files s p \<noteq> None"

definition create_dir_all :: "build_tools \<Rightarrow> string \<Rightarrow> fs_state \<Rightarrow> string + fs_state" where
  "create_dir_all B p s = (if writable B p then Inr (s\<lparr>dirs := insert p (dirs s)\<rparr>) else Inl ''PermissionDenied'')"

definition fs_write :: "build_tools \<Rightarrow> string \<Rightarrow> string \<Rightarrow> fs_state \<Rightarrow> string + fs_state" where
  "fs_write B p content s =
     (if writable B p then Inr (s\<lparr>files := (files s)(p \<mapsto> content)\<rparr>) else Inl ''PermissionDenied'')"

definition read_to_string :: "string \<Rightarrow> fs_state \<Rightarrow> string + string" where
  "read_to_string p s = (case files s p of None \<Rightarrow> Inl ''NotFound'' | Some c \<Rightarrow> to_str c)"

text \<open>An operation that changes the file system, then \<^verbatim>\<open>unwrap\<close> or \<^verbatim>\<open>expect\<close>.\<close>

definition fs_do :: "(string + fs_state \<Rightarrow> fs_state build) \<Rightarrow> (fs_state \<Rightarrow> string + fs_state) \<Rightarrow> unit build" where
  "fs_do chk f s = build_bnd (chk (f s)) (\<lambda>s' _. Built () s') s"

definition fs_read :: "(fs_state \<Rightarrow> 'a) \<Rightarrow> 'a build" where
  "fs_read f s = Built (f s) s"

section \<open>Paths and text\<close>

text \<open>\<^verbatim>\<open>PathBuf::join\<close> with a relative component.\<close>

definition join :: "string \<Rightarrow> string \<Rightarrow> string" where
  "join p q = (if p = [] then q else if last p = CHR ''/'' then p @ q else p @ ''/'' @ q)"

text \<open>\<^verbatim>\<open>str::split\<close> at a character.\<close>

fun split_on :: "char \<Rightarrow> string \<Rightarrow> string list" where
  "split_on c [] = [[]]"
| "split_on c (x # xs) =
     (if x = c then [] # split_on c xs
      else (case split_on c xs of [] \<Rightarrow> [[x]] | p # ps \<Rightarrow> (x # p) # ps))"

text \<open>
  \<^verbatim>\<open>str::trim_end\<close>: characters with the property White_Space, in UTF-8, removed from
  the end; the recursion reads the bytes backwards.
\<close>

definition space1 :: "char \<Rightarrow> bool" where
  "space1 c \<longleftrightarrow> (of_char c :: nat) \<in> {9, 10, 11, 12, 13, 32}"

definition space2 :: "char \<Rightarrow> char \<Rightarrow> bool" where
  "space2 b c \<longleftrightarrow> (of_char b :: nat) = 0xC2 \<and> (of_char c :: nat) \<in> {0x85, 0xA0}"

definition space3 :: "char \<Rightarrow> char \<Rightarrow> char \<Rightarrow> bool" where
  "space3 a b c \<longleftrightarrow>
     (let x = (of_char a :: nat); y = (of_char b :: nat); z = (of_char c :: nat) in
      x = 0xE1 \<and> y = 0x9A \<and> z = 0x80 \<or>
      x = 0xE2 \<and> y = 0x80 \<and> (0x80 \<le> z \<and> z \<le> 0x8A \<or> z \<in> {0xA8, 0xA9, 0xAF}) \<or>
      x = 0xE2 \<and> y = 0x81 \<and> z = 0x9F \<or>
      x = 0xE3 \<and> y = 0x80 \<and> z = 0x80)"

fun trim_rev :: "string \<Rightarrow> string" where
  "trim_rev [] = []"
| "trim_rev (c # cs) =
     (if space1 c then trim_rev cs
      else (case cs of
          [] \<Rightarrow> [c]
        | b # bs \<Rightarrow>
            if space2 b c then trim_rev bs
            else (case bs of
                [] \<Rightarrow> c # cs
              | a # as \<Rightarrow> if space3 a b c then trim_rev as else c # cs)))"

definition trim_end :: "string \<Rightarrow> string" where
  "trim_end s = rev (trim_rev (rev s))"

abbreviation newline :: char where
  "newline \<equiv> CHR 0x0A"

abbreviation quote :: char where
  "quote \<equiv> CHR 0x22"

section \<open>The header\<close>

definition version_block :: "string \<Rightarrow> string \<Rightarrow> string \<Rightarrow> string \<Rightarrow> string" where
  "version_block ver maj mnr patch =
     ''#define RGPOT_VERSION '' @ [quote] @ ver @ [quote, newline] @
     ''#define RGPOT_VERSION_MAJOR '' @ maj @ [newline] @
     ''#define RGPOT_VERSION_MINOR '' @ mnr @ [newline] @
     ''#define RGPOT_VERSION_PATCH '' @ patch"

definition index_part :: "string list \<Rightarrow> nat \<Rightarrow> string build" where
  "index_part parts i =
     (if i < length parts then built (parts ! i)
      else build_panic (''index out of bounds: the len is '' @ show_nat (length parts) @
             '' but the index is '' @ show_nat i))"

definition add_version_block :: "string \<Rightarrow> cbindgen_config \<Rightarrow> cbindgen_config" where
  "add_version_block block config = config\<lparr>after_includes := Some
     (case after_includes config of
        Some existing \<Rightarrow> existing @ [newline, newline] @ block
      | None \<Rightarrow> block)\<rparr>"

definition generate_c_header :: "build_tools \<Rightarrow> string \<Rightarrow> unit build" where
  "generate_c_header B crate_dir =
     (let output_dir = join crate_dir ''include''; path = join output_dir ''rgpot.h'' in
      build_bnd (fs_do unwrap_result (create_dir_all B output_dir)) (\<lambda>_.
      build_bnd (fs_read (config_from_file B ''cbindgen.toml'')) (\<lambda>loaded.
      build_bnd (expect ''Unable to find cbindgen.toml'' loaded) (\<lambda>config.
      build_bnd (unwrap_result (get_var B ''CARGO_PKG_VERSION'')) (\<lambda>ver.
      let parts = split_on (CHR ''.'') ver in
      build_bnd (index_part parts 0) (\<lambda>maj.
      build_bnd (index_part parts 1) (\<lambda>mnr.
      build_bnd (index_part parts 2) (\<lambda>patch.
      let config = add_version_block (version_block ver maj mnr patch) config in
      build_bnd (expect ''Unable to generate C bindings'' (generate_bindings B crate_dir config)) (\<lambda>bindings.
      build_bnd (write_bindings B bindings path) (\<lambda>_.
      build_bnd (fs_read (read_to_string path)) (\<lambda>r.
      build_bnd (unwrap_result r) (\<lambda>content.
      fs_do unwrap_result (fs_write B path (trim_end content @ [newline]))))))))))))))"

section \<open>The schema\<close>

definition stub_text :: string where
  "stub_text = ''// Auto-generated stub: Potentials.capnp not found at build time.'' @ [newline]"

definition compile_failed :: string where
  "compile_failed = ''Failed to compile Cap'' @ [CHR 0x27] @ ''n Proto schema''"

definition stub_failed :: string where
  "stub_failed = ''Failed to write Cap'' @ [CHR 0x27] @ ''n Proto stub''"

definition monorepo_dir :: "string \<Rightarrow> string" where
  "monorepo_dir crate_dir = join (join (join (join crate_dir ''..'') ''CppCore'') ''rgpot'') ''rpc''"

definition compile_capnp_schema :: "build_tools \<Rightarrow> string \<Rightarrow> unit build" where
  "compile_capnp_schema B crate_dir s =
     (let bundled = join (join crate_dir ''schema'') ''Potentials.capnp'';
          monorepo = join (monorepo_dir crate_dir) ''Potentials.capnp'' in
      if path_exists s bundled
      then fs_do (expect compile_failed) (run_capnpc B (join crate_dir ''schema'') bundled) s
      else if path_exists s monorepo
      then fs_do (expect compile_failed) (run_capnpc B (monorepo_dir crate_dir) monorepo) s
      else build_bnd (unwrap_result (get_var B ''OUT_DIR'')) (\<lambda>out_dir.
           fs_do (expect stub_failed)
             (fs_write B (join out_dir ''Potentials_capnp.rs'') stub_text)) s)"

definition build_main :: "build_tools \<Rightarrow> bool \<Rightarrow> bool \<Rightarrow> unit build" where
  "build_main B gen_header rpc =
     (if \<not> gen_header \<and> \<not> rpc then built ()
      else build_bnd (unwrap_result (get_var B ''CARGO_MANIFEST_DIR'')) (\<lambda>crate_dir.
           build_bnd (if gen_header then generate_c_header B crate_dir else built ()) (\<lambda>_.
           if rpc then compile_capnp_schema B crate_dir else built ())))"

section \<open>Splitting and trimming\<close>

lemma split_on_not_Nil [simp]: "split_on c s \<noteq> []"
  by (cases s) (auto split: list.split)

lemma split_on_clean: "c \<notin> set p \<Longrightarrow> split_on c p = [p]"
  by (induction p) auto

lemma split_on_append: "c \<notin> set p \<Longrightarrow> split_on c (p @ c # s) = p # split_on c s"
  by (induction p) auto

text \<open>Nothing is lost by splitting: the parts, joined again, are the string.\<close>

fun glue :: "char \<Rightarrow> string list \<Rightarrow> string" where
  "glue c [] = []"
| "glue c [p] = p"
| "glue c (p # q # ps) = p @ c # glue c (q # ps)"

lemma glue_Cons: "ps \<noteq> [] \<Longrightarrow> glue c (p # ps) = p @ c # glue c ps"
  by (cases ps) auto

lemma glue_split_on: "glue c (split_on c s) = s"
proof (induction s)
  case (Cons x xs)
  obtain p ps where p: "split_on c xs = p # ps" by (cases "split_on c xs") auto
  show ?case
  proof (cases "x = c")
    case True
    with Cons show ?thesis by (simp add: glue_Cons)
  next
    case False
    with Cons p show ?thesis by (cases ps) auto
  qed
qed simp

lemma split_on_parts: "p \<in> set (split_on c s) \<Longrightarrow> c \<notin> set p"
proof (induction s arbitrary: p)
  case (Cons x xs)
  then show ?case by (cases "split_on c xs") (auto split: if_splits)
qed simp

lemma trim_rev_idem [simp]: "trim_rev (trim_rev s) = trim_rev s"
  by (induction s rule: trim_rev.induct) (auto split: list.split)

lemma trim_rev_Cons_space [simp]: "space1 c \<Longrightarrow> trim_rev (c # s) = trim_rev s"
  by simp

lemma trim_end_append_space: "space1 c \<Longrightarrow> trim_end (s @ [c]) = trim_end s"
  by (simp add: trim_end_def)

lemma trim_end_idem [simp]: "trim_end (trim_end s) = trim_end s"
  by (simp add: trim_end_def)

lemma trim_rev_shorter: "length (trim_rev s) \<le> length s"
proof (induction s rule: trim_rev.induct)
  case (2 c cs)
  then show ?case
    by (subst trim_rev.simps(2)) (fastforce simp del: trim_rev.simps split: list.split intro: le_SucI)
qed simp

lemma trim_end_no_space:
  assumes "trim_end s = t @ [c]"
  shows "\<not> space1 c"
proof
  assume c: "space1 c"
  from assms have "trim_rev (rev s) = c # rev t" by (simp add: trim_end_def rev_swap)
  then have "c # rev t = trim_rev (c # rev t)" using trim_rev_idem [of "rev s"] by simp
  also have "\<dots> = trim_rev (rev t)" using c by simp
  finally have "length (c # rev t) \<le> length (rev t)" using trim_rev_shorter [of "rev t"] by simp
  then show False by simp
qed

lemma newline_space [simp]: "space1 newline"
  by (simp add: space1_def)

section \<open>What the script produces\<close>

lemmas build_exec = built_def build_panic_def build_bnd_def expect_def unwrap_result_def fs_do_def fs_read_def
  get_var_def create_dir_all_def fs_write_def index_part_def Let_def

text \<open>The tools do their job on this crate.\<close>

definition tools_ok :: "build_tools \<Rightarrow> string \<Rightarrow> string \<Rightarrow> cbindgen_config \<Rightarrow> (cbindgen_config \<Rightarrow> string) \<Rightarrow> bool" where
  "tools_ok B crate_dir ver config header \<longleftrightarrow>
     env_var B ''CARGO_PKG_VERSION'' = Some ver \<and>
     writable B (join crate_dir ''include'') \<and> writable B (join (join crate_dir ''include'') ''rgpot.h'') \<and>
     (\<forall>s. config_from_file B ''cbindgen.toml'' s = Inr config) \<and>
     (\<forall>c. to_str (header c) = Inr (header c)) \<and>
     (\<forall>c. \<exists>b. generate_bindings B crate_dir c = Inr b \<and>
        (\<forall>p s. write_bindings B b p s = Built () (s\<lparr>files := (files s)(p \<mapsto> header c)\<rparr>)))"

lemma header_written:
  assumes ok: "tools_ok B crate_dir ver config header" and parts: "split_on (CHR ''.'') ver = a # b # c # rest"
  shows "generate_c_header B crate_dir s = Built ()
     (s\<lparr>dirs := insert (join crate_dir ''include'') (dirs s),
        files := (files s)(join (join crate_dir ''include'') ''rgpot.h'' \<mapsto>
          trim_end (header (add_version_block (version_block ver a b c) config)) @ [newline])\<rparr>)"
proof -
  let ?c = "add_version_block (version_block ver a b c) config"
  obtain bd where "generate_bindings B crate_dir ?c = Inr bd"
    "\<And>p s. write_bindings B bd p s = Built () (s\<lparr>files := (files s)(p \<mapsto> header ?c)\<rparr>)"
    using ok unfolding tools_ok_def by blast
  with ok parts show ?thesis
    by (simp add: generate_c_header_def build_exec tools_ok_def read_to_string_def)
qed

lemma short_version:
  assumes ok: "tools_ok B crate_dir ver config header" and "length (split_on (CHR ''.'') ver) < 3"
  shows "generate_c_header B crate_dir s = Build_panicked
     (''index out of bounds: the len is '' @ show_nat (length (split_on (CHR ''.'') ver)) @
      '' but the index is '' @ show_nat (length (split_on (CHR ''.'') ver)))
     (s\<lparr>dirs := insert (join crate_dir ''include'') (dirs s)\<rparr>)"
proof -
  have "length (split_on (CHR ''.'') ver) \<noteq> 0" by simp
  with assms(2) have "length (split_on (CHR ''.'') ver) = 1 \<or> length (split_on (CHR ''.'') ver) = 2" by linarith
  then show ?thesis
    by (elim disjE) (use ok in \<open>simp_all add: generate_c_header_def build_exec tools_ok_def\<close>)
qed

text \<open>
  The generated header.  For a version with at least three dot-separated parts the build
  writes the header that cbindgen generates with the version block appended to the
  configured includes, with trailing white space removed and exactly one newline at the
  end; no other file changes.  The block's numbers are the first three parts; when there
  are only three, they and the dots are the whole version.  A version with fewer parts
  panics before any file is written.
\<close>

theorem header_generated:
  assumes "tools_ok B crate_dir ver config header"
  shows "case split_on (CHR ''.'') ver of
      a # b # c # rest \<Rightarrow>
        (\<exists>s' text. generate_c_header B crate_dir s = Built () s' \<and>
           files s' = (files s)(join (join crate_dir ''include'') ''rgpot.h'' \<mapsto> text @ [newline]) \<and>
           text = trim_end (header (add_version_block (version_block ver a b c) config)) \<and>
           (\<forall>t d. text = t @ [d] \<longrightarrow> \<not> space1 d) \<and>
           (rest = [] \<longrightarrow> ver = a @ ''.'' @ b @ ''.'' @ c))
    | _ \<Rightarrow> (\<exists>msg s'. generate_c_header B crate_dir s = Build_panicked msg s' \<and> files s' = files s)"
proof (cases "length (split_on (CHR ''.'') ver) < 3")
  case True
  from short_version [OF assms True, of s] have
    "\<exists>msg s'. generate_c_header B crate_dir s = Build_panicked msg s' \<and> files s' = files s" by auto
  with True show ?thesis by (auto split: list.split)
next
  case False
  then obtain a b c rest where parts: "split_on (CHR ''.'') ver = a # b # c # rest"
    by (metis length_0_conv length_Cons list.exhaust not_less_eq numeral_3_eq_3 less_Suc0 zero_less_Suc)
  have "ver = a @ ''.'' @ b @ ''.'' @ c" if "rest = []"
    using glue_split_on [of "CHR ''.''" ver] parts that by simp
  with header_written [OF assms parts, of s] parts show ?thesis by (auto dest: trim_end_no_space)
qed

text \<open>A schema compiler that rejects the empty file.\<close>

definition output_name :: "string \<Rightarrow> string \<Rightarrow> string" where
  "output_name d f = (let rel = drop (length (join d [])) f in take (length rel - length ''.capnp'') rel @ ''_capnp.rs'')"

definition sample_capnpc :: "string \<Rightarrow> string \<Rightarrow> fs_state \<Rightarrow> string + fs_state" where
  "sample_capnpc d f s = (case files s f of
      None \<Rightarrow> Inl ''no such file''
    | Some c \<Rightarrow> if c = [] then Inl ''parse error''
               else Inr (s\<lparr>files := (files s)(join ''o'' (output_name d f) \<mapsto> ''mod '' @ c)\<rparr>))"

definition sample_tools :: build_tools where
  "sample_tools = \<lparr>
     env_var = [''CARGO_PKG_VERSION'' \<mapsto> ''1.0.1'', ''CARGO_MANIFEST_DIR'' \<mapsto> ''c'', ''OUT_DIR'' \<mapsto> ''o''],
     writable = (\<lambda>_. True),
     config_from_file = (\<lambda>_ _. Inr \<lparr>after_includes = None, other_settings = 0\<rparr>),
     generate_bindings = (\<lambda>_ _. Inr 0),
     write_bindings = (\<lambda>_ p s. Built () (s\<lparr>files := (files s)(p \<mapsto> ''int x;  '')\<rparr>)),
     run_capnpc = sample_capnpc\<rparr>"

theorem header_generated_witness:
  "\<exists>s'. generate_c_header sample_tools ''c'' \<lparr>files = Map.empty, dirs = {}\<rparr> = Built () s' \<and>
     files s' ''c/include/rgpot.h'' = Some (''int x;'' @ [newline])"
proof -
  have "to_str ''int x;  '' = Inr ''int x;  ''" by (rule to_str_ascii) auto
  then have "tools_ok sample_tools ''c'' ''1.0.1'' \<lparr>after_includes = None, other_settings = 0\<rparr> (\<lambda>_. ''int x;  '')"
    by (simp add: tools_ok_def sample_tools_def)
  from header_generated [OF this, of "\<lparr>files = Map.empty, dirs = {}\<rparr>"] show ?thesis
    by (auto simp: join_def trim_end_def space1_def space2_def space3_def)
qed

text \<open>
  What the script relies on of the schema compiler: a file \<open>rel.capnp\<close> below the source prefix is
  compiled to \<open>rel_capnp.rs\<close> below \<^verbatim>\<open>OUT_DIR\<close>, with the directories in between kept, and a text
  that is no schema is an error.
\<close>

definition capnpc_ok :: "build_tools \<Rightarrow> string \<Rightarrow> (string \<rightharpoonup> string) \<Rightarrow> bool" where
  "capnpc_ok B out compiled \<longleftrightarrow>
     env_var B ''OUT_DIR'' = Some out \<and> writable B (join out ''Potentials_capnp.rs'') \<and>
     (\<forall>d rel s c. files s (join d (rel @ ''.capnp'')) = Some c \<longrightarrow>
        (case compiled c of
           Some rs \<Rightarrow> run_capnpc B d (join d (rel @ ''.capnp'')) s =
             Inr (s\<lparr>files := (files s)(join out (rel @ ''_capnp.rs'') \<mapsto> rs)\<rparr>)
         | None \<Rightarrow> \<exists>e. run_capnpc B d (join d (rel @ ''.capnp'')) s = Inl e))"

lemma capnpc_okD:
  assumes "capnpc_ok B out compiled" "files s (join d ''Potentials.capnp'') = Some c"
  shows "case compiled c of
      Some rs \<Rightarrow> run_capnpc B d (join d ''Potentials.capnp'') s =
        Inr (s\<lparr>files := (files s)(join out ''Potentials_capnp.rs'' \<mapsto> rs)\<rparr>)
    | None \<Rightarrow> \<exists>e. run_capnpc B d (join d ''Potentials.capnp'') s = Inl e"
proof -
  have "\<forall>d rel s c. files s (join d (rel @ ''.capnp'')) = Some c \<longrightarrow>
        (case compiled c of
           Some rs \<Rightarrow> run_capnpc B d (join d (rel @ ''.capnp'')) s =
             Inr (s\<lparr>files := (files s)(join out (rel @ ''_capnp.rs'') \<mapsto> rs)\<rparr>)
         | None \<Rightarrow> \<exists>e. run_capnpc B d (join d (rel @ ''.capnp'')) s = Inl e)"
    using assms(1) by (simp add: capnpc_ok_def)
  from this [THEN spec, of d, THEN spec, of "''Potentials''", THEN spec, of s, THEN spec, of c] assms(2)
  show ?thesis by (cases "compiled c") simp_all
qed

lemma join_prefix: "join d q = join d [] @ q"
  by (simp add: join_def)

lemma sample_capnpc_ok: "capnpc_ok sample_tools ''o'' (\<lambda>c. if c = [] then None else Some (''mod '' @ c))"
proof -
  have "output_name d (join d (rel @ ''.capnp'')) = rel @ ''_capnp.rs''" for d rel
    unfolding output_name_def by (subst join_prefix) simp
  then show ?thesis by (simp add: capnpc_ok_def sample_tools_def sample_capnpc_def)
qed

definition schema_source :: "string \<Rightarrow> fs_state \<Rightarrow> string option" where
  "schema_source crate_dir s =
     (case files s (join (join crate_dir ''schema'') ''Potentials.capnp'') of
        Some c \<Rightarrow> Some c
      | None \<Rightarrow> files s (join (monorepo_dir crate_dir) ''Potentials.capnp''))"

lemma schema_compiled:
  assumes tools: "capnpc_ok B out compiled" and c: "files s (join d ''Potentials.capnp'') = Some c"
  shows "case compiled c of
      Some rs \<Rightarrow> fs_do (expect msg) (run_capnpc B d (join d ''Potentials.capnp'')) s =
        Built () (s\<lparr>files := (files s)(join out ''Potentials_capnp.rs'' \<mapsto> rs)\<rparr>)
    | None \<Rightarrow> \<exists>e. fs_do (expect msg) (run_capnpc B d (join d ''Potentials.capnp'')) s = Build_panicked (msg @ '': '' @ e) s"
  using capnpc_okD [OF assms] by (auto simp: build_exec split: option.splits)

text \<open>
  C18: The schema module.  With the RPC feature the build compiles the bundled schema if the crate
  has one, else that of the monorepo.  If it compiles, the module is the file that \<^verbatim>\<open>lib.rs\<close>
  includes from \<^verbatim>\<open>OUT_DIR\<close>, under that very name whichever of the two it was compiled from;
  if not, the build panics with the text of the script and leaves the files alone.  If
  there is neither, that file is a stub that is only a comment, so a missing schema does not
  fail the script.  No other file is changed.
\<close>

theorem schema_module_available:
  assumes tools: "capnpc_ok B out compiled" and dir: "env_var B ''CARGO_MANIFEST_DIR'' = Some crate_dir"
    and files_only: "dirs s \<inter> {join (join crate_dir ''schema'') ''Potentials.capnp'',
        join (monorepo_dir crate_dir) ''Potentials.capnp''} = {}"
  shows "case schema_source crate_dir s of
      None \<Rightarrow> build_main B False True s =
        Built () (s\<lparr>files := (files s)(join out ''Potentials_capnp.rs'' \<mapsto> stub_text)\<rparr>)
    | Some c \<Rightarrow> (case compiled c of
          Some rs \<Rightarrow> build_main B False True s =
            Built () (s\<lparr>files := (files s)(join out ''Potentials_capnp.rs'' \<mapsto> rs)\<rparr>)
        | None \<Rightarrow> \<exists>e. build_main B False True s = Build_panicked (compile_failed @ '': '' @ e) s)"
proof -
  let ?b = "join crate_dir ''schema''" and ?m = "monorepo_dir crate_dir"
  have main: "build_main B False True s = compile_capnp_schema B crate_dir s"
    using dir by (simp add: build_main_def build_exec)
  have ex: "path_exists s (join ?b ''Potentials.capnp'') \<longleftrightarrow> files s (join ?b ''Potentials.capnp'') \<noteq> None"
    "path_exists s (join ?m ''Potentials.capnp'') \<longleftrightarrow> files s (join ?m ''Potentials.capnp'') \<noteq> None"
    using files_only by (auto simp: path_exists_def)
  consider (bundled) c where "files s (join ?b ''Potentials.capnp'') = Some c"
    | (monorepo) c where "files s (join ?b ''Potentials.capnp'') = None" "files s (join ?m ''Potentials.capnp'') = Some c"
    | (missing) "files s (join ?b ''Potentials.capnp'') = None" "files s (join ?m ''Potentials.capnp'') = None" by blast
  then show ?thesis
  proof cases
    case bundled
    with schema_compiled [OF tools bundled, of compile_failed] show ?thesis
      unfolding main by (cases "compiled c") (simp_all add: compile_capnp_schema_def Let_def ex schema_source_def)
  next
    case monorepo
    with schema_compiled [OF tools monorepo(2), of compile_failed] show ?thesis
      unfolding main by (cases "compiled c") (simp_all add: compile_capnp_schema_def Let_def ex schema_source_def)
  next
    case missing
    then show ?thesis using tools
      unfolding main by (simp add: compile_capnp_schema_def ex schema_source_def capnpc_ok_def build_exec)
  qed
qed

theorem schema_module_available_witness:
  "(\<exists>s'. build_main sample_tools False True
       \<lparr>files = [''c/../CppCore/rgpot/rpc/Potentials.capnp'' \<mapsto> ''x''], dirs = {''c''}\<rparr> = Built () s' \<and>
     files s' ''o/Potentials_capnp.rs'' = Some ''mod x'') \<and>
   (\<exists>e s'. build_main sample_tools False True
       \<lparr>files = [''c/schema/Potentials.capnp'' \<mapsto> []], dirs = {''c''}\<rparr> = Build_panicked (compile_failed @ '': '' @ e) s')"
proof -
  let ?s = "\<lambda>p c. \<lparr>files = [p \<mapsto> c], dirs = {''c''}\<rparr>"
  have dir: "env_var sample_tools ''CARGO_MANIFEST_DIR'' = Some ''c''" by (simp add: sample_tools_def)
  have "dirs (?s p c) \<inter> {join (join ''c'' ''schema'') ''Potentials.capnp'', join (monorepo_dir ''c'') ''Potentials.capnp''} = {}" for p c
    by (simp add: join_def monorepo_dir_def)
  note t = schema_module_available [OF sample_capnpc_ok dir this]
  from t [of "''c/../CppCore/rgpot/rpc/Potentials.capnp''" "''x''"] t [of "''c/schema/Potentials.capnp''" "[]"]
  show ?thesis by (simp add: schema_source_def join_def monorepo_dir_def) blast
qed

end
