(* ===== verification/Rgpot_Testing.thy ===== *)
theory Rgpot_Testing
  imports Rgpot_Callback
begin

text \<open>
  The frame in which the source's own unit tests are run against the model: assertions,
  local variables, and what it means for a test to pass.  A test passes when from every
  well-formed state it returns without a panic and leaves no allocation behind, apart
  from the thread's error message; so tests can be run in any order.  The static flags of
  the test modules (\<^verbatim>\<open>DROP_CALLED\<close>, \<^verbatim>\<open>FREE_CALLED\<close>) are locals of each test here, so tests that would
  disturb each other through them are not modelled, and the counters behind \<^verbatim>\<open>user_data\<close>, which
  have 8 or 64 bits in some tests, have 32.
\<close>

section \<open>Assertions\<close>

definition assert_that :: "bool \<Rightarrow> unit comp" where
  "assert_that b = (if b then ret () else panic (Str_payload ''assertion failed''))"

text \<open>
  Equality of doubles on their bit patterns: no NaN equals anything, the two zeros are
  equal.
\<close>

definition f64_nan :: "f64 \<Rightarrow> bool" where
  "f64_nan x \<longleftrightarrow> unat x mod 2 ^ 63 > 0x7FF * 2 ^ 52"

definition f64_eq :: "f64 \<Rightarrow> f64 \<Rightarrow> bool" where
  "f64_eq x y \<longleftrightarrow> \<not> f64_nan x \<and> \<not> f64_nan y \<and>
     (x = y \<or> unat x mod 2 ^ 63 = 0 \<and> unat y mod 2 ^ 63 = 0)"

definition assert_eq_f64 :: "f64 \<Rightarrow> f64 \<Rightarrow> unit comp" where
  "assert_eq_f64 x y = assert_that (f64_eq x y)"

definition assert_eq_f64s :: "f64 list \<Rightarrow> f64 list \<Rightarrow> unit comp" where
  "assert_eq_f64s xs ys = assert_that (list_all2 f64_eq xs ys)"

lemma assert_that_True [simp]: "assert_that True = ret ()"
  by (simp add: assert_that_def)

section \<open>Local variables of a test\<close>

definition local_var :: "block \<Rightarrow> (ptr \<Rightarrow> 'a comp) \<Rightarrow> 'a comp" where
  "local_var b body = bnd (alloc b) (\<lambda>p. with_locals [p] (body p))"

section \<open>Data of the tests\<close>

text \<open>A cubic box with sides of length ten, two atoms at distance one, a cleared output.\<close>

abbreviation box10 :: "f64 list" where
  "box10 \<equiv> [0x4024000000000000, 0, 0, 0, 0x4024000000000000, 0, 0, 0, 0x4024000000000000]"

abbreviation two_atoms :: "f64 list" where
  "two_atoms \<equiv> [0, 0, 0, 0x3FF0000000000000, 0, 0]"

abbreviation zero_out :: rgpot_force_out_t where
  "zero_out \<equiv> \<lparr>forces = null, energy = 0, variance = 0\<rparr>"

text \<open>Atomic flags; like the words passed as user data they are \<open>User_block\<close>s.\<close>

definition atomic_store :: "ptr \<Rightarrow> u32 \<Rightarrow> unit comp" where
  "atomic_store p v = bnd (load_counter p) (\<lambda>_ w. Done () (set_block p (User_block v) w))"

definition flag_store :: "ptr \<Rightarrow> bool \<Rightarrow> unit comp" where
  "flag_store p b = atomic_store p (of_bool b)"

definition flag_load :: "ptr \<Rightarrow> bool comp" where
  "flag_load p = bnd (load_counter p) (\<lambda>c. ret (c \<noteq> 0))"

section \<open>The message\<close>

text \<open>
  \<^verbatim>\<open>CStr::from_ptr(rgpot_last_error()).to_str().unwrap()\<close>, as the tests read the message.
\<close>

definition last_error_text :: "string comp" where
  "last_error_text =
     bnd rgpot_last_error (\<lambda>ptr.
     bnd (load_cstr ptr) (\<lambda>msg. case to_str msg of
         Inr s \<Rightarrow> ret s
       | Inl e \<Rightarrow> panic (String_payload (''called `Result::unwrap()` on an `Err` value: '' @ e))))"

lemma last_error_text_record:
  assumes "world_ok w" and "to_str (stored_message msg) = Inr s"
  shows "last_error_text (record_error msg w) = Done s (record_error msg w)"
  using read_back [OF assms(1), of msg] assms(2)
  by (auto simp: last_error_text_def bnd_def ret_def)

lemma last_error_text_ascii:
  assumes "world_ok w" and "\<forall>c \<in> set msg. 0 < (of_char c :: nat) \<and> (of_char c :: nat) < 128"
  shows "last_error_text (record_error msg w) = Done msg (record_error msg w)"
proof -
  from assms(2) have "nul_free msg" by (force simp: nul_free_def)
  moreover from assms(2) have "to_str msg = Inr msg" by (intro to_str_ascii) blast
  ultimately show ?thesis using assms(1) by (intro last_error_text_record) (simp_all add: stored_message_def)
qed

section \<open>Passing\<close>

definition ends_well :: "world \<Rightarrow> unit outcome \<Rightarrow> bool" where
  "ends_well w r \<longleftrightarrow>
     (\<exists>w'. r = Done () w' \<and> world_ok w' \<and> core_mem w' = core_mem w \<and> thread w' = thread w)"

definition passes :: "unit comp \<Rightarrow> bool" where
  "passes t \<longleftrightarrow> (\<forall>w. world_ok w \<longrightarrow> ends_well w (t w))"

text \<open>Tests one after the other.\<close>

fun run_tests :: "unit comp list \<Rightarrow> unit comp" where
  "run_tests [] = ret ()"
| "run_tests (t # ts) = bnd t (\<lambda>_. run_tests ts)"

lemma passesD:
  "passes t \<Longrightarrow> world_ok w \<Longrightarrow>
     \<exists>w'. t w = Done () w' \<and> world_ok w' \<and> core_mem w' = core_mem w \<and> thread w' = thread w"
  by (simp add: passes_def ends_well_def)

lemma passes_bnd:
  assumes t: "passes t" and u: "passes u"
  shows "passes (bnd t (\<lambda>_. u))"
  unfolding passes_def
proof (intro allI impI)
  fix w assume ok: "world_ok w"
  obtain w1 where 1: "t w = Done () w1" "world_ok w1" "core_mem w1 = core_mem w" "thread w1 = thread w"
    using passesD [OF t ok] by blast
  obtain w2 where 2: "u w1 = Done () w2" "world_ok w2" "core_mem w2 = core_mem w1" "thread w2 = thread w1"
    using passesD [OF u 1(2)] by blast
  from 1 2 show "ends_well w (bnd t (\<lambda>_. u) w)" by (simp add: bnd_def ends_well_def)
qed

lemma passes_ret: "passes (ret ())"
  by (simp add: passes_def ends_well_def ret_def)

text \<open>Passing tests pass in any selection, order and repetition.\<close>

lemma passes_run_tests: "(\<And>t. t \<in> set ts \<Longrightarrow> passes t) \<Longrightarrow> passes (run_tests ts)"
  by (induction ts) (auto intro: passes_ret passes_bnd)

section \<open>Clean ends\<close>

text \<open>
  A test without error messages ends in the state it started in, but for the allocator's
  cursor.  The rules below recognise this once the test has been executed: every fresh
  block is among the dropped ones.
\<close>

named_theorems cleanup

lemma drop_push [cleanup]: "brk w \<in> F \<Longrightarrow> drop_blocks F (push b w) = drop_blocks F (w\<lparr>brk := Suc (brk w)\<rparr>)"
  by (auto simp: drop_blocks_def push_def restrict_map_def fun_eq_iff)

lemma drop_push_brk [cleanup]: "brk w \<in> F \<Longrightarrow> drop_blocks F ((push b w)\<lparr>brk := k\<rparr>) = drop_blocks F (w\<lparr>brk := k\<rparr>)"
  by (auto simp: drop_blocks_def push_def restrict_map_def fun_eq_iff)

lemma drop_set_block [cleanup]: "p \<in> F \<Longrightarrow> drop_blocks F (set_block p b w) = drop_blocks F w"
  by (auto simp: drop_blocks_def set_block_def restrict_map_def fun_eq_iff)

lemma drop_set_block_brk [cleanup]:
  "p \<in> F \<Longrightarrow> drop_blocks F ((set_block p b w)\<lparr>brk := k\<rparr>) = drop_blocks F (w\<lparr>brk := k\<rparr>)"
  by (auto simp: drop_blocks_def set_block_def restrict_map_def fun_eq_iff)

lemma drop_drop_brk [cleanup]:
  "drop_blocks F ((drop_blocks G w)\<lparr>brk := k\<rparr>) = drop_blocks (G \<union> F) (w\<lparr>brk := k\<rparr>)"
  by (simp add: drop_blocks_def)

lemma drop_fresh:
  "world_ok w \<Longrightarrow> (\<And>p. p \<in> F \<Longrightarrow> brk w \<le> p) \<Longrightarrow> drop_blocks F (w\<lparr>brk := k\<rparr>) = w\<lparr>brk := k\<rparr>"
  using world_ok_fresh [of w] by (auto simp: drop_blocks_def restrict_map_def fun_eq_iff intro!: world.equality)

definition ends_clean :: "world \<Rightarrow> unit outcome \<Rightarrow> bool" where
  "ends_clean w r \<longleftrightarrow> (\<exists>k \<ge> brk w. r = Done () (w\<lparr>brk := k\<rparr>))"

lemma ends_clean_drop [cleanup]:
  "world_ok w \<Longrightarrow> (\<forall>p \<in> F. brk w \<le> p) \<Longrightarrow> brk w \<le> k \<Longrightarrow>
     ends_clean w (Done () (drop_blocks F (w\<lparr>brk := k\<rparr>)))"
  using drop_fresh [of w F k] by (auto simp: ends_clean_def)

lemma ends_clean_same [cleanup]: "ends_clean w (Done () w)"
  unfolding ends_clean_def by (rule exI [of _ "brk w"]) simp

lemma ends_clean_well: "world_ok w \<Longrightarrow> ends_clean w r \<Longrightarrow> ends_well w r"
  by (auto simp: ends_clean_def ends_well_def intro: world_ok_higher)

lemma passesI:
  assumes "\<And>w. world_ok w \<Longrightarrow> 0 < brk w \<Longrightarrow> ends_clean w (t w)"
  shows "passes t"
  unfolding passes_def by (intro allI impI ends_clean_well assms world_ok_brk)

section \<open>Ends with a message\<close>

text \<open>
  A test that reports an error ends with the message recorded; everything else it
  allocated is dropped.
\<close>

lemma record_error_live [simp]:
  "world_ok w \<Longrightarrow> heap w p \<noteq> None \<Longrightarrow> \<not> is_cstr (heap w p) \<Longrightarrow> heap (record_error msg w) p = heap w p"
  using record_error_keeps [of w p] by auto

lemma ends_well_record [cleanup]: "world_ok w \<Longrightarrow> ends_well w (Done () (record_error msg w))"
  by (simp add: ends_well_def error_simps)

lemma ends_well_dropped:
  assumes ok: "world_ok w" "world_ok v" and F: "\<forall>p \<in> F. heap v p \<noteq> None \<and> \<not> is_cstr (heap v p)"
    and clean: "ends_clean w (Done () (drop_blocks F v))"
  shows "ends_well w (Done () (drop_blocks F (record_error msg v)))"
proof -
  from clean obtain k where k: "k \<ge> brk w" "drop_blocks F v = w\<lparr>brk := k\<rparr>" by (auto simp: ends_clean_def)
  have "world_ok (drop_blocks F (record_error msg v))"
    using ok F by (intro world_ok_drop) (auto simp: error_simps)
  moreover have "core_mem (drop_blocks F (record_error msg v)) = core_mem (drop_blocks F v)"
    using ok by (simp add: core_mem_drop error_simps)
  moreover have "thread v = thread w" using arg_cong [OF k(2), of thread] by simp
  ultimately show ?thesis using k(2) by (simp add: ends_well_def error_simps)
qed

lemma passes_with_message:
  assumes "\<And>w. world_ok w \<Longrightarrow> 0 < brk w \<Longrightarrow> ends_well w (t w)"
  shows "passes t"
  unfolding passes_def by (intro allI impI assms world_ok_brk)

lemma world_ok_drop_live: "world_ok w \<Longrightarrow> \<forall>p \<in> F. \<not> is_cstr (heap w p) \<Longrightarrow> world_ok (drop_blocks F w)"
  by (auto intro: world_ok_drop)

lemmas report_exec = err.report err.good_after last_error_text_ascii world_ok_push world_ok_drop_live
  ends_well_dropped

section \<open>Execution\<close>

text \<open>
  Reads go address by address.  When a test is executed, \<open>heap_maps\<close> is taken out of the
  simplifier so that the map of a whole state is never built, and \<open>lazy_reads\<close> keeps it from
  visiting the state again at every read.
\<close>

lemma heap_lookup:
  "heap (push b w) p = (if p = brk w then Some b else heap w p)"
  "heap (set_block q b w) p = (if p = q then Some b else heap w p)"
  "heap (drop_blocks F w) p = (if p \<in> F then None else heap w p)"
  by (simp_all add: restrict_map_def)

lemmas heap_maps = push_sel(1) set_block_sel(1) drop_blocks_sel(1)

lemma lazy_heap: "p = q \<Longrightarrow> heap w p = heap w q"
  by simp

lemma lazy_brk: "brk w = brk w"
  by simp

lemmas lazy_reads = lazy_heap lazy_brk

text \<open>Strides of the shapes in the tests, and the definitions a test executes.\<close>

lemma row_major_small [simp]: "row_major [] = []" "row_major [a] = [1]" "row_major [a, b] = [b, 1]"
  by (simp_all add: row_major_def)

text \<open>The small numbers the tests convert.\<close>

lemma usize_as_f64_small:
  "usize_as_f64 1 = 0x3FF0000000000000" "usize_as_f64 2 = 0x4000000000000000"
  "usize_as_f64 3 = 0x4008000000000000" "usize_as_f64 4 = 0x4010000000000000"
  "usize_as_f64 5 = 0x4014000000000000" "usize_as_f64 6 = 0x4018000000000000"
  by (simp_all add: usize_as_f64_def floor_log.simps Let_def)

lemmas tensor_exec =
  rgpot_tensor_cpu_f64_2d_def rgpot_tensor_cpu_i32_1d_def rgpot_tensor_cpu_f64_matrix3_def
  create_borrowed_tensor_def create_owned_f64_tensor_def create_owned_i32_tensor_def
  rgpot_tensor_free_def run_deleter_def borrowed_deleter_def owned_f64_deleter_def owned_i32_deleter_def
  drop_borrowed_ctx_def drop_owned_f64_ctx_def drop_owned_i32_ctx_def drop_managed_def
  strides_1d strides_2d i64_slice_def f64_slice_def i32_slice_def

lemmas test_exec = local_var_def with_locals_def assert_that_def assert_eq_f64_def assert_eq_f64s_def
  f64_eq_def f64_nan_def exec Let_def heap_lookup tensor_exec

lemmas handle_exec = test_exec n_atoms_def rgpot_force_input_create_def rgpot_force_input_free_def
  rgpot_force_out_create_def
  rgpot_potential_new_def rgpot_potential_calculate_def rgpot_potential_free_def catch_unwind_def
  PotentialImpl_new_def PotentialImpl_calculate_def PotentialImpl_drop_def
  sum_callback_def writing_callback_def error_callback_def update_out_def mul_usize_def
  load_counter_def fetch_add_def atomic_store_def flag_store_def flag_load_def usize_as_f64_small

end
