(* ===== verification/Rgpot_Tensor_Tests.thy ===== *)
theory Rgpot_Tensor_Tests
  imports Rgpot_Testing
begin

unbundle bit_operations_syntax

text \<open>The tests of \<^verbatim>\<open>rgpot-core/src/tensor.rs\<close>.\<close>

section \<open>Constructors\<close>

definition borrowed_f64_2d_has_correct_metadata :: "'x env_scheme \<Rightarrow> unit comp" where
  "borrowed_f64_2d_has_correct_metadata E =
     local_var (F64s [0x3FF0000000000000, 0x4000000000000000, 0x4008000000000000,
       0x4010000000000000, 0x4014000000000000, 0x4018000000000000]) (\<lambda>data.
     bnd (rgpot_tensor_cpu_f64_2d E data 2 3) (\<lambda>tensor.
     bnd (assert_that (tensor \<noteq> null)) (\<lambda>_.
     bnd (load_managed tensor) (\<lambda>t.
     bnd (assert_that (t_device (dl_tensor t) = cpu_device)) (\<lambda>_.
     bnd (assert_that (t_dtype (dl_tensor t) = dtype_f64)) (\<lambda>_.
     bnd (assert_that (t_ndim (dl_tensor t) = 2)) (\<lambda>_.
     bnd (i64_slice (t_shape (dl_tensor t)) 2) (\<lambda>shape.
     bnd (assert_that (shape = [2, 3])) (\<lambda>_.
     bnd (i64_slice (t_strides (dl_tensor t)) 2) (\<lambda>strides.
     bnd (assert_that (strides = [3, 1])) (\<lambda>_.
     bnd (assert_that (t_byte_offset (dl_tensor t) = 0)) (\<lambda>_.
     bnd (assert_that (t_data (dl_tensor t) = data)) (\<lambda>_.
     bnd (rgpot_tensor_free E tensor) (\<lambda>_.
     bnd (f64_slice data 6) (\<lambda>xs.
     assert_eq_f64 (xs ! 0) 0x3FF0000000000000)))))))))))))))"

definition borrowed_i32_1d_has_correct_metadata :: "'x env_scheme \<Rightarrow> unit comp" where
  "borrowed_i32_1d_has_correct_metadata E =
     local_var (I32s [6, 1, 8]) (\<lambda>data.
     bnd (rgpot_tensor_cpu_i32_1d E data 3) (\<lambda>tensor.
     bnd (assert_that (tensor \<noteq> null)) (\<lambda>_.
     bnd (load_managed tensor) (\<lambda>t.
     bnd (assert_that (t_dtype (dl_tensor t) = dtype_i32)) (\<lambda>_.
     bnd (assert_that (t_ndim (dl_tensor t) = 1)) (\<lambda>_.
     bnd (i64_slice (t_shape (dl_tensor t)) 1) (\<lambda>shape.
     bnd (assert_that (shape = [3])) (\<lambda>_.
     bnd (rgpot_tensor_free E tensor) (\<lambda>_.
     bnd (i32_slice data 3) (\<lambda>xs.
     assert_that (xs ! 2 = 8)))))))))))"

definition borrowed_matrix3_is_3x3 :: "'x env_scheme \<Rightarrow> unit comp" where
  "borrowed_matrix3_is_3x3 E =
     local_var (F64s (replicate 9 0)) (\<lambda>data.
     bnd (rgpot_tensor_cpu_f64_matrix3 E data) (\<lambda>tensor.
     bnd (load_managed tensor) (\<lambda>t.
     bnd (assert_that (t_ndim (dl_tensor t) = 2)) (\<lambda>_.
     bnd (i64_slice (t_shape (dl_tensor t)) 2) (\<lambda>shape.
     bnd (assert_that (shape = [3, 3])) (\<lambda>_.
     rgpot_tensor_free E tensor))))))"

definition owned_f64_tensor_survives_source_drop :: "'x env_scheme \<Rightarrow> unit comp" where
  "owned_f64_tensor_survives_source_drop E =
     bnd (create_owned_f64_tensor E [0x3FF0000000000000, 0x4000000000000000, 0x4008000000000000,
       0x4010000000000000, 0x4014000000000000, 0x4018000000000000] [2, 3]) (\<lambda>tensor.
     bnd (load_managed tensor) (\<lambda>t.
     bnd (f64_slice (t_data (dl_tensor t)) 6) (\<lambda>slice.
     bnd (assert_eq_f64s slice [0x3FF0000000000000, 0x4000000000000000, 0x4008000000000000,
       0x4010000000000000, 0x4014000000000000, 0x4018000000000000]) (\<lambda>_.
     bnd (assert_that (flags t AND is_copied_flag E \<noteq> 0)) (\<lambda>_.
     rgpot_tensor_free E tensor)))))"

definition owned_i32_tensor_survives_source_drop :: "'x env_scheme \<Rightarrow> unit comp" where
  "owned_i32_tensor_survives_source_drop E =
     bnd (create_owned_i32_tensor E [1, 8, 6] [3]) (\<lambda>tensor.
     bnd (load_managed tensor) (\<lambda>t.
     bnd (i32_slice (t_data (dl_tensor t)) 3) (\<lambda>slice.
     bnd (assert_that (slice = [1, 8, 6])) (\<lambda>_.
     rgpot_tensor_free E tensor))))"

definition owned_cpu_f64_2d_copies_data :: "'x env_scheme \<Rightarrow> unit comp" where
  "owned_cpu_f64_2d_copies_data E =
     local_var (F64s [0x4024000000000000, 0x4034000000000000, 0x403E000000000000,
       0x4044000000000000, 0x4049000000000000, 0x404E000000000000]) (\<lambda>source.
     bnd (rgpot_tensor_owned_cpu_f64_2d E source 2 3) (\<lambda>tensor.
     bnd (load_managed tensor) (\<lambda>t.
     bnd (assert_that (t_data (dl_tensor t) \<noteq> source)) (\<lambda>_.
     bnd (f64_slice (t_data (dl_tensor t)) 6) (\<lambda>slice.
     bnd (f64_slice source 6) (\<lambda>src.
     bnd (assert_eq_f64s slice src) (\<lambda>_.
     rgpot_tensor_free E tensor)))))))"

definition tensor_free_null_is_noop :: "'x env_scheme \<Rightarrow> unit comp" where
  "tensor_free_null_is_noop E = rgpot_tensor_free E null"

section \<open>Accessors\<close>

definition device_accessor_returns_cpu :: "'x env_scheme \<Rightarrow> unit comp" where
  "device_accessor_returns_cpu E =
     local_var (F64s (replicate 6 0)) (\<lambda>data.
     bnd (rgpot_tensor_cpu_f64_2d E data 2 3) (\<lambda>tensor.
     bnd (rgpot_tensor_device tensor) (\<lambda>dev.
     bnd (assert_that (device_type dev = kDLCPU)) (\<lambda>_.
     bnd (assert_that (device_id dev = 0)) (\<lambda>_.
     rgpot_tensor_free E tensor)))))"

definition data_accessor_returns_correct_pointer :: "'x env_scheme \<Rightarrow> unit comp" where
  "data_accessor_returns_correct_pointer E =
     local_var (F64s (replicate 3 0x4045000000000000)) (\<lambda>data.
     bnd (rgpot_tensor_cpu_f64_2d E data 1 3) (\<lambda>tensor.
     bnd (rgpot_tensor_data tensor) (\<lambda>ptr.
     bnd (assert_that (ptr = data)) (\<lambda>_.
     rgpot_tensor_free E tensor))))"

definition shape_accessor_returns_correct_values :: "'x env_scheme \<Rightarrow> unit comp" where
  "shape_accessor_returns_correct_values E =
     local_var (F64s (replicate 12 0)) (\<lambda>data.
     bnd (rgpot_tensor_cpu_f64_2d E data 4 3) (\<lambda>tensor.
     local_var (I32s [0]) (\<lambda>ndim.
     bnd (rgpot_tensor_shape tensor ndim) (\<lambda>shape_ptr.
     bnd (i32_slice ndim 1) (\<lambda>nd.
     bnd (assert_that (nd ! 0 = 2)) (\<lambda>_.
     bnd (i64_slice shape_ptr (unat (nd ! 0))) (\<lambda>shape.
     bnd (assert_that (shape = [4, 3])) (\<lambda>_.
     rgpot_tensor_free E tensor))))))))"

section \<open>Validators\<close>

definition is_err :: "'e + 'a \<Rightarrow> bool" where
  "is_err r = (case r of Inl _ \<Rightarrow> True | Inr _ \<Rightarrow> False)"

definition validate_positions_ok :: "'x env_scheme \<Rightarrow> unit comp" where
  "validate_positions_ok E =
     local_var (F64s (replicate 6 0)) (\<lambda>data.
     bnd (rgpot_tensor_cpu_f64_2d E data 2 3) (\<lambda>tensor.
     bnd (validate_positions E tensor) (\<lambda>r.
     bnd (assert_that (r = Inr 2)) (\<lambda>_.
     rgpot_tensor_free E tensor))))"

definition validate_positions_null :: "'x env_scheme \<Rightarrow> unit comp" where
  "validate_positions_null E = bnd (validate_positions E null) (\<lambda>r. assert_that (is_err r))"

definition validate_positions_wrong_shape :: "'x env_scheme \<Rightarrow> unit comp" where
  "validate_positions_wrong_shape E =
     local_var (F64s (replicate 8 0)) (\<lambda>data.
     bnd (rgpot_tensor_cpu_f64_2d E data 2 4) (\<lambda>tensor.
     bnd (validate_positions E tensor) (\<lambda>r.
     bnd (assert_that (is_err r)) (\<lambda>_.
     rgpot_tensor_free E tensor))))"

definition validate_positions_wrong_dtype :: "'x env_scheme \<Rightarrow> unit comp" where
  "validate_positions_wrong_dtype E =
     local_var (I32s (replicate 6 0)) (\<lambda>data.
     bnd (rgpot_tensor_cpu_i32_1d E data 6) (\<lambda>tensor.
     bnd (validate_positions E tensor) (\<lambda>r.
     bnd (assert_that (is_err r)) (\<lambda>_.
     rgpot_tensor_free E tensor))))"

definition validate_atomic_numbers_ok :: "'x env_scheme \<Rightarrow> unit comp" where
  "validate_atomic_numbers_ok E =
     local_var (I32s [1, 8]) (\<lambda>data.
     bnd (rgpot_tensor_cpu_i32_1d E data 2) (\<lambda>tensor.
     bnd (validate_atomic_numbers E tensor 2) (\<lambda>r.
     bnd (assert_that (\<not> is_err r)) (\<lambda>_.
     rgpot_tensor_free E tensor))))"

definition validate_atomic_numbers_wrong_count :: "'x env_scheme \<Rightarrow> unit comp" where
  "validate_atomic_numbers_wrong_count E =
     local_var (I32s [1, 8]) (\<lambda>data.
     bnd (rgpot_tensor_cpu_i32_1d E data 2) (\<lambda>tensor.
     bnd (validate_atomic_numbers E tensor 3) (\<lambda>r.
     bnd (assert_that (is_err r)) (\<lambda>_.
     rgpot_tensor_free E tensor))))"

definition validate_box_matrix_ok :: "'x env_scheme \<Rightarrow> unit comp" where
  "validate_box_matrix_ok E =
     local_var (F64s (replicate 9 0)) (\<lambda>data.
     bnd (rgpot_tensor_cpu_f64_matrix3 E data) (\<lambda>tensor.
     bnd (validate_box_matrix E tensor) (\<lambda>r.
     bnd (assert_that (\<not> is_err r)) (\<lambda>_.
     rgpot_tensor_free E tensor))))"

definition validate_box_matrix_wrong_shape :: "'x env_scheme \<Rightarrow> unit comp" where
  "validate_box_matrix_wrong_shape E =
     local_var (F64s (replicate 6 0)) (\<lambda>data.
     bnd (rgpot_tensor_cpu_f64_2d E data 2 3) (\<lambda>tensor.
     bnd (validate_box_matrix E tensor) (\<lambda>r.
     bnd (assert_that (is_err r)) (\<lambda>_.
     rgpot_tensor_free E tensor))))"

section \<open>Strides\<close>

definition row_major_strides_1d :: "'x env_scheme \<Rightarrow> unit comp" where
  "row_major_strides_1d E = bnd (compute_row_major_strides E [5]) (\<lambda>s. assert_that (s = [1]))"

definition row_major_strides_2d :: "'x env_scheme \<Rightarrow> unit comp" where
  "row_major_strides_2d E = bnd (compute_row_major_strides E [4, 3]) (\<lambda>s. assert_that (s = [3, 1]))"

definition row_major_strides_3d :: "'x env_scheme \<Rightarrow> unit comp" where
  "row_major_strides_3d E = bnd (compute_row_major_strides E [2, 3, 4]) (\<lambda>s. assert_that (s = [12, 4, 1]))"

definition row_major_strides_empty :: "'x env_scheme \<Rightarrow> unit comp" where
  "row_major_strides_empty E = bnd (compute_row_major_strides E []) (\<lambda>s. assert_that (s = []))"

section \<open>They pass\<close>

definition tensor_tests :: "'x env_scheme \<Rightarrow> unit comp list" where
  "tensor_tests E = [borrowed_f64_2d_has_correct_metadata E, borrowed_i32_1d_has_correct_metadata E,
     borrowed_matrix3_is_3x3 E, owned_f64_tensor_survives_source_drop E,
     owned_i32_tensor_survives_source_drop E, owned_cpu_f64_2d_copies_data E, tensor_free_null_is_noop E,
     device_accessor_returns_cpu E, data_accessor_returns_correct_pointer E,
     shape_accessor_returns_correct_values E, validate_positions_ok E, validate_positions_null E,
     validate_positions_wrong_shape E, validate_positions_wrong_dtype E, validate_atomic_numbers_ok E,
     validate_atomic_numbers_wrong_count E, validate_box_matrix_ok E, validate_box_matrix_wrong_shape E,
     row_major_strides_1d E, row_major_strides_2d E, row_major_strides_3d E, row_major_strides_empty E]"

lemma borrowed_f64_2d_passes: "passes (borrowed_f64_2d_has_correct_metadata E)"
  by (rule passesI) (simp add: borrowed_f64_2d_has_correct_metadata_def test_exec cleanup
      del: heap_maps cong: lazy_reads)

lemma borrowed_i32_1d_passes: "passes (borrowed_i32_1d_has_correct_metadata E)"
  by (rule passesI) (simp add: borrowed_i32_1d_has_correct_metadata_def test_exec cleanup
      del: heap_maps cong: lazy_reads)

lemma borrowed_matrix3_passes: "passes (borrowed_matrix3_is_3x3 E)"
  by (rule passesI) (simp add: borrowed_matrix3_is_3x3_def test_exec cleanup
      del: heap_maps cong: lazy_reads)

lemma owned_passes:
  assumes "is_copied_flag E \<noteq> 0"
  shows "passes (owned_f64_tensor_survives_source_drop E)" "passes (owned_i32_tensor_survives_source_drop E)"
    "passes (owned_cpu_f64_2d_copies_data E)"
  by (rule passesI, simp add: owned_f64_tensor_survives_source_drop_def owned_i32_tensor_survives_source_drop_def
      owned_cpu_f64_2d_copies_data_def rgpot_tensor_owned_cpu_f64_2d_def mul_i64_def test_exec cleanup assms)+

lemma tensor_accessor_passes:
  "passes (tensor_free_null_is_noop E)" "passes (device_accessor_returns_cpu E)"
  "passes (data_accessor_returns_correct_pointer E)" "passes (shape_accessor_returns_correct_values E)"
  by (rule passesI, simp add: tensor_free_null_is_noop_def device_accessor_returns_cpu_def
      data_accessor_returns_correct_pointer_def shape_accessor_returns_correct_values_def
      rgpot_tensor_device_def rgpot_tensor_data_def rgpot_tensor_shape_def store_i32_def cpu_device_def
      test_exec cleanup
      del: heap_maps cong: lazy_reads)+

lemma validate_positions_passes:
  "passes (validate_positions_ok E)" "passes (validate_positions_null E)"
  "passes (validate_positions_wrong_shape E)" "passes (validate_positions_wrong_dtype E)"
  by (rule passesI, simp add: validate_positions_ok_def validate_positions_null_def
      validate_positions_wrong_shape_def validate_positions_wrong_dtype_def validate_positions_def
      dtype_f64_def dtype_i32_def is_err_def test_exec cleanup
      del: heap_maps cong: lazy_reads)+

lemma validate_others_passes:
  "passes (validate_atomic_numbers_ok E)" "passes (validate_atomic_numbers_wrong_count E)"
  "passes (validate_box_matrix_ok E)" "passes (validate_box_matrix_wrong_shape E)"
  by (rule passesI, simp add: validate_atomic_numbers_ok_def validate_atomic_numbers_wrong_count_def
      validate_box_matrix_ok_def validate_box_matrix_wrong_shape_def validate_atomic_numbers_def
      validate_box_matrix_def is_err_def test_exec cleanup
      del: heap_maps cong: lazy_reads)+

lemma strides_passes:
  "passes (row_major_strides_1d E)" "passes (row_major_strides_2d E)"
  "passes (row_major_strides_3d E)" "passes (row_major_strides_empty E)"
  by (rule passesI, simp add: row_major_strides_1d_def row_major_strides_2d_def row_major_strides_3d_def
      row_major_strides_empty_def compute_row_major_strides_def mul_i64_def assert_that_def exec Let_def
      eval_nat_numeral cleanup)+

lemmas tensor_test_lemmas = borrowed_f64_2d_passes borrowed_i32_1d_passes borrowed_matrix3_passes
  tensor_accessor_passes validate_positions_passes validate_others_passes strides_passes

text \<open>
  Every test of \<^verbatim>\<open>tensor.rs\<close> passes, with or without overflow checks.  The one thing the
  tests assume of the DLPack crate is that its copied flag is not zero.
\<close>

lemma tensor_tests_pass:
  assumes "is_copied_flag E \<noteq> 0" and "t \<in> set (tensor_tests E)"
  shows "passes t"
  using assms(2) owned_passes [OF assms(1)] by (auto simp: tensor_tests_def intro: tensor_test_lemmas)

end
