(* ===== verification/Rgpot_Status_Tests.thy ===== *)
theory Rgpot_Status_Tests
  imports Rgpot_Testing
begin

text \<open>The tests of \<^verbatim>\<open>rgpot-core/src/status.rs\<close>.\<close>

definition test_set_and_get_last_error :: "unit comp" where
  "test_set_and_get_last_error =
     bnd (set_last_error ''test error'') (\<lambda>_.
     bnd last_error_text (\<lambda>msg.
     assert_that (msg = ''test error'')))"

definition test_catch_unwind_success :: "unit comp" where
  "test_catch_unwind_success =
     bnd (catch_unwind (ret RGPOT_SUCCESS)) (\<lambda>status.
     assert_that (status = RGPOT_SUCCESS))"

definition test_catch_unwind_panic :: "unit comp" where
  "test_catch_unwind_panic =
     bnd (catch_unwind (panic (Str_payload ''boom''))) (\<lambda>status.
     bnd (assert_that (status = RGPOT_INTERNAL_ERROR)) (\<lambda>_.
     bnd last_error_text (\<lambda>msg.
     assert_that (msg = ''boom''))))"

definition test_error_overwrite :: "unit comp" where
  "test_error_overwrite =
     bnd (set_last_error ''first'') (\<lambda>_.
     bnd (set_last_error ''second'') (\<lambda>_.
     bnd last_error_text (\<lambda>msg.
     assert_that (msg = ''second''))))"

definition test_interior_nul_is_handled :: "unit comp" where
  "test_interior_nul_is_handled =
     bnd (set_last_error (''has'' @ [CHR 0x00] @ ''interior nul'')) (\<lambda>_.
     bnd last_error_text (\<lambda>msg.
     assert_that (msg = ''(error message contained interior NUL)'')))"

definition test_catch_unwind_returns_callback_status :: "unit comp" where
  "test_catch_unwind_returns_callback_status =
     bnd (catch_unwind (ret RGPOT_RPC_ERROR)) (\<lambda>status.
     assert_that (status = RGPOT_RPC_ERROR))"

text \<open>A panic with format arguments carries a \<^verbatim>\<open>String\<close>.\<close>

definition test_catch_unwind_string_panic :: "unit comp" where
  "test_catch_unwind_string_panic =
     bnd (catch_unwind (panic (String_payload ''formatted panic''))) (\<lambda>status.
     bnd (assert_that (status = RGPOT_INTERNAL_ERROR)) (\<lambda>_.
     bnd last_error_text (\<lambda>msg.
     assert_that (msg = ''formatted panic''))))"

definition status_tests :: "unit comp list" where
  "status_tests =
     [test_set_and_get_last_error, test_catch_unwind_success, test_catch_unwind_panic,
      test_error_overwrite, test_interior_nul_is_handled,
      test_catch_unwind_returns_callback_status, test_catch_unwind_string_panic]"

section \<open>They pass\<close>

lemma last_error_text_nul:
  "world_ok w \<Longrightarrow> \<not> nul_free msg \<Longrightarrow>
     last_error_text (record_error msg w) = Done interior_nul_message (record_error msg w)"
  by (rule last_error_text_record) (simp_all add: stored_message_def interior_nul_message_def to_str_def)

lemmas status_exec = passes_def bnd_def ret_def panic_def catch_unwind_def panic_message_def
  err.report err.good_after last_error_text_ascii

lemma status_test_passes:
  "passes test_set_and_get_last_error" "passes test_catch_unwind_success"
  "passes test_catch_unwind_panic" "passes test_error_overwrite"
  "passes test_catch_unwind_returns_callback_status" "passes test_catch_unwind_string_panic"
  by (simp_all add: test_set_and_get_last_error_def test_catch_unwind_success_def
      test_catch_unwind_panic_def test_error_overwrite_def
      test_catch_unwind_returns_callback_status_def test_catch_unwind_string_panic_def
      status_exec ends_well_def error_simps)

lemma interior_nul_passes: "passes test_interior_nul_is_handled"
  by (simp add: test_interior_nul_is_handled_def status_exec last_error_text_nul nul_free_def
      interior_nul_message_def ends_well_def error_simps)

lemma status_tests_pass: "t \<in> set status_tests \<Longrightarrow> passes t"
  using status_test_passes interior_nul_passes by (auto simp: status_tests_def)

end
