(* ===== verification/Rgpot_Types_Tests.thy ===== *)
theory Rgpot_Types_Tests
  imports Rgpot_Testing
begin

text \<open>The tests of \<^verbatim>\<open>rgpot-core/src/types.rs\<close> and of \<^verbatim>\<open>c_api/types.rs\<close>.\<close>

section \<open>Structs\<close>

definition n_atoms_from_positions_tensor :: "'x env_scheme \<Rightarrow> unit comp" where
  "n_atoms_from_positions_tensor E =
     local_var (F64s (replicate 6 0)) (\<lambda>pos.
     bnd (rgpot_tensor_cpu_f64_2d E pos 2 3) (\<lambda>tensor.
     let input = \<lparr>positions = tensor, atomic_numbers = null, box_matrix = null\<rparr> in
     bnd (n_atoms input) (\<lambda>n.
     bnd (assert_that (n = Some 2)) (\<lambda>_.
     rgpot_tensor_free E tensor))))"

definition n_atoms_null_positions :: "unit comp" where
  "n_atoms_null_positions =
     (let input = \<lparr>positions = null, atomic_numbers = null, box_matrix = null\<rparr> in
      bnd (n_atoms input) (\<lambda>n. assert_that (n = None)))"

definition force_out_starts_with_null_forces :: "unit comp" where
  "force_out_starts_with_null_forces =
     (let out = \<lparr>forces = null, energy = 0, variance = 0\<rparr> in
      bnd (assert_that (forces out = null)) (\<lambda>_.
      bnd (assert_eq_f64 (energy out) 0) (\<lambda>_.
      assert_eq_f64 (variance out) 0)))"

definition force_out_energy_and_variance_are_independent :: "unit comp" where
  "force_out_energy_and_variance_are_independent =
     (let out = \<lparr>forces = null, energy = 0x3FF8000000000000, variance = 0x4004000000000000\<rparr> in
      bnd (assert_eq_f64 (energy out) 0x3FF8000000000000) (\<lambda>_.
      bnd (assert_eq_f64 (variance out) 0x4004000000000000) (\<lambda>_.
      let out = out\<lparr>energy := 0xC008000000000000\<rparr> in
      bnd (assert_eq_f64 (energy out) 0xC008000000000000) (\<lambda>_.
      assert_eq_f64 (variance out) 0x4004000000000000))))"

definition full_input_with_tensors :: "'x env_scheme \<Rightarrow> unit comp" where
  "full_input_with_tensors E =
     local_var (F64s two_atoms) (\<lambda>pos.
     local_var (I32s [1, 1]) (\<lambda>atmnrs.
     local_var (F64s box10) (\<lambda>box_p.
     bnd (rgpot_tensor_cpu_f64_2d E pos 2 3) (\<lambda>pos_t.
     bnd (rgpot_tensor_cpu_i32_1d E atmnrs 2) (\<lambda>atm_t.
     bnd (rgpot_tensor_cpu_f64_matrix3 E box_p) (\<lambda>box_t.
     let input = \<lparr>positions = pos_t, atomic_numbers = atm_t, box_matrix = box_t\<rparr> in
     bnd (n_atoms input) (\<lambda>n.
     bnd (assert_that (n = Some 2)) (\<lambda>_.
     bnd (load_managed pos_t) (\<lambda>pt.
     bnd (f64_slice (t_data (dl_tensor pt)) 6) (\<lambda>data.
     bnd (f64_slice pos 6) (\<lambda>p.
     bnd (assert_eq_f64s data p) (\<lambda>_.
     bnd (rgpot_tensor_free E pos_t) (\<lambda>_.
     bnd (rgpot_tensor_free E atm_t) (\<lambda>_.
     rgpot_tensor_free E box_t))))))))))))))"

section \<open>Constructors and destructor\<close>

definition force_input_create_produces_valid_tensors :: "'x env_scheme \<Rightarrow> unit comp" where
  "force_input_create_produces_valid_tensors E =
     local_var (F64s [0x3FF0000000000000, 0x4000000000000000, 0x4008000000000000,
       0x4010000000000000, 0x4014000000000000, 0x4018000000000000]) (\<lambda>pos.
     local_var (I32s [6, 1]) (\<lambda>atmnrs.
     local_var (F64s (replicate 9 0x4024000000000000)) (\<lambda>box_p.
     bnd (rgpot_force_input_create E 2 pos atmnrs box_p) (\<lambda>input.
     bnd (assert_that (positions input \<noteq> null)) (\<lambda>_.
     bnd (assert_that (atomic_numbers input \<noteq> null)) (\<lambda>_.
     bnd (assert_that (box_matrix input \<noteq> null)) (\<lambda>_.
     bnd (load_managed (positions input)) (\<lambda>pt.
     bnd (assert_that (t_ndim (dl_tensor pt) = 2)) (\<lambda>_.
     bnd (assert_that (device_type (t_device (dl_tensor pt)) = kDLCPU)) (\<lambda>_.
     bnd (i64_slice (t_shape (dl_tensor pt)) 2) (\<lambda>shape.
     bnd (assert_that (shape = [2, 3])) (\<lambda>_.
     bnd (f64_slice (t_data (dl_tensor pt)) 6) (\<lambda>data.
     bnd (f64_slice pos 6) (\<lambda>p.
     bnd (assert_eq_f64s data p) (\<lambda>_.
     local_var (Force_input input) (\<lambda>input.
     bnd (rgpot_force_input_free E input) (\<lambda>_.
     bnd (load_input input) (\<lambda>inp.
     assert_that (positions inp = null)))))))))))))))))))"

definition force_input_free_null_is_noop :: "'x env_scheme \<Rightarrow> unit comp" where
  "force_input_free_null_is_noop E = rgpot_force_input_free E null"

definition force_out_create_starts_null :: "unit comp" where
  "force_out_create_starts_null =
     bnd rgpot_force_out_create (\<lambda>out.
     bnd (assert_that (forces out = null)) (\<lambda>_.
     bnd (assert_eq_f64 (energy out) 0) (\<lambda>_.
     assert_eq_f64 (variance out) 0)))"

definition force_input_n_atoms_accessor :: "'x env_scheme \<Rightarrow> unit comp" where
  "force_input_n_atoms_accessor E =
     local_var (F64s (replicate 9 0)) (\<lambda>pos.
     local_var (I32s (replicate 3 1)) (\<lambda>atmnrs.
     local_var (F64s (replicate 9 0)) (\<lambda>box_p.
     bnd (rgpot_force_input_create E 3 pos atmnrs box_p) (\<lambda>input.
     bnd (n_atoms input) (\<lambda>n.
     bnd (assert_that (n = Some 3)) (\<lambda>_.
     local_var (Force_input input) (\<lambda>input.
     rgpot_force_input_free E input)))))))"

definition types_tests :: "'x env_scheme \<Rightarrow> unit comp list" where
  "types_tests E =
     [n_atoms_from_positions_tensor E, n_atoms_null_positions, force_out_starts_with_null_forces,
      force_out_energy_and_variance_are_independent, full_input_with_tensors E,
      force_input_create_produces_valid_tensors E, force_input_free_null_is_noop E,
      force_out_create_starts_null, force_input_n_atoms_accessor E]"

section \<open>They pass\<close>

lemma struct_test_passes:
  "passes (n_atoms_from_positions_tensor E)" "passes n_atoms_null_positions"
  "passes force_out_starts_with_null_forces" "passes force_out_energy_and_variance_are_independent"
  "passes (force_input_free_null_is_noop E)" "passes force_out_create_starts_null"
  by (rule passesI, simp add: n_atoms_from_positions_tensor_def n_atoms_null_positions_def
      force_out_starts_with_null_forces_def force_out_energy_and_variance_are_independent_def
      force_input_free_null_is_noop_def force_out_create_starts_null_def handle_exec cleanup
      del: heap_maps cong: lazy_reads)+

lemma full_input_passes: "passes (full_input_with_tensors E)"
  by (rule passesI) (simp add: full_input_with_tensors_def handle_exec cleanup
      del: heap_maps cong: lazy_reads)

lemma valid_tensors_passes: "passes (force_input_create_produces_valid_tensors E)"
  by (rule passesI)
    (simp add: force_input_create_produces_valid_tensors_def cpu_device_def handle_exec cleanup
      del: heap_maps cong: lazy_reads)

lemma n_atoms_accessor_passes: "passes (force_input_n_atoms_accessor E)"
  by (rule passesI) (simp add: force_input_n_atoms_accessor_def handle_exec cleanup
      del: heap_maps cong: lazy_reads)

lemma types_tests_pass: "t \<in> set (types_tests E) \<Longrightarrow> passes t"
  by (auto simp: types_tests_def intro: struct_test_passes full_input_passes valid_tensors_passes
      n_atoms_accessor_passes)

end
