(* ===== verification/Rgpot_Potential_Tests.thy ===== *)
theory Rgpot_Potential_Tests
  imports Rgpot_Testing
begin

text \<open>
  The tests of \<^verbatim>\<open>rgpot-core/src/potential.rs\<close>.  The one that only checks at compile time
  that the handle may be sent between threads has no run to model.  A static is a block
  that lives as long as the tests that name it; a flag or a word the tests pass as user
  data is a \<open>User_block\<close>.
\<close>

section \<open>Helpers of the tests\<close>

text \<open>A handle kept in a local variable is dropped when its scope ends, also by a panic.\<close>

definition local_pot :: "'x env_scheme \<Rightarrow> PotentialImpl \<Rightarrow> (PotentialImpl \<Rightarrow> unit comp) \<Rightarrow> unit comp" where
  "local_pot E pot body w = (case body pot w of
      Done x w' \<Rightarrow> PotentialImpl_drop E pot w'
    | Panicked e w' \<Rightarrow> bnd (PotentialImpl_drop E pot) (\<lambda>_. panic e) w'
    | Aborted \<Rightarrow> Aborted
    | Undefined \<Rightarrow> Undefined)"

record TestIO =
  io_pos :: ptr
  io_atmnrs :: ptr
  io_box :: ptr

definition TestIO_new :: "'x env_scheme \<Rightarrow> usize \<Rightarrow> TestIO comp" where
  "TestIO_new E n =
     bnd (mul_usize E n 3) (\<lambda>n3.
     bnd (alloc (F64s (replicate (unat n3) 0))) (\<lambda>pos.
     bnd (alloc (I32s (replicate (unat n) 1))) (\<lambda>atmnrs.
     bnd (alloc (F64s box10)) (\<lambda>box_p.
     ret \<lparr>io_pos = pos, io_atmnrs = atmnrs, io_box = box_p\<rparr>))))"

definition local_io :: "'x env_scheme \<Rightarrow> usize \<Rightarrow> (TestIO \<Rightarrow> unit comp) \<Rightarrow> unit comp" where
  "local_io E n body =
     bnd (TestIO_new E n) (\<lambda>io. with_locals [io_pos io, io_atmnrs io, io_box io] (body io))"

definition vec_i32_len :: "ptr \<Rightarrow> usize comp" where
  "vec_i32_len p w = (case heap w p of Some (I32s xs) \<Rightarrow> Done (word_of_nat (length xs)) w | _ \<Rightarrow> Undefined)"

definition make_input :: "'x env_scheme \<Rightarrow> TestIO \<Rightarrow> rgpot_force_input_t comp" where
  "make_input E self =
     bnd (vec_i32_len (io_atmnrs self)) (\<lambda>n.
     bnd (rgpot_tensor_cpu_f64_2d E (io_pos self) n 3) (\<lambda>p.
     bnd (rgpot_tensor_cpu_i32_1d E (io_atmnrs self) n) (\<lambda>a.
     bnd (rgpot_tensor_cpu_f64_matrix3 E (io_box self)) (\<lambda>b.
     ret \<lparr>positions = p, atomic_numbers = a, box_matrix = b\<rparr>))))"

definition free_input :: "'x env_scheme \<Rightarrow> ptr \<Rightarrow> unit comp" where
  "free_input E input =
     bnd (load_input input) (\<lambda>inp.
     bnd (rgpot_tensor_free E (positions inp)) (\<lambda>_.
     bnd (rgpot_tensor_free E (atomic_numbers inp)) (\<lambda>_.
     rgpot_tensor_free E (box_matrix inp))))"

definition mock_callback :: "'x env_scheme \<Rightarrow> ptr \<Rightarrow> ptr \<Rightarrow> ptr \<Rightarrow> rgpot_status_t comp" where
  "mock_callback E ud input output = extern_C
     (bnd (load_input input) (\<lambda>inp.
      bnd (n_atoms inp) (\<lambda>on.
      let n = (case on of Some n \<Rightarrow> n | None \<Rightarrow> 0) in
      bnd (update_out output (\<lambda>out. out\<lparr>energy := usize_as_f64 n\<rparr>)) (\<lambda>_.
      bnd (update_out output (\<lambda>out. out\<lparr>variance := 0\<rparr>)) (\<lambda>_.
      bnd (mul_usize E n 3) (\<lambda>n3.
      bnd (create_owned_f64_tensor E (replicate (unat n3) 0) [n, 3]) (\<lambda>t.
      bnd (update_out output (\<lambda>out. out\<lparr>forces := t\<rparr>)) (\<lambda>_.
      ret RGPOT_SUCCESS))))))))"

definition count_cb :: "ptr \<Rightarrow> ptr \<Rightarrow> ptr \<Rightarrow> rgpot_status_t comp" where
  "count_cb ud input output = extern_C
     (bnd (fetch_add ud 1) (\<lambda>_.
      bnd (load_counter ud) (\<lambda>c.
      bnd (update_out output (\<lambda>out. out\<lparr>energy := usize_as_f64 (ucast c)\<rparr>)) (\<lambda>_.
      ret RGPOT_SUCCESS))))"

text \<open>The destructor of the tests sets the static at \<open>drop_called\<close> and reads its argument.\<close>

definition track_drop :: "ptr \<Rightarrow> ptr \<Rightarrow> unit comp" where
  "track_drop drop_called p = extern_C
     (bnd (flag_store drop_called True) (\<lambda>_.
      bnd (load_counter p) (\<lambda>val.
      assert_that (val = 0xDEADBEEF))))"

text \<open>The function pointers of the test module.\<close>

abbreviation "mock_fn \<equiv> 11 :: fnptr"
abbreviation "error_fn \<equiv> 12 :: fnptr"
abbreviation "writing_fn \<equiv> 13 :: fnptr"
abbreviation "count_fn \<equiv> 14 :: fnptr"
abbreviation "track_fn \<equiv> 15 :: fnptr"

definition potential_env :: "'x env_scheme \<Rightarrow> ptr \<Rightarrow> 'x env_scheme" where
  "potential_env E drop_called = E
     \<lparr>callback_code := \<lambda>f.
        if f = mock_fn then mock_callback E
        else if f = error_fn then error_callback
        else if f = writing_fn then writing_callback E
        else if f = count_fn then count_cb
        else callback_code E f,
      free_fn_code := \<lambda>f. if f = track_fn then track_drop drop_called else free_fn_code E f\<rparr>"

definition with_drop_called :: "'x env_scheme \<Rightarrow> ('x env_scheme \<Rightarrow> ptr \<Rightarrow> unit comp) \<Rightarrow> unit comp" where
  "with_drop_called E test = local_var (User_block 0) (\<lambda>s. test (potential_env E s) s)"

section \<open>Tests\<close>

definition test_potential_callback :: "'x env_scheme \<Rightarrow> unit comp" where
  "test_potential_callback E0 = with_drop_called E0 (\<lambda>E _.
     local_pot E (PotentialImpl_new mock_fn null None) (\<lambda>pot.
     local_io E 3 (\<lambda>io.
     bnd (make_input E io) (\<lambda>i.
     local_var (Force_input i) (\<lambda>input.
     local_var (Force_out zero_out) (\<lambda>output.
     bnd (PotentialImpl_calculate E pot input output) (\<lambda>status.
     bnd (assert_that (status = RGPOT_SUCCESS)) (\<lambda>_.
     bnd (load_out output) (\<lambda>out.
     bnd (assert_eq_f64 (energy out) 0x4008000000000000) (\<lambda>_.
     bnd (rgpot_tensor_free E (forces out)) (\<lambda>_.
     free_input E input)))))))))))"

definition callback_error_status_is_returned :: "'x env_scheme \<Rightarrow> unit comp" where
  "callback_error_status_is_returned E0 = with_drop_called E0 (\<lambda>E _.
     local_pot E (PotentialImpl_new error_fn null None) (\<lambda>pot.
     local_io E 1 (\<lambda>io.
     bnd (make_input E io) (\<lambda>i.
     local_var (Force_input i) (\<lambda>input.
     local_var (Force_out zero_out) (\<lambda>output.
     bnd (PotentialImpl_calculate E pot input output) (\<lambda>status.
     bnd (assert_that (status = RGPOT_INVALID_PARAMETER)) (\<lambda>_.
     free_input E input))))))))"

definition callback_writes_forces_energy_variance :: "'x env_scheme \<Rightarrow> unit comp" where
  "callback_writes_forces_energy_variance E0 = with_drop_called E0 (\<lambda>E _.
     local_pot E (PotentialImpl_new writing_fn null None) (\<lambda>pot.
     local_io E 2 (\<lambda>io.
     bnd (make_input E io) (\<lambda>i.
     local_var (Force_input i) (\<lambda>input.
     local_var (Force_out zero_out) (\<lambda>output.
     bnd (PotentialImpl_calculate E pot input output) (\<lambda>status.
     bnd (assert_that (status = RGPOT_SUCCESS)) (\<lambda>_.
     bnd (load_out output) (\<lambda>out.
     bnd (assert_eq_f64 (energy out) 0xC045000000000000) (\<lambda>_.
     bnd (assert_eq_f64 (variance out) 0x3FE0000000000000) (\<lambda>_.
     bnd (assert_that (forces out \<noteq> null)) (\<lambda>_.
     bnd (load_managed (forces out)) (\<lambda>ft.
     bnd (f64_slice (t_data (dl_tensor ft)) 6) (\<lambda>fs.
     bnd (assert_eq_f64s fs [0x3FF0000000000000, 0x4000000000000000, 0x4008000000000000,
       0x4010000000000000, 0x4014000000000000, 0x4018000000000000]) (\<lambda>_.
     bnd (rgpot_tensor_free E (forces out)) (\<lambda>_.
     free_input E input))))))))))))))))"

definition drop_calls_free_fn_with_user_data :: "'x env_scheme \<Rightarrow> unit comp" where
  "drop_calls_free_fn_with_user_data E0 = with_drop_called E0 (\<lambda>E drop_called.
     bnd (flag_store drop_called False) (\<lambda>_.
     local_var (User_block 0xDEADBEEF) (\<lambda>sentinel.
     bnd (local_pot E (PotentialImpl_new mock_fn sentinel (Some track_fn)) (\<lambda>pot.
       bnd (flag_load drop_called) (\<lambda>b. assert_that (\<not> b)))) (\<lambda>_.
     bnd (flag_load drop_called) (\<lambda>b. assert_that b)))))"

definition drop_skips_free_fn_when_user_data_is_null :: "'x env_scheme \<Rightarrow> unit comp" where
  "drop_skips_free_fn_when_user_data_is_null E0 = with_drop_called E0 (\<lambda>E _.
     local_pot E (PotentialImpl_new mock_fn null (Some track_fn)) (\<lambda>pot. ret ()))"

definition drop_without_free_fn_is_safe :: "'x env_scheme \<Rightarrow> unit comp" where
  "drop_without_free_fn_is_safe E0 = with_drop_called E0 (\<lambda>E _.
     local_pot E (PotentialImpl_new mock_fn null None) (\<lambda>pot. ret ()))"

definition user_data_is_passed_through :: "'x env_scheme \<Rightarrow> unit comp" where
  "user_data_is_passed_through E0 = with_drop_called E0 (\<lambda>E _.
     local_var (User_block 0) (\<lambda>call_count.
     bnd (atomic_store call_count 0) (\<lambda>_.
     local_pot E (PotentialImpl_new count_fn call_count None) (\<lambda>pot.
     local_io E 1 (\<lambda>io.
     bnd (make_input E io) (\<lambda>i.
     local_var (Force_input i) (\<lambda>input.
     local_var (Force_out zero_out) (\<lambda>output.
     bnd (PotentialImpl_calculate E pot input output) (\<lambda>_.
     bnd (load_counter call_count) (\<lambda>c.
     bnd (assert_that (c = 1)) (\<lambda>_.
     bnd (load_out output) (\<lambda>out.
     bnd (assert_eq_f64 (energy out) 0x3FF0000000000000) (\<lambda>_.
     bnd (PotentialImpl_calculate E pot input output) (\<lambda>_.
     bnd (load_counter call_count) (\<lambda>c.
     bnd (assert_that (c = 2)) (\<lambda>_.
     bnd (load_out output) (\<lambda>out.
     bnd (assert_eq_f64 (energy out) 0x4000000000000000) (\<lambda>_.
     free_input E input))))))))))))))))))"

definition potential_tests :: "'x env_scheme \<Rightarrow> unit comp list" where
  "potential_tests E =
     [test_potential_callback E, callback_error_status_is_returned E,
      callback_writes_forces_energy_variance E, drop_calls_free_fn_with_user_data E,
      drop_skips_free_fn_when_user_data_is_null E, drop_without_free_fn_is_safe E,
      user_data_is_passed_through E]"

section \<open>They pass\<close>

lemma potential_env_sel:
  "overflow_checks (potential_env E s) = overflow_checks E"
  "is_copied_flag (potential_env E s) = is_copied_flag E"
  "callback_code (potential_env E s) mock_fn = mock_callback E"
  "callback_code (potential_env E s) error_fn = error_callback"
  "callback_code (potential_env E s) writing_fn = writing_callback E"
  "callback_code (potential_env E s) count_fn = count_cb"
  "free_fn_code (potential_env E s) track_fn = track_drop s"
  by (simp_all add: potential_env_def)

lemmas helper_exec = handle_exec with_drop_called_def local_pot_def local_io_def TestIO_new_def
  make_input_def free_input_def vec_i32_len_def mock_callback_def count_cb_def track_drop_def
  potential_env_sel

lemma drop_test_passes:
  "passes (drop_calls_free_fn_with_user_data E)"
  "passes (drop_skips_free_fn_when_user_data_is_null E)" "passes (drop_without_free_fn_is_safe E)"
  by (rule passesI, simp add: drop_calls_free_fn_with_user_data_def
      drop_skips_free_fn_when_user_data_is_null_def drop_without_free_fn_is_safe_def
      helper_exec cleanup
      del: heap_maps cong: lazy_reads)+

lemma callback_passes: "passes (test_potential_callback E)"
  by (rule passesI) (simp add: test_potential_callback_def helper_exec cleanup
      del: heap_maps cong: lazy_reads)

lemma error_status_passes: "passes (callback_error_status_is_returned E)"
  by (rule passesI) (simp add: callback_error_status_is_returned_def helper_exec cleanup
      del: heap_maps cong: lazy_reads)

lemma upt_6: "[Suc 0..<6] = [1, 2, 3, 4, 5]"
  by (simp add: upt_conv_Cons)

lemma writes_passes: "passes (callback_writes_forces_energy_variance E)"
  by (rule passesI)
    (simp add: callback_writes_forces_energy_variance_def helper_exec upt_6 cleanup
      del: heap_maps cong: lazy_reads)

lemma user_data_passes: "passes (user_data_is_passed_through E)"
  by (rule passesI) (simp add: user_data_is_passed_through_def helper_exec cleanup
      del: heap_maps cong: lazy_reads)

text \<open>
  The tests of \<^verbatim>\<open>potential.rs\<close> pass with their mock, failing, writing and counting callbacks
  and their tracking destructor linked in.
\<close>

lemma potential_tests_pass: "t \<in> set (potential_tests E) \<Longrightarrow> passes t"
  by (auto simp: potential_tests_def intro: drop_test_passes callback_passes error_status_passes
      writes_passes user_data_passes)

end
