(* ===== verification/Rgpot_Capi_Tests.thy ===== *)
theory Rgpot_Capi_Tests
  imports Rgpot_Testing
begin

text \<open>
  The tests of \<^verbatim>\<open>rgpot-core/src/c_api/potential.rs\<close>.  Their callbacks \<^verbatim>\<open>sum_callback\<close>,
  \<^verbatim>\<open>failing_callback\<close> and \<^verbatim>\<open>counting_callback\<close> are those of \<open>Rgpot_Callback\<close>.
\<close>

section \<open>Helpers of the tests\<close>

text \<open>
  The arrays are local variables of \<^verbatim>\<open>make_test_input\<close>: the caller gets copies of them,
  while the tensors keep the addresses of the originals.
\<close>

definition make_test_input ::
    "'x env_scheme \<Rightarrow> (f64 list \<times> i32 list \<times> f64 list \<times> rgpot_force_input_t) comp" where
  "make_test_input E =
     local_var (F64s two_atoms) (\<lambda>pos.
     local_var (I32s [1, 1]) (\<lambda>atmnrs.
     local_var (F64s box10) (\<lambda>box_p.
     bnd (rgpot_force_input_create E 2 pos atmnrs box_p) (\<lambda>input.
     bnd (f64_slice pos 6) (\<lambda>ps.
     bnd (i32_slice atmnrs 2) (\<lambda>zs.
     bnd (f64_slice box_p 9) (\<lambda>bs.
     ret (ps, zs, bs, input))))))))"

definition cleanup_io :: "'x env_scheme \<Rightarrow> ptr \<Rightarrow> ptr \<Rightarrow> unit comp" where
  "cleanup_io E input output =
     bnd (load_out output) (\<lambda>out.
     bnd (rgpot_tensor_free E (forces out)) (\<lambda>_.
     bnd (rgpot_force_input_free E input) (\<lambda>_.
     update_out output (\<lambda>out. out\<lparr>forces := null\<rparr>))))"

definition track_free :: "ptr \<Rightarrow> ptr \<Rightarrow> unit comp" where
  "track_free free_called p = extern_C (flag_store free_called True)"

text \<open>The function pointers of the test module.\<close>

abbreviation "sum_fn \<equiv> 11 :: fnptr"
abbreviation "failing_fn \<equiv> 12 :: fnptr"
abbreviation "counting_fn \<equiv> 13 :: fnptr"
abbreviation "free_called_fn \<equiv> 14 :: fnptr"

definition capi_env :: "'x env_scheme \<Rightarrow> ptr \<Rightarrow> 'x env_scheme" where
  "capi_env E free_called = E
     \<lparr>callback_code := \<lambda>f.
        if f = sum_fn then sum_callback E
        else if f = failing_fn then failing_callback
        else if f = counting_fn then counting_callback
        else callback_code E f,
      free_fn_code := \<lambda>f. if f = free_called_fn then track_free free_called else free_fn_code E f\<rparr>"

definition with_free_called :: "'x env_scheme \<Rightarrow> ('x env_scheme \<Rightarrow> ptr \<Rightarrow> unit comp) \<Rightarrow> unit comp" where
  "with_free_called E test = local_var (User_block 0) (\<lambda>s. test (capi_env E s) s)"

section \<open>Tests\<close>

definition new_returns_non_null :: "'x env_scheme \<Rightarrow> unit comp" where
  "new_returns_non_null E0 = with_free_called E0 (\<lambda>E _.
     bnd (rgpot_potential_new sum_fn null None) (\<lambda>pot.
     bnd (assert_that (pot \<noteq> null)) (\<lambda>_.
     rgpot_potential_free E pot)))"

definition potential_free_null_is_noop :: "'x env_scheme \<Rightarrow> unit comp" where
  "potential_free_null_is_noop E0 = with_free_called E0 (\<lambda>E _. rgpot_potential_free E null)"

definition calculate_null_pot_returns_invalid_parameter :: "'x env_scheme \<Rightarrow> unit comp" where
  "calculate_null_pot_returns_invalid_parameter E0 = with_free_called E0 (\<lambda>E _.
     bnd (make_test_input E) (\<lambda>(_, _, _, i).
     local_var (Force_input i) (\<lambda>input.
     local_var (Force_out zero_out) (\<lambda>output.
     bnd (rgpot_potential_calculate E null input output) (\<lambda>status.
     bnd (assert_that (status = RGPOT_INVALID_PARAMETER)) (\<lambda>_.
     rgpot_force_input_free E input))))))"

definition calculate_null_input_returns_invalid_parameter :: "'x env_scheme \<Rightarrow> unit comp" where
  "calculate_null_input_returns_invalid_parameter E0 = with_free_called E0 (\<lambda>E _.
     bnd (rgpot_potential_new sum_fn null None) (\<lambda>pot.
     local_var (Force_out zero_out) (\<lambda>output.
     bnd (rgpot_potential_calculate E pot null output) (\<lambda>status.
     bnd (assert_that (status = RGPOT_INVALID_PARAMETER)) (\<lambda>_.
     rgpot_potential_free E pot)))))"

definition calculate_null_output_returns_invalid_parameter :: "'x env_scheme \<Rightarrow> unit comp" where
  "calculate_null_output_returns_invalid_parameter E0 = with_free_called E0 (\<lambda>E _.
     bnd (rgpot_potential_new sum_fn null None) (\<lambda>pot.
     bnd (make_test_input E) (\<lambda>(_, _, _, i).
     local_var (Force_input i) (\<lambda>input.
     bnd (rgpot_potential_calculate E pot input null) (\<lambda>status.
     bnd (assert_that (status = RGPOT_INVALID_PARAMETER)) (\<lambda>_.
     bnd (rgpot_force_input_free E input) (\<lambda>_.
     rgpot_potential_free E pot)))))))"

definition full_lifecycle_new_calculate_free :: "'x env_scheme \<Rightarrow> unit comp" where
  "full_lifecycle_new_calculate_free E0 = with_free_called E0 (\<lambda>E _.
     bnd (rgpot_potential_new sum_fn null None) (\<lambda>pot.
     bnd (make_test_input E) (\<lambda>(_, _, _, i).
     local_var (Force_input i) (\<lambda>input.
     local_var (Force_out zero_out) (\<lambda>output.
     bnd (rgpot_potential_calculate E pot input output) (\<lambda>status.
     bnd (assert_that (status = RGPOT_SUCCESS)) (\<lambda>_.
     bnd (load_out output) (\<lambda>out.
     bnd (assert_eq_f64 (energy out) 0x4000000000000000) (\<lambda>_.
     bnd (assert_that (forces out \<noteq> null)) (\<lambda>_.
     bnd (cleanup_io E input output) (\<lambda>_.
     rgpot_potential_free E pot)))))))))))"

definition callback_error_propagates :: "'x env_scheme \<Rightarrow> unit comp" where
  "callback_error_propagates E0 = with_free_called E0 (\<lambda>E _.
     bnd (rgpot_potential_new failing_fn null None) (\<lambda>pot.
     bnd (make_test_input E) (\<lambda>(_, _, _, i).
     local_var (Force_input i) (\<lambda>input.
     local_var (Force_out zero_out) (\<lambda>output.
     bnd (rgpot_potential_calculate E pot input output) (\<lambda>status.
     bnd (assert_that (status = RGPOT_INTERNAL_ERROR)) (\<lambda>_.
     bnd last_error_text (\<lambda>msg.
     bnd (assert_that (msg = ''deliberately failed'')) (\<lambda>_.
     bnd (rgpot_force_input_free E input) (\<lambda>_.
     rgpot_potential_free E pot))))))))))"

definition user_data_is_forwarded_to_callback :: "'x env_scheme \<Rightarrow> unit comp" where
  "user_data_is_forwarded_to_callback E0 = with_free_called E0 (\<lambda>E _.
     local_var (User_block 0) (\<lambda>counter.
     bnd (rgpot_potential_new counting_fn counter None) (\<lambda>pot.
     bnd (make_test_input E) (\<lambda>(_, _, _, i).
     local_var (Force_input i) (\<lambda>input.
     local_var (Force_out zero_out) (\<lambda>output.
     bnd (rgpot_potential_calculate E pot input output) (\<lambda>_.
     bnd (load_counter counter) (\<lambda>c.
     bnd (assert_that (c = 1)) (\<lambda>_.
     bnd (load_out output) (\<lambda>out.
     bnd (assert_eq_f64 (energy out) 0x3FF0000000000000) (\<lambda>_.
     bnd (rgpot_potential_calculate E pot input output) (\<lambda>_.
     bnd (load_counter counter) (\<lambda>c.
     bnd (assert_that (c = 2)) (\<lambda>_.
     bnd (load_out output) (\<lambda>out.
     bnd (assert_eq_f64 (energy out) 0x4000000000000000) (\<lambda>_.
     bnd (rgpot_force_input_free E input) (\<lambda>_.
     rgpot_potential_free E pot)))))))))))))))))"

definition free_fn_is_invoked_on_drop :: "'x env_scheme \<Rightarrow> unit comp" where
  "free_fn_is_invoked_on_drop E0 = with_free_called E0 (\<lambda>E free_called.
     bnd (flag_store free_called False) (\<lambda>_.
     local_var (User_block 42) (\<lambda>dummy.
     bnd (rgpot_potential_new sum_fn dummy (Some free_called_fn)) (\<lambda>pot.
     bnd (flag_load free_called) (\<lambda>b.
     bnd (assert_that (\<not> b)) (\<lambda>_.
     bnd (rgpot_potential_free E pot) (\<lambda>_.
     bnd (flag_load free_called) (\<lambda>b.
     assert_that b))))))))"

text \<open>One round of the loop of \<^verbatim>\<open>multiple_calculations_same_handle\<close>, and the loop.\<close>

definition one_calculation :: "'x env_scheme \<Rightarrow> ptr \<Rightarrow> usize \<Rightarrow> unit comp" where
  "one_calculation E pot n =
     bnd (mul_usize E n 3) (\<lambda>n3.
     local_var (F64s (replicate (unat n3) 0)) (\<lambda>pos.
     local_var (I32s (replicate (unat n) 1)) (\<lambda>atmnrs.
     local_var (F64s box10) (\<lambda>box_p.
     bnd (rgpot_force_input_create E n pos atmnrs box_p) (\<lambda>i.
     local_var (Force_input i) (\<lambda>input.
     local_var (Force_out zero_out) (\<lambda>output.
     bnd (rgpot_potential_calculate E pot input output) (\<lambda>status.
     bnd (assert_that (status = RGPOT_SUCCESS)) (\<lambda>_.
     bnd (load_out output) (\<lambda>out.
     bnd (assert_eq_f64 (energy out) (usize_as_f64 n)) (\<lambda>_.
     cleanup_io E input output)))))))))))"

fun for_each :: "('a \<Rightarrow> unit comp) \<Rightarrow> 'a list \<Rightarrow> unit comp" where
  "for_each body [] = ret ()"
| "for_each body (x # xs) = bnd (body x) (\<lambda>_. for_each body xs)"

definition multiple_calculations_same_handle :: "'x env_scheme \<Rightarrow> unit comp" where
  "multiple_calculations_same_handle E0 = with_free_called E0 (\<lambda>E _.
     bnd (rgpot_potential_new sum_fn null None) (\<lambda>pot.
     bnd (for_each (one_calculation E pot) [1, 2, 3, 4, 5]) (\<lambda>_.
     rgpot_potential_free E pot)))"

definition capi_tests :: "'x env_scheme \<Rightarrow> unit comp list" where
  "capi_tests E =
     [new_returns_non_null E, potential_free_null_is_noop E,
      calculate_null_pot_returns_invalid_parameter E,
      calculate_null_input_returns_invalid_parameter E,
      calculate_null_output_returns_invalid_parameter E,
      full_lifecycle_new_calculate_free E, callback_error_propagates E,
      user_data_is_forwarded_to_callback E, free_fn_is_invoked_on_drop E,
      multiple_calculations_same_handle E]"

section \<open>They pass\<close>

lemma capi_env_sel:
  "overflow_checks (capi_env E s) = overflow_checks E"
  "is_copied_flag (capi_env E s) = is_copied_flag E"
  "callback_code (capi_env E s) sum_fn = sum_callback E"
  "callback_code (capi_env E s) failing_fn = failing_callback"
  "callback_code (capi_env E s) counting_fn = counting_callback"
  "free_fn_code (capi_env E s) free_called_fn = track_free s"
  by (simp_all add: capi_env_def)

lemmas capi_exec = handle_exec with_free_called_def make_test_input_def cleanup_io_def track_free_def
  failing_callback_def counting_callback_def capi_env_sel

lemma handle_test_passes:
  "passes (new_returns_non_null E)" "passes (potential_free_null_is_noop E)"
  "passes (free_fn_is_invoked_on_drop E)"
  by (rule passesI, simp add: new_returns_non_null_def potential_free_null_is_noop_def
      free_fn_is_invoked_on_drop_def capi_exec cleanup
      del: heap_maps cong: lazy_reads)+

lemma full_lifecycle_passes: "passes (full_lifecycle_new_calculate_free E)"
  by (rule passesI) (simp add: full_lifecycle_new_calculate_free_def capi_exec cleanup
      del: heap_maps cong: lazy_reads)

lemma user_data_forwarded_passes: "passes (user_data_is_forwarded_to_callback E)"
  by (rule passesI) (simp add: user_data_is_forwarded_to_callback_def capi_exec cleanup
      del: heap_maps cong: lazy_reads)

lemma null_pot_passes: "passes (calculate_null_pot_returns_invalid_parameter E)"
  by (rule passes_with_message) (simp add: calculate_null_pot_returns_invalid_parameter_def
      capi_exec report_exec cleanup del: heap_maps cong: lazy_reads)

lemma null_input_passes: "passes (calculate_null_input_returns_invalid_parameter E)"
  by (rule passes_with_message) (simp add: calculate_null_input_returns_invalid_parameter_def
      capi_exec report_exec cleanup del: heap_maps cong: lazy_reads)

lemma null_output_passes: "passes (calculate_null_output_returns_invalid_parameter E)"
  by (rule passes_with_message) (simp add: calculate_null_output_returns_invalid_parameter_def
      capi_exec report_exec cleanup del: heap_maps cong: lazy_reads)

lemma error_propagates_passes: "passes (callback_error_propagates E)"
  by (rule passes_with_message) (simp add: callback_error_propagates_def
      capi_exec report_exec cleanup del: heap_maps cong: lazy_reads)

text \<open>A round of the loop gives back all it allocates, so the loop does.\<close>

lemma calculation_clean:
  assumes "heap w pot = Some (Potential_impl \<lparr>callback = sum_fn, user_data = null, free_fn = None\<rparr>)"
    and "world_ok w" and "unat n * 3 < 2 ^ 64" and "f64_eq (usize_as_f64 n) (usize_as_f64 n)"
  shows "ends_clean w (one_calculation (capi_env E s) pot n w)"
proof -
  have "0 < brk w" "0 < pot" "pot < brk w"
    using assms(1,2) by (auto dest: world_ok_less world_ok_brk)
  moreover have "mul_usize F n 3 = ret (n * 3)" for F :: "'a env_scheme"
    using assms(3) by (simp add: mul_usize_fits)
  ultimately show ?thesis
    using assms(1,2,4)
    by (simp add: one_calculation_def capi_exec cleanup
        del: heap_maps mul_usize_def f64_eq_def cong: lazy_reads)
qed

lemma one_calculation_clean:
  assumes "heap w pot = Some (Potential_impl \<lparr>callback = sum_fn, user_data = null, free_fn = None\<rparr>)"
    and "world_ok w" and "n \<in> {1, 2, 3, 4, 5}"
  shows "ends_clean w (one_calculation (capi_env E s) pot n w)"
  using assms(3)
  by (intro calculation_clean [OF assms(1,2)]) (auto simp: usize_as_f64_small f64_eq_def f64_nan_def)

lemma for_each_clean:
  assumes "\<And>x w. x \<in> set xs \<Longrightarrow> world_ok w \<Longrightarrow> heap w p = Some b \<Longrightarrow> ends_clean w (body x w)"
    and "world_ok w" "heap w p = Some b"
  shows "ends_clean w (for_each body xs w)"
  using assms
proof (induction xs arbitrary: w)
  case Nil
  then show ?case by (simp add: ret_def ends_clean_same)
next
  case (Cons x xs)
  from Cons.prems obtain k where k: "k \<ge> brk w" "body x w = Done () (w\<lparr>brk := k\<rparr>)"
    by (force simp: ends_clean_def)
  have "ends_clean (w\<lparr>brk := k\<rparr>) (for_each body xs (w\<lparr>brk := k\<rparr>))"
    using Cons.prems k(1) by (intro Cons.IH) (auto intro: world_ok_higher)
  then obtain m where "k \<le> m" "for_each body xs (w\<lparr>brk := k\<rparr>) = Done () (w\<lparr>brk := m\<rparr>)"
    by (auto simp: ends_clean_def)
  with k show ?case unfolding ends_clean_def by (intro exI [of _ m]) (simp add: bnd_def)
qed

lemma multiple_calculations_passes: "passes (multiple_calculations_same_handle E)"
proof (rule passesI)
  fix w assume ok: "world_ok w" and pos: "0 < brk w"
  let ?p = "PotentialImpl_new sum_fn null None"
  let ?w = "push (Potential_impl ?p) (push (User_block 0) w)"
  have "world_ok ?w" using ok by (intro world_ok_push)
  moreover have pot: "heap ?w (Suc (brk w)) = Some (Potential_impl ?p)" by simp
  ultimately have "ends_clean ?w (for_each (one_calculation (capi_env E (brk w)) (Suc (brk w))) [1, 2, 3, 4, 5] ?w)"
    by (intro for_each_clean one_calculation_clean) (auto simp: PotentialImpl_new_def)
  then obtain k where k: "Suc (Suc (brk w)) \<le> k" and run:
    "for_each (one_calculation (capi_env E (brk w)) (Suc (brk w))) [1, 2, 3, 4, 5] ?w = Done () (?w\<lparr>brk := k\<rparr>)"
    by (auto simp: ends_clean_def)
  show "ends_clean w (multiple_calculations_same_handle E w)"
    using ok pos k run
    by (simp add: multiple_calculations_same_handle_def with_free_called_def rgpot_potential_new_def
        rgpot_potential_free_def PotentialImpl_new_def PotentialImpl_drop_def test_exec cleanup
        del: heap_maps for_each.simps cong: lazy_reads)
qed

lemma capi_tests_pass: "t \<in> set (capi_tests E) \<Longrightarrow> passes t"
  by (auto simp: capi_tests_def intro: handle_test_passes full_lifecycle_passes null_pot_passes
      null_input_passes null_output_passes error_propagates_passes
      user_data_forwarded_passes multiple_calculations_passes)

text \<open>
  The tensors \<^verbatim>\<open>make_test_input\<close> returns point into its dead stack frame.  The tests pass
  because no callback of theirs reads the arrays: reading the positions through the input
  is undefined.
\<close>

lemma make_test_input_dangles:
  assumes "world_ok w"
  shows "bnd (make_test_input E) (\<lambda>(_, _, _, i).
     bnd (load_managed (positions i)) (\<lambda>m. f64_slice (t_data (dl_tensor m)) 6)) w = Undefined"
  using assms world_ok_brk [OF assms] by (simp add: make_test_input_def handle_exec del: heap_maps cong: lazy_reads)

end
