(* ===== verification/Rgpot_Matrix.thy ===== *)
theory Rgpot_Matrix
  imports Rgpot_Prelude
begin

text \<open>
  The data the C++ potentials work on: arrays behind pointers, the row-major
  \<^verbatim>\<open>AtomMatrix\<close> of \<^verbatim>\<open>CppCore/rgpot/types/AtomMatrix.hpp\<close>, the structs of
  \<^verbatim>\<open>ForceStructs.hpp\<close> and the two helpers of \<^verbatim>\<open>PotHelpers.cc\<close>.
\<close>

section \<open>Definitions\<close>

text \<open>
  A call returns, throws a \<^verbatim>\<open>std::runtime_error\<close> with a message, or has undefined behaviour,
  such as an access outside an array.
\<close>

datatype 'a cpp = Returned 'a | Thrown string | Undef

fun cpp_bind :: "'a cpp \<Rightarrow> ('a \<Rightarrow> 'b cpp) \<Rightarrow> 'b cpp" where
  "cpp_bind (Returned x) f = f x"
| "cpp_bind (Thrown e) f = Thrown e"
| "cpp_bind Undef f = Undef"

definition peek :: "'a list \<Rightarrow> nat \<Rightarrow> 'a cpp" where
  "peek xs i = (if i < length xs then Returned (xs ! i) else Undef)"

definition poke :: "'a list \<Rightarrow> nat \<Rightarrow> 'a \<Rightarrow> 'a list cpp" where
  "poke xs i x = (if i < length xs then Returned (xs[i := x]) else Undef)"

text \<open>The loop \<^verbatim>\<open>for (i : is) s = body(i, s)\<close>.\<close>

fun loop_over :: "'i list \<Rightarrow> ('i \<Rightarrow> 's \<Rightarrow> 's cpp) \<Rightarrow> 's \<Rightarrow> 's cpp" where
  "loop_over [] body s = Returned s"
| "loop_over (i # is) body s = cpp_bind (body i s) (loop_over is body)"

text \<open>\<^verbatim>\<open>std::copy\<close> and \<^verbatim>\<open>std::memcpy\<close> of a whole source range to an offset.\<close>

definition copy_to :: "'a list \<Rightarrow> nat \<Rightarrow> 'a list \<Rightarrow> 'a list cpp" where
  "copy_to src i dst =
     (if i + length src \<le> length dst then Returned (take i dst @ src @ drop (i + length src) dst) else Undef)"

subsection \<open>AtomMatrix\<close>

text \<open>
  The matrix is polymorphic in its elements: the code has doubles, whose \<open>0\<close> is the
  bit pattern 0, and the theorems on exact arithmetic have real numbers.
\<close>

record 'r AtomMatrix =
  m_rows :: usize
  m_cols :: usize
  m_data :: "'r list"

definition AtomMatrix_default :: "'r AtomMatrix" where
  "AtomMatrix_default = \<lparr>m_rows = 0, m_cols = 0, m_data = []\<rparr>"

definition AtomMatrix_new :: "usize \<Rightarrow> usize \<Rightarrow> ('r :: zero) AtomMatrix" where
  "AtomMatrix_new r c = \<lparr>m_rows = r, m_cols = c, m_data = replicate (unat (r * c)) 0\<rparr>"

text \<open>The width is that of the first row; there is none in an empty list.\<close>

fun copy_rows :: "usize \<Rightarrow> usize \<Rightarrow> 'r list list \<Rightarrow> 'r list \<Rightarrow> 'r list cpp" where
  "copy_rows c rowIdx [] dat = Returned dat"
| "copy_rows c rowIdx (row # rows) dat =
     cpp_bind (copy_to row (unat (rowIdx * c)) dat) (copy_rows c (rowIdx + 1) rows)"

definition AtomMatrix_list :: "('r :: zero) list list \<Rightarrow> 'r AtomMatrix cpp" where
  "AtomMatrix_list rows = (case rows of
      [] \<Rightarrow> Undef
    | first # _ \<Rightarrow>
        let r = word_of_nat (length rows); c = word_of_nat (length first)
        in cpp_bind (copy_rows c 0 rows (replicate (unat (r * c)) 0))
             (\<lambda>dat. Returned \<lparr>m_rows = r, m_cols = c, m_data = dat\<rparr>))"

definition AtomMatrix_Zero :: "usize \<Rightarrow> usize \<Rightarrow> ('r :: zero) AtomMatrix" where
  "AtomMatrix_Zero r c =
     (let matrix = AtomMatrix_new r c
      in matrix\<lparr>m_data := map (\<lambda>_. 0) (m_data matrix)\<rparr>)"

definition AtomMatrix_at :: "'r AtomMatrix \<Rightarrow> usize \<Rightarrow> usize \<Rightarrow> 'r cpp" where
  "AtomMatrix_at m row col = peek (m_data m) (unat (row * m_cols m + col))"

definition AtomMatrix_put :: "'r AtomMatrix \<Rightarrow> usize \<Rightarrow> usize \<Rightarrow> 'r \<Rightarrow> 'r AtomMatrix cpp" where
  "AtomMatrix_put m row col x =
     cpp_bind (poke (m_data m) (unat (row * m_cols m + col)) x) (\<lambda>d. Returned (m\<lparr>m_data := d\<rparr>))"

definition AtomMatrix_size :: "'r AtomMatrix \<Rightarrow> usize" where
  "AtomMatrix_size m = m_rows m * m_cols m"

subsection \<open>ForceInput and ForceOut\<close>

text \<open>A pointer member is the array it points to.\<close>

record 'r ForceInput =
  nAtoms :: usize
  in_pos :: "'r list"
  in_atmnrs :: "i32 list"
  in_box :: "'r list"

record 'r ForceOut =
  out_F :: "'r list"
  out_energy :: 'r
  out_variance :: 'r

definition zeroForceOut :: "usize \<Rightarrow> ('r :: zero) ForceOut \<Rightarrow> 'r ForceOut cpp" where
  "zeroForceOut n efvd =
     (let efvd = efvd\<lparr>out_energy := 0, out_variance := 0\<rparr> in
      loop_over (map (word_of_nat :: nat \<Rightarrow> usize) [0..<unat n]) (\<lambda>idx efvd.
        cpp_bind (poke (out_F efvd) (unat (3 * idx)) 0) (\<lambda>F.
        cpp_bind (poke F (unat (3 * idx + 1)) 0) (\<lambda>F.
        cpp_bind (poke F (unat (3 * idx + 2)) 0) (\<lambda>F.
        Returned (efvd\<lparr>out_F := F\<rparr>))))) efvd)"

definition checkParams :: "'r ForceInput \<Rightarrow> unit cpp" where
  "checkParams params =
     (if nAtoms params \<le> 0 then Thrown ''Can't work with zero atoms in force call'' else Returned ())"

section \<open>Lemmas on the primitives\<close>

lemma cpp_bind_assoc: "cpp_bind (cpp_bind m f) g = cpp_bind m (\<lambda>x. cpp_bind (f x) g)"
  by (cases m) simp_all

lemma cpp_bind_Returned:
  "cpp_bind m f = Returned y \<longleftrightarrow> (\<exists>x. m = Returned x \<and> f x = Returned y)"
  by (cases m) auto

lemma peek_in [simp]: "i < length xs \<Longrightarrow> peek xs i = Returned (xs ! i)"
  by (simp add: peek_def)

lemma poke_in [simp]: "i < length xs \<Longrightarrow> poke xs i x = Returned (xs[i := x])"
  by (simp add: poke_def)

text \<open>A loop whose body always returns on the states of an invariant is a fold.\<close>

lemma loop_over_fold:
  assumes "\<And>i s. i \<in> set is \<Longrightarrow> I s \<Longrightarrow> body i s = Returned (f i s) \<and> I (f i s)" "I s"
  shows "loop_over is body s = Returned (fold f is s) \<and> I (fold f is s)"
  using assms by (induction "is" arbitrary: s) auto

text \<open>Indices of a row-major matrix do not wrap.\<close>

lemma unat_add_64: "unat a + unat b < 2 ^ 64 \<Longrightarrow> unat (a + b :: 64 word) = unat a + unat b"
  by (simp add: unat_word_ariths)

lemma unat_times_64: "unat a * unat b < 2 ^ 64 \<Longrightarrow> unat (a * b :: 64 word) = unat a * unat b"
  by (simp add: unat_word_ariths)

lemma unat_of_nat_below:
  assumes "a < unat (b :: 64 word)"
  shows "unat (word_of_nat a :: 64 word) = a"
proof -
  have "unat b < 2 ^ LENGTH(64)" by (rule unsigned_less)
  with assms show ?thesis by (simp add: unsigned_of_nat take_bit_nat_eq_self)
qed

lemma row_major_less: "i < r \<Longrightarrow> j < c \<Longrightarrow> i * c + j < r * (c :: nat)"
  by (metis add_less_cancel_left less_eq_Suc_le mult.commute mult_Suc order_less_le_trans
      add.commute mult_le_mono1)

lemma row_major_inj:
  "j < c \<Longrightarrow> j' < c \<Longrightarrow> i * c + j = i' * c + (j' :: nat) \<longleftrightarrow> i = i' \<and> j = j'"
  by (metis add.commute div_mult_self1 div_less add_cancel_right_left mod_less mod_mult_self1 mult.commute
      gr_implies_not0)

text \<open>Clearing the three components of each atom in turn.\<close>

definition clear3 :: "'r \<Rightarrow> nat \<Rightarrow> 'r list \<Rightarrow> 'r list" where
  "clear3 z i F = F[3 * i := z, 3 * i + 1 := z, 3 * i + 2 := z]"

lemma length_clear3 [simp]: "length (clear3 z i F) = length F"
  by (simp add: clear3_def)

lemma length_fold_clear3 [simp]: "length (fold (clear3 z) is F) = length F"
  by (induction "is" arbitrary: F) simp_all

lemma nth_update: "j < length xs \<Longrightarrow> xs[i := x] ! j = (if i = j then x else xs ! j)"
  by auto

lemma clear3_nth: "m < length F \<Longrightarrow> fold (clear3 z) [0..<n] F ! m = (if m < 3 * n then z else F ! m)"
  by (induction n) (auto simp: clear3_def nth_update)

lemma clear3_all: "length F = 3 * n \<Longrightarrow> fold (clear3 z) [0..<n] F = replicate (3 * n) z"
  by (rule nth_equalityI) (simp_all add: clear3_nth)

lemma fold_out_F: "fold (\<lambda>i s. s\<lparr>out_F := g i (out_F s)\<rparr>) is s = s\<lparr>out_F := fold g is (out_F s)\<rparr>"
  by (induction "is" arbitrary: s) simp_all

lemma zeroForceOut_zeroes:
  fixes out :: "('r :: zero) ForceOut"
  assumes "length (out_F out) = 3 * unat n" "length (out_F out) < 2 ^ 64"
  shows "zeroForceOut n out =
     Returned (out\<lparr>out_F := replicate (3 * unat n) 0, out_energy := 0, out_variance := 0\<rparr>)"
proof -
  let ?o = "out\<lparr>out_energy := 0, out_variance := 0\<rparr>"
  let ?is = "map (word_of_nat :: nat \<Rightarrow> usize) [0..<unat n]"
  let ?f = "\<lambda>idx s. s\<lparr>out_F := clear3 (0 :: 'r) (unat idx) (out_F s)\<rparr>"
  have "zeroForceOut n out = Returned (fold ?f ?is ?o) \<and> length (out_F (fold ?f ?is ?o)) = 3 * unat n"
    unfolding zeroForceOut_def Let_def
  proof (rule loop_over_fold [where I = "\<lambda>s. length (out_F s) = 3 * unat n"])
    fix idx :: usize and s :: "'r ForceOut"
    assume "idx \<in> set ?is" and len: "length (out_F s) = 3 * unat n"
    then have "unat idx < unat n" using assms by auto
    then have 3: "unat (3 * idx) = 3 * unat idx" "unat (3 * idx + 1) = 3 * unat idx + 1"
      "unat (3 * idx + 2) = 3 * unat idx + 2" "unat idx < unat n"
      using assms unat_times_64 [of 3 idx] unat_add_64 [of "3 * idx" 1] unat_add_64 [of "3 * idx" 2] by simp_all
    then show "cpp_bind (poke (out_F s) (unat (3 * idx)) 0) (\<lambda>F. cpp_bind (poke F (unat (3 * idx + 1)) 0) (\<lambda>F.
        cpp_bind (poke F (unat (3 * idx + 2)) 0) (\<lambda>F. Returned (s\<lparr>out_F := F\<rparr>)))) = Returned (?f idx s) \<and>
      length (out_F (?f idx s)) = 3 * unat n"
      using len by (simp add: clear3_def)
  qed (use assms in simp)
  moreover have "fold ?f ?is ?o = ?o\<lparr>out_F := fold (\<lambda>idx. clear3 0 (unat idx)) ?is (out_F out)\<rparr>"
    by (simp add: fold_out_F [of "\<lambda>idx. clear3 0 (unat idx)"])
  moreover have "fold (\<lambda>idx. clear3 (0 :: 'r) (unat idx)) ?is (out_F out) = fold (clear3 0) [0..<unat n] (out_F out)"
    unfolding fold_map using assms by (intro fold_cong) auto
  ultimately show ?thesis using assms by (simp add: clear3_all)
qed

section \<open>The matrix\<close>

text \<open>A matrix of \<open>r\<close> rows and \<open>c\<close> columns whose size the address space can hold.\<close>

definition matrix_ok :: "'r AtomMatrix \<Rightarrow> bool" where
  "matrix_ok m \<longleftrightarrow> length (m_data m) = unat (m_rows m) * unat (m_cols m) \<and> length (m_data m) < 2 ^ 64"

lemma matrix_index:
  assumes "matrix_ok m" "i < m_rows m" "j < m_cols m"
  shows "unat (i * m_cols m + j) = unat i * unat (m_cols m) + unat j"
    "unat i * unat (m_cols m) + unat j < length (m_data m)"
proof -
  have *: "unat i * unat (m_cols m) + unat j < unat (m_rows m) * unat (m_cols m)"
    using assms by (intro row_major_less) (simp_all add: word_less_nat_alt)
  with assms(1) show "unat i * unat (m_cols m) + unat j < length (m_data m)" by (simp add: matrix_ok_def)
  with assms(1) have lt: "unat i * unat (m_cols m) + unat j < 2 ^ 64" by (simp add: matrix_ok_def)
  then have "unat (i * m_cols m) = unat i * unat (m_cols m)" by (intro unat_times_64) simp
  with lt show "unat (i * m_cols m + j) = unat i * unat (m_cols m) + unat j"
    by (simp add: unat_add_64)
qed

text \<open>Writing an element changes that element and no other.\<close>

lemma matrix_put:
  assumes ok: "matrix_ok m" and ij: "i < m_rows m" "j < m_cols m"
  shows "\<exists>m'. AtomMatrix_put m i j x = Returned m' \<and> matrix_ok m' \<and> m_rows m' = m_rows m \<and> m_cols m' = m_cols m \<and>
     (\<forall>i' < m_rows m. \<forall>j' < m_cols m. AtomMatrix_at m' i' j' =
        (if i' = i \<and> j' = j then Returned x else AtomMatrix_at m i' j'))"
proof -
  let ?k = "unat i * unat (m_cols m) + unat j"
  let ?m = "m\<lparr>m_data := (m_data m)[?k := x]\<rparr>"
  have "AtomMatrix_at ?m i' j' = (if i' = i \<and> j' = j then Returned x else AtomMatrix_at m i' j')"
    if "i' < m_rows m" "j' < m_cols m" for i' j'
    using matrix_index [OF ok that] matrix_index [OF ok ij] ij(2) that
    by (auto simp: AtomMatrix_at_def nth_list_update row_major_inj word_less_nat_alt word_unat_eq_iff)
  moreover have "matrix_ok ?m" using ok by (simp add: matrix_ok_def)
  moreover have "AtomMatrix_put m i j x = Returned ?m"
    using matrix_index [OF ok ij] by (simp add: AtomMatrix_put_def)
  ultimately show ?thesis by (intro exI [of _ ?m]) simp
qed

text \<open>A matrix is its dimensions and its elements.\<close>

lemma matrix_eqI:
  assumes ok: "matrix_ok m" "matrix_ok m'" and dims: "m_rows m' = m_rows m" "m_cols m' = m_cols m"
    and same: "\<And>i j. i < m_rows m \<Longrightarrow> j < m_cols m \<Longrightarrow> AtomMatrix_at m' i j = AtomMatrix_at m i j"
  shows "m' = (m :: 'r AtomMatrix)"
proof -
  have len: "length (m_data m') = length (m_data m)" using ok dims by (simp add: matrix_ok_def)
  have "m_data m' ! k = m_data m ! k" if "k < length (m_data m)" for k
  proof -
    let ?c = "unat (m_cols m)"
    have k: "k < unat (m_rows m) * ?c" using that ok by (simp add: matrix_ok_def)
    then have c: "0 < ?c" by (cases ?c) simp_all
    have "k div ?c < unat (m_rows m)" "k mod ?c < ?c"
      using k c by (simp_all add: less_mult_imp_div_less)
    moreover from this have "unat (word_of_nat (k div ?c) :: usize) = k div ?c" "unat (word_of_nat (k mod ?c) :: usize) = k mod ?c"
      by (auto intro: unat_of_nat_below)
    ultimately have lt: "word_of_nat (k div ?c) < m_rows m" "word_of_nat (k mod ?c) < m_cols m"
      and un: "unat (word_of_nat (k div ?c) :: usize) * ?c + unat (word_of_nat (k mod ?c) :: usize) = k"
      by (simp_all add: word_less_nat_alt)
    have "AtomMatrix_at m (word_of_nat (k div ?c)) (word_of_nat (k mod ?c)) = Returned (m_data m ! k)"
      using matrix_index [OF ok(1) lt] un by (simp add: AtomMatrix_at_def)
    moreover have "AtomMatrix_at m' (word_of_nat (k div ?c)) (word_of_nat (k mod ?c)) = Returned (m_data m' ! k)"
      using matrix_index [OF ok(2)] lt un that len by (simp add: AtomMatrix_at_def dims)
    ultimately show ?thesis using same [OF lt] by simp
  qed
  then have "m_data m' = m_data m" using len by (simp add: nth_equalityI)
  then show ?thesis using dims by simp
qed

lemma Zero_ok:
  assumes "unat r * unat c < 2 ^ 64"
  shows "matrix_ok (AtomMatrix_Zero r c)"
    "m_data (AtomMatrix_Zero r c :: ('r :: zero) AtomMatrix) = replicate (unat r * unat c) 0"
  using assms by (simp_all add: matrix_ok_def AtomMatrix_Zero_def AtomMatrix_new_def unat_times_64
      map_replicate_const)

lemma copy_rows_concat:
  assumes "\<And>row. row \<in> set rows \<Longrightarrow> length row = unat c"
    and "unat k * unat c = length pre" and "length post = length rows * unat c"
    and "(unat k + length rows) * unat c < 2 ^ 64" and "unat k + length rows < 2 ^ 64"
  shows "copy_rows c k rows (pre @ post) = Returned (pre @ concat rows)"
  using assms
proof (induction rows arbitrary: k pre post)
  case (Cons row rows)
  let ?c = "unat c"
  have row: "length row = ?c" using Cons.prems by simp
  have k1: "unat (k + 1) = unat k + 1" using unat_add_64 [of k 1] Cons.prems(5) by simp
  have "unat (k * c) = unat k * ?c"
    using Cons.prems(4) by (intro unat_times_64) (simp add: distrib_right)
  then have off: "unat (k * c) = length pre" using Cons.prems(2) by simp
  have "copy_to row (unat (k * c)) (pre @ post) = Returned ((pre @ row) @ drop ?c post)"
    using Cons.prems(3) by (simp add: copy_to_def off row)
  moreover have "copy_rows c (k + 1) rows ((pre @ row) @ drop ?c post) = Returned ((pre @ row) @ concat rows)"
    using Cons.prems row by (intro Cons.IH) (simp_all only: k1, simp_all add: algebra_simps)
  ultimately show ?case by simp
qed simp

lemma nth_concat_rows:
  assumes "\<And>row. row \<in> set rows \<Longrightarrow> length row = c" "i < length rows" "j < c"
  shows "concat rows ! (i * c + j) = rows ! i ! j"
  using assms
proof (induction rows arbitrary: i)
  case (Cons row rows)
  then show ?case by (cases i) (auto simp: nth_append algebra_simps)
qed simp

lemma length_concat_rows:
  "(\<And>row. row \<in> set rows \<Longrightarrow> length row = c) \<Longrightarrow> length (concat rows) = length rows * c"
  by (induction rows) auto

text \<open>
  The matrix of a list of rows.  Built from equally long rows, the matrix has their
  number and length as dimensions, and its element \<open>(i, j)\<close> is the \<open>j\<close>-th value of
  row \<open>i\<close>; writing an element changes that element and no other.
\<close>

theorem matrix_elements:
  fixes rows :: "('r :: zero) list list"
  assumes rows: "rows \<noteq> []" "\<And>row. row \<in> set rows \<Longrightarrow> length row = c"
    and fits: "length rows * c < 2 ^ 64" "length rows < 2 ^ 64" "c < 2 ^ 64"
  shows "\<exists>m. AtomMatrix_list rows = Returned m \<and> matrix_ok m \<and>
     unat (m_rows m) = length rows \<and> unat (m_cols m) = c \<and>
     (\<forall>i < m_rows m. \<forall>j < m_cols m. AtomMatrix_at m i j = Returned (rows ! unat i ! unat j) \<and>
        (\<forall>x. \<exists>m'. AtomMatrix_put m i j x = Returned m' \<and> matrix_ok m' \<and>
           (\<forall>i' < m_rows m. \<forall>j' < m_cols m. AtomMatrix_at m' i' j' =
              (if i' = i \<and> j' = j then Returned x else AtomMatrix_at m i' j'))))"
proof -
  let ?r = "word_of_nat (length rows) :: usize" and ?c = "word_of_nat c :: usize"
  define m where "m = \<lparr>m_rows = ?r, m_cols = ?c, m_data = concat rows\<rparr>"
  have cc: "unat ?c = c" and rr: "unat ?r = length rows" using fits by simp_all
  have len: "length (concat rows) = length rows * c" using rows(2) by (rule length_concat_rows)
  have "copy_rows ?c 0 rows ([] @ replicate (unat (?r * ?c)) 0) = Returned ([] @ concat rows)"
    using rows fits by (intro copy_rows_concat) (auto simp: cc rr unat_times_64)
  then have make: "AtomMatrix_list rows = Returned m"
    using rows by (cases rows) (auto simp: AtomMatrix_list_def Let_def m_def)
  have ok: "matrix_ok m" using fits cc rr len by (simp add: matrix_ok_def m_def)
  have at: "AtomMatrix_at m i j = Returned (rows ! unat i ! unat j)" if "i < m_rows m" "j < m_cols m" for i j
  proof -
    have "unat i < length rows" "unat j < c"
      using that cc rr by (simp_all add: m_def word_less_nat_alt)
    then show ?thesis using matrix_index [OF ok that] nth_concat_rows [OF rows(2)]
      by (simp add: AtomMatrix_at_def) (simp add: m_def cc)
  qed
  have "unat (m_rows m) = length rows" "unat (m_cols m) = c" using cc rr by (simp_all add: m_def)
  with make ok at matrix_put [OF ok] show ?thesis by metis
qed

theorem matrix_elements_witness:
  "\<exists>m :: int AtomMatrix. AtomMatrix_list [[1, 2, 3], [4, 5, 6]] = Returned m \<and> AtomMatrix_at m 1 2 = Returned 6"
proof -
  have rows: "length row = 3" if "row \<in> set [[1, 2, 3], [4, 5, 6 :: int]]" for row using that by auto
  obtain m where m: "AtomMatrix_list [[1, 2, 3], [4, 5, 6 :: int]] = Returned m"
    "unat (m_rows m) = 2" "unat (m_cols m) = 3"
    "\<And>i j. i < m_rows m \<Longrightarrow> j < m_cols m \<Longrightarrow> AtomMatrix_at m i j = Returned ([[1, 2, 3], [4, 5, 6]] ! unat i ! unat j)"
    using matrix_elements [of "[[1, 2, 3], [4, 5, 6 :: int]]" 3, OF _ rows] by auto
  from m(4) [of 1 2] m(2,3) have "AtomMatrix_at m 1 2 = Returned 6" by (simp add: word_less_nat_alt)
  with m(1) show ?thesis by blast
qed

end
