(* ===== verification/Rgpot_LJ.thy ===== *)
theory Rgpot_LJ
  imports Complex_Main Rgpot_Matrix
begin

text \<open>
  The Lennard-Jones potential of \<^verbatim>\<open>CppCore/rgpot/LennardJones/LJPot.{hpp,cc}\<close>.  The arithmetic on
  doubles is an argument: what holds for every arithmetic holds for IEEE doubles, and the
  instance on real numbers says what the loop computes apart from rounding.
\<close>

section \<open>Definitions\<close>

record 'r arith =
  f_add :: "'r \<Rightarrow> 'r \<Rightarrow> 'r"
  f_sub :: "'r \<Rightarrow> 'r \<Rightarrow> 'r"
  f_mul :: "'r \<Rightarrow> 'r \<Rightarrow> 'r"
  f_div :: "'r \<Rightarrow> 'r \<Rightarrow> 'r"
  f_floor :: "'r \<Rightarrow> 'r"
  f_sqrt :: "'r \<Rightarrow> 'r"
  f_pow :: "'r \<Rightarrow> 'r \<Rightarrow> 'r"
  f_less :: "'r \<Rightarrow> 'r \<Rightarrow> bool"
  f_lit :: "rat \<Rightarrow> 'r"

text \<open>A member that the constructor leaves uninitialised is \<open>None\<close>; reading it is undefined.\<close>

record 'r LJPot =
  u0 :: 'r
  cuttOffR :: 'r
  psi :: 'r
  cuttOffU :: "'r option"

definition LJPot_ctor :: "'r arith \<Rightarrow> 'r LJPot" where
  "LJPot_ctor A = \<lparr>u0 = f_lit A 1, cuttOffR = f_lit A 15, psi = f_lit A 1, cuttOffU = None\<rparr>"

text \<open>The index \<^verbatim>\<open>3 * i + k\<close> is computed in \<^verbatim>\<open>int\<close>, whose overflow is undefined.\<close>

definition atom_index :: "int \<Rightarrow> int \<Rightarrow> nat cpp" where
  "atom_index i k = (if 3 * i + k < 2 ^ 31 then Returned (nat (3 * i + k)) else Undef)"

definition read_atom :: "'r list \<Rightarrow> int \<Rightarrow> int \<Rightarrow> 'r cpp" where
  "read_atom R i k = cpp_bind (atom_index i k) (peek R)"

definition update_atom :: "int \<Rightarrow> int \<Rightarrow> ('r \<Rightarrow> 'r) \<Rightarrow> 'r list \<Rightarrow> 'r list cpp" where
  "update_atom i k g F = cpp_bind (atom_index i k) (\<lambda>m. cpp_bind (peek F m) (\<lambda>f. poke F m (g f)))"

definition write_atom :: "int \<Rightarrow> int \<Rightarrow> 'r \<Rightarrow> 'r list \<Rightarrow> 'r list cpp" where
  "write_atom i k x F = cpp_bind (atom_index i k) (\<lambda>m. poke F m x)"

text \<open>The minimum image convention in one dimension.\<close>

definition min_image :: "'r arith \<Rightarrow> 'r \<Rightarrow> 'r \<Rightarrow> 'r" where
  "min_image A d b = f_sub A d (f_mul A b (f_floor A (f_add A (f_div A d b) (f_lit A (1 / 2)))))"

text \<open>The body of the loop over the pairs, on the energy and the forces.\<close>

definition lj_pair :: "'r arith \<Rightarrow> 'r LJPot \<Rightarrow> 'r list \<Rightarrow> 'r list \<Rightarrow> int \<Rightarrow> int \<Rightarrow> 'r \<times> 'r list \<Rightarrow> ('r \<times> 'r list) cpp" where
  "lj_pair A this R bx i j UF =
     cpp_bind (read_atom R i 0) (\<lambda>xi. cpp_bind (read_atom R j 0) (\<lambda>xj.
     cpp_bind (read_atom R i 1) (\<lambda>yi. cpp_bind (read_atom R j 1) (\<lambda>yj.
     cpp_bind (read_atom R i 2) (\<lambda>zi. cpp_bind (read_atom R j 2) (\<lambda>zj.
     cpp_bind (peek bx 0) (\<lambda>b0. cpp_bind (peek bx 4) (\<lambda>b4. cpp_bind (peek bx 8) (\<lambda>b8.
     let diffRX = min_image A (f_sub A xi xj) b0;
         diffRY = min_image A (f_sub A yi yj) b4;
         diffRZ = min_image A (f_sub A zi zj) b8;
         diffR = f_sqrt A (f_add A (f_add A (f_mul A diffRX diffRX) (f_mul A diffRY diffRY)) (f_mul A diffRZ diffRZ))
     in if f_less A diffR (cuttOffR this) then
          let a = f_pow A (f_div A (psi this) diffR) (f_lit A 6);
              b = f_mul A (f_mul A (f_lit A 4) (u0 this)) a
          in case cuttOffU this of
               None \<Rightarrow> Undef
             | Some cu \<Rightarrow>
                 let U = f_sub A (f_add A (fst UF) (f_mul A b (f_sub A a (f_lit A 1)))) cu;
                     dU = f_mul A (f_div A (f_mul A (f_lit A (- 6)) b) diffR)
                            (f_sub A (f_mul A (f_lit A 2) a) (f_lit A 1))
                 in cpp_bind (update_atom i 0 (\<lambda>f. f_sub A f (f_div A (f_mul A dU diffRX) diffR)) (snd UF)) (\<lambda>F.
                    cpp_bind (update_atom i 1 (\<lambda>f. f_sub A f (f_div A (f_mul A dU diffRY) diffR)) F) (\<lambda>F.
                    cpp_bind (update_atom i 2 (\<lambda>f. f_sub A f (f_div A (f_mul A dU diffRZ) diffR)) F) (\<lambda>F.
                    cpp_bind (update_atom j 0 (\<lambda>f. f_add A f (f_div A (f_mul A dU diffRX) diffR)) F) (\<lambda>F.
                    cpp_bind (update_atom j 1 (\<lambda>f. f_add A f (f_div A (f_mul A dU diffRY) diffR)) F) (\<lambda>F.
                    cpp_bind (update_atom j 2 (\<lambda>f. f_add A f (f_div A (f_mul A dU diffRZ) diffR)) F) (\<lambda>F.
                    Returned (U, F)))))))
        else Returned UF)))))))))"

definition LJPot_forceImpl :: "'r arith \<Rightarrow> 'r LJPot \<Rightarrow> 'r ForceInput \<Rightarrow> 'r ForceOut \<Rightarrow> 'r ForceOut cpp" where
  "LJPot_forceImpl A this inp out =
     (let N = sint (nAtoms inp);
          U = f_lit A 0
      in cpp_bind (loop_over [0..N - 1] (\<lambda>i F.
           cpp_bind (write_atom i 0 (f_lit A 0) F) (\<lambda>F.
           cpp_bind (write_atom i 1 (f_lit A 0) F) (\<lambda>F.
           write_atom i 2 (f_lit A 0) F))) (out_F out)) (\<lambda>F.
         cpp_bind (loop_over [0..N - 2] (\<lambda>i.
           loop_over [i + 1..N - 1] (\<lambda>j. lj_pair A this (in_pos inp) (in_box inp) i j)) (U, F)) (\<lambda>UF.
         Returned (out\<lparr>out_energy := fst UF, out_F := snd UF\<rparr>))))"

section \<open>The loop is a fold over the pairs\<close>

text \<open>The reference: one pair's contribution, as a total function on lists.\<close>

definition displacement :: "'r arith \<Rightarrow> 'r list \<Rightarrow> 'r list \<Rightarrow> nat \<Rightarrow> nat \<Rightarrow> nat \<Rightarrow> 'r" where
  "displacement A R bx i j k = min_image A (f_sub A (R ! (3 * i + k)) (R ! (3 * j + k))) (bx ! (4 * k))"

definition distance :: "'r arith \<Rightarrow> 'r list \<Rightarrow> 'r list \<Rightarrow> nat \<Rightarrow> nat \<Rightarrow> 'r" where
  "distance A R bx i j =
     (let d = displacement A R bx i j
      in f_sqrt A (f_add A (f_add A (f_mul A (d 0) (d 0)) (f_mul A (d 1) (d 1))) (f_mul A (d 2) (d 2))))"

definition attraction :: "'r arith \<Rightarrow> 'r LJPot \<Rightarrow> 'r \<Rightarrow> 'r" where
  "attraction A lj r = f_pow A (f_div A (psi lj) r) (f_lit A 6)"

definition pair_energy :: "'r arith \<Rightarrow> 'r LJPot \<Rightarrow> 'r \<Rightarrow> 'r" where
  "pair_energy A lj r =
     (let a = attraction A lj r
      in f_mul A (f_mul A (f_mul A (f_lit A 4) (u0 lj)) a) (f_sub A a (f_lit A 1)))"

definition pair_slope :: "'r arith \<Rightarrow> 'r LJPot \<Rightarrow> 'r \<Rightarrow> 'r" where
  "pair_slope A lj r =
     (let a = attraction A lj r
      in f_mul A (f_div A (f_mul A (f_lit A (- 6)) (f_mul A (f_mul A (f_lit A 4) (u0 lj)) a)) r)
           (f_sub A (f_mul A (f_lit A 2) a) (f_lit A 1)))"

definition pull :: "'r arith \<Rightarrow> 'r LJPot \<Rightarrow> 'r list \<Rightarrow> 'r list \<Rightarrow> nat \<Rightarrow> nat \<Rightarrow> nat \<Rightarrow> 'r" where
  "pull A lj R bx i j k =
     (let r = distance A R bx i j
      in f_div A (f_mul A (pair_slope A lj r) (displacement A R bx i j k)) r)"

definition add3 :: "('r \<Rightarrow> 'r \<Rightarrow> 'r) \<Rightarrow> nat \<Rightarrow> (nat \<Rightarrow> 'r) \<Rightarrow> 'r list \<Rightarrow> 'r list" where
  "add3 g i d F = F[3 * i := g (F ! (3 * i)) (d 0), 3 * i + 1 := g (F ! (3 * i + 1)) (d 1),
      3 * i + 2 := g (F ! (3 * i + 2)) (d 2)]"

definition add_pair :: "'r arith \<Rightarrow> 'r LJPot \<Rightarrow> 'r \<Rightarrow> 'r list \<Rightarrow> 'r list \<Rightarrow> nat \<times> nat \<Rightarrow> 'r \<times> 'r list \<Rightarrow> 'r \<times> 'r list" where
  "add_pair A lj cu R bx p UF = (case p of (i, j) \<Rightarrow>
     if f_less A (distance A R bx i j) (cuttOffR lj)
     then (f_sub A (f_add A (fst UF) (pair_energy A lj (distance A R bx i j))) cu,
           add3 (f_add A) j (pull A lj R bx i j) (add3 (f_sub A) i (pull A lj R bx i j) (snd UF)))
     else UF)"

definition atom_pairs :: "nat \<Rightarrow> (nat \<times> nat) list" where
  "atom_pairs n = concat (map (\<lambda>i. map (Pair i) [Suc i..<n]) [0..<n - 1])"

lemma length_add3 [simp]: "length (add3 g i d F) = length F"
  by (simp add: add3_def)

lemma length_add_pair [simp]: "length (snd (add_pair A lj cu R bx p UF)) = length (snd UF)"
  by (auto simp: add_pair_def split: prod.split)

lemma length_fold_add_pair: "length (snd (fold (add_pair A lj cu R bx) ps UF)) = length (snd UF)"
  by (induction ps arbitrary: UF) simp_all

text \<open>In the range of \<^verbatim>\<open>int\<close>, the accesses are to the components of the atom.\<close>

lemma atom_index_in:
  assumes "3 * i + k < 2 ^ 31"
  shows "atom_index (int i) (int k) = Returned (3 * i + k)"
proof -
  have "3 * int i + int k < 2 ^ 31" using assms by simp
  moreover have "nat (3 * int i + int k) = 3 * i + k" by simp
  ultimately show ?thesis by (simp only: atom_index_def if_True)
qed

lemmas atom_index_012 = atom_index_in [of _ 0, simplified] atom_index_in [of _ 1, simplified]
  atom_index_in [of _ 2, simplified]

lemma lj_pair_eq:
  assumes "cuttOffU lj = Some cu" "length bx = 9" "length R = 3 * n" "3 * n \<le> 2 ^ 31"
    "i < n" "j < n" "length (snd UF) = 3 * n"
  shows "lj_pair A lj R bx (int i) (int j) UF = Returned (add_pair A lj cu R bx (i, j) UF)"
proof -
  have ix: "atom_index (int m) 0 = Returned (3 * m)" "atom_index (int m) 1 = Returned (3 * m + 1)"
    "atom_index (int m) 2 = Returned (3 * m + 2)" if "m < n" for m
    using atom_index_012 [of m] that assms(4) by simp_all
  have rd: "read_atom R (int m) 0 = Returned (R ! (3 * m))" "read_atom R (int m) 1 = Returned (R ! (3 * m + 1))"
    "read_atom R (int m) 2 = Returned (R ! (3 * m + 2))" if "m < n" for m
    using ix [OF that] that assms(3) by (simp_all add: read_atom_def)
  have up: "update_atom (int m) 0 g F = Returned (F[3 * m := g (F ! (3 * m))])"
    "update_atom (int m) 1 g F = Returned (F[3 * m + 1 := g (F ! (3 * m + 1))])"
    "update_atom (int m) 2 g F = Returned (F[3 * m + 2 := g (F ! (3 * m + 2))])"
    if "m < n" "length F = 3 * n" for m g and F :: "'a list"
    using ix [OF that(1)] that by (simp_all add: update_atom_def)
  show ?thesis using assms(1,2,5,6,7)
    by (simp add: lj_pair_def rd up add_pair_def add3_def distance_def displacement_def pull_def
        pair_energy_def pair_slope_def attraction_def Let_def)
qed

lemma sint_small:
  assumes "unat x < 2 ^ 63"
  shows "sint (x :: 64 word) = int (unat x)"
proof -
  have "sint (word_of_int (int k) :: 64 word) = int k" if "k < 2 ^ 63" for k
    using that by (intro sint_of_int_64) simp_all
  from this [OF assms] show ?thesis by simp
qed

text \<open>Integer ranges of the loops as ranges of naturals.\<close>

lemma upto_int: "[int a..int b - 1] = map int [a..<b]"
proof (induction b)
  case (Suc b)
  show ?case
  proof (cases "a \<le> b")
    case True
    then have "[int a..int (Suc b) - 1] = [int a..int b - 1] @ [int b]" by (simp add: upto_rec2)
    with Suc True show ?thesis by simp
  qed simp
qed simp

lemma loop_over_map: "loop_over (map g is) body s = loop_over is (\<lambda>i. body (g i)) s"
proof (induction "is" arbitrary: s)
  case (Cons i "is")
  then have "loop_over (map g is) body = loop_over is (\<lambda>i. body (g i))" by (intro ext)
  then show ?case by simp
qed simp

lemma fold_concat_map: "fold f (concat (map g xs)) s = fold (\<lambda>x. fold f (g x)) xs s"
  by (induction xs arbitrary: s) simp_all

lemma pair_loops_nat:
  "loop_over [0..int n - 2] (\<lambda>i. loop_over [i + 1..int n - 1] (\<lambda>j. body i j)) s =
     loop_over [0..<n - 1] (\<lambda>i. loop_over [Suc i..<n] (\<lambda>j. body (int i) (int j))) s"
proof -
  have "[int i + 1..int n - 1] = map int [Suc i..<n]" for i using upto_int [of "Suc i" n] by (simp add: add.commute)
  then have "loop_over [int i + 1..int n - 1] (body (int i)) = loop_over [Suc i..<n] (\<lambda>j. body (int i) (int j))" for i
    by (intro ext) (simp add: loop_over_map)
  moreover have "[0..int n - 2] = map int [0..<n - 1]"
    using upto_int [of 0 "n - 1"] by (cases n) (simp_all add: algebra_simps)
  ultimately show ?thesis by (simp add: loop_over_map)
qed

lemma pair_loop_eq:
  assumes cu: "cuttOffU lj = Some cu" and len: "length bx = 9" "length R = 3 * n" "3 * n \<le> 2 ^ 31"
    and UF: "length (snd UF) = 3 * n"
  shows "loop_over [0..int n - 2] (\<lambda>i. loop_over [i + 1..int n - 1] (\<lambda>j. lj_pair A lj R bx i j)) UF =
     Returned (fold (add_pair A lj cu R bx) (atom_pairs n) UF)"
proof -
  let ?I = "\<lambda>s. length (snd s) = 3 * n" and ?f = "add_pair A lj cu R bx"
  have inner: "loop_over [Suc i..<n] (\<lambda>j. lj_pair A lj R bx (int i) (int j)) s =
      Returned (fold (\<lambda>j. ?f (i, j)) [Suc i..<n] s) \<and> ?I (fold (\<lambda>j. ?f (i, j)) [Suc i..<n] s)"
    if "i < n" "?I s" for i s
    using cu len that by (intro loop_over_fold) (auto simp: lj_pair_eq)
  have "loop_over [0..<n - 1] (\<lambda>i. loop_over [Suc i..<n] (\<lambda>j. lj_pair A lj R bx (int i) (int j))) UF =
    Returned (fold (\<lambda>i. fold (\<lambda>j. ?f (i, j)) [Suc i..<n]) [0..<n - 1] UF)"
    using loop_over_fold [where I = ?I and s = UF and ?is = "[0..<n - 1]"] UF inner by simp
  also have "fold (\<lambda>i. fold (\<lambda>j. ?f (i, j)) [Suc i..<n]) [0..<n - 1] UF = fold ?f (atom_pairs n) UF"
    by (simp add: atom_pairs_def fold_concat_map fold_map comp_def)
  finally show ?thesis by (simp add: pair_loops_nat)
qed

lemma clear_loop_eq:
  assumes "length F = 3 * n" "3 * n \<le> 2 ^ 31"
  shows "loop_over [0..int n - 1] (\<lambda>i F. cpp_bind (write_atom i 0 z F) (\<lambda>F.
           cpp_bind (write_atom i 1 z F) (\<lambda>F. write_atom i 2 z F))) F = Returned (replicate (3 * n) z)"
proof -
  let ?body = "\<lambda>i F. cpp_bind (write_atom i 0 z F) (\<lambda>F. cpp_bind (write_atom i 1 z F) (\<lambda>F. write_atom i 2 z F))"
  have "loop_over [0..<n] (\<lambda>i. ?body (int i)) F = Returned (fold (clear3 z) [0..<n] F) \<and>
      length (fold (clear3 z) [0..<n] F) = 3 * n"
  proof (rule loop_over_fold [where I = "\<lambda>F. length F = 3 * n"])
    fix i and F :: "'a list"
    assume "i \<in> set [0..<n]" "length F = 3 * n"
    then show "?body (int i) F = Returned (clear3 z i F) \<and> length (clear3 z i F) = 3 * n"
      using atom_index_012 [of i] assms(2) by (simp add: write_atom_def clear3_def)
  qed (rule assms)
  with assms(1) show ?thesis using upto_int [of 0 n] by (simp add: loop_over_map clear3_all)
qed

lemma lj_run:
  assumes "cuttOffU lj = Some cu" "unat (nAtoms inp) \<le> 715827882"
    "length (in_pos inp) = 3 * unat (nAtoms inp)" "length (in_box inp) = 9" "length (out_F out) = 3 * unat (nAtoms inp)"
  shows "LJPot_forceImpl A lj inp out =
     (let UF = fold (add_pair A lj cu (in_pos inp) (in_box inp)) (atom_pairs (unat (nAtoms inp)))
                 (f_lit A 0, replicate (3 * unat (nAtoms inp)) (f_lit A 0))
      in Returned (out\<lparr>out_energy := fst UF, out_F := snd UF\<rparr>))"
proof -
  define n where "n = unat (nAtoms inp)"
  then have n: "sint (nAtoms inp) = int n" "3 * n \<le> 2 ^ 31" using assms(2) by (simp_all add: sint_small)
  have "LJPot_forceImpl A lj inp out =
     (let UF = fold (add_pair A lj cu (in_pos inp) (in_box inp)) (atom_pairs n) (f_lit A 0, replicate (3 * n) (f_lit A 0))
      in Returned (out\<lparr>out_energy := fst UF, out_F := snd UF\<rparr>))"
    unfolding LJPot_forceImpl_def Let_def n(1)
    using assms n(2) by (simp add: clear_loop_eq pair_loop_eq flip: n_def)
  then show ?thesis by (simp add: n_def)
qed

text \<open>
  C23: The Lennard-Jones loop.  For up to \<open>715827882\<close> atoms, with arrays of matching sizes and an
  initialised shift, \<^verbatim>\<open>forceImpl\<close> has no undefined behaviour and its result is the reference:
  starting from zero, each pair of atoms contributes once, in the order of the pairs.  This
  holds for every arithmetic of doubles.  That the shift is initialised is a condition of the
  method which the constructor of the class does not establish (see the last section).
\<close>

theorem lj_is_pair_fold:
  assumes "cuttOffU lj = Some cu" "unat (nAtoms inp) \<le> 715827882"
    "length (in_pos inp) = 3 * unat (nAtoms inp)" "length (in_box inp) = 9" "length (out_F out) = 3 * unat (nAtoms inp)"
  shows "LJPot_forceImpl A lj inp out =
     (let UF = fold (add_pair A lj cu (in_pos inp) (in_box inp)) (atom_pairs (unat (nAtoms inp)))
                 (f_lit A 0, replicate (3 * unat (nAtoms inp)) (f_lit A 0))
      in Returned (out\<lparr>out_energy := fst UF, out_F := snd UF\<rparr>))"
  using assms by (rule lj_run)

section \<open>Exact arithmetic\<close>

text \<open>The C function \<^verbatim>\<open>pow\<close> accepts a negative base with an integral exponent.\<close>

definition real_arith :: "real arith" where
  "real_arith = \<lparr>f_add = (+), f_sub = (-), f_mul = (*), f_div = (/), f_floor = (\<lambda>x. of_int \<lfloor>x\<rfloor>),
     f_sqrt = sqrt,
     f_pow = (\<lambda>x y. if y = of_int \<lfloor>y\<rfloor> \<and> 0 \<le> y then x ^ nat \<lfloor>y\<rfloor> else x powr y),
     f_less = (<), f_lit = of_rat\<rparr>"

lemma real_arith_ops [simp]:
  "f_add real_arith = (+)" "f_sub real_arith = (-)" "f_mul real_arith = (*)" "f_div real_arith = (/)"
  "f_floor real_arith x = of_int \<lfloor>x\<rfloor>" "f_sqrt real_arith = sqrt" "f_pow real_arith x 6 = x ^ 6"
  "f_less real_arith = (<)" "f_lit real_arith = of_rat"
  by (simp_all add: real_arith_def)

text \<open>The 12-6 potential and its slope.\<close>

definition lj_energy :: "real \<Rightarrow> real \<Rightarrow> real \<Rightarrow> real" where
  "lj_energy u s r = 4 * u * ((s / r) ^ 12 - (s / r) ^ 6)"

definition lj_slope :: "real \<Rightarrow> real \<Rightarrow> real \<Rightarrow> real" where
  "lj_slope u s r = - 24 * u / r * (2 * (s / r) ^ 12 - (s / r) ^ 6)"

lemma lj_slope_is_derivative:
  assumes "r \<noteq> 0"
  shows "(lj_energy u s has_real_derivative lj_slope u s r) (at r)"
  unfolding lj_energy_def lj_slope_def using assms
  by (auto intro!: derivative_eq_intros simp: field_simps power_divide eval_nat_numeral)

lemma attraction_real: "attraction real_arith lj r = (psi lj / r) ^ 6"
  by (simp add: attraction_def)

lemma pair_energy_real: "pair_energy real_arith lj r = lj_energy (u0 lj) (psi lj) r"
  by (simp add: pair_energy_def attraction_real lj_energy_def Let_def algebra_simps flip: power_add)

lemma pair_slope_real: "pair_slope real_arith lj r = lj_slope (u0 lj) (psi lj) r"
  by (simp add: pair_slope_def attraction_real lj_slope_def Let_def algebra_simps of_rat_minus
      diff_divide_distrib add_divide_distrib flip: power_add)

lemma displacement_real:
  "displacement real_arith R bx i j k =
     (let d = R ! (3 * i + k) - R ! (3 * j + k); b = bx ! (4 * k) in d - b * of_int \<lfloor>d / b + 1 / 2\<rfloor>)"
  by (simp add: displacement_def min_image_def Let_def of_rat_divide)

text \<open>The image is at most half a box away.\<close>

lemma displacement_half_box:
  assumes "0 < bx ! (4 * k)"
  shows "\<bar>displacement real_arith R bx i j k\<bar> \<le> bx ! (4 * k) / 2"
proof -
  define b where "b = bx ! (4 * k)"
  define d where "d = R ! (3 * i + k) - R ! (3 * j + k)"
  have "\<bar>d / b - of_int \<lfloor>d / b + 1 / 2\<rfloor>\<bar> \<le> 1 / 2" by linarith
  moreover have "displacement real_arith R bx i j k = d - b * of_int \<lfloor>d / b + 1 / 2\<rfloor>"
    by (simp only: displacement_real b_def d_def Let_def)
  moreover have b: "0 < b" using assms by (simp add: b_def)
  moreover from b have "d - b * z = b * (d / b - z)" for z by (simp add: right_diff_distrib)
  ultimately have "\<bar>displacement real_arith R bx i j k\<bar> = b * \<bar>d / b - of_int \<lfloor>d / b + 1 / 2\<rfloor>\<bar>"
    by (simp only: abs_mult abs_of_pos)
  also have "\<dots> \<le> b * (1 / 2)" using b \<open>_ \<le> 1 / 2\<close> by (intro mult_left_mono) simp_all
  finally show ?thesis by (simp add: b_def)
qed

text \<open>What the pairs add up to.\<close>

lemma nth_add3:
  assumes "length F = 3 * n" "i < n" "a < n" "k < 3"
  shows "add3 g i d F ! (3 * a + k) = (if a = i then g (F ! (3 * a + k)) (d k) else F ! (3 * a + k))"
proof -
  have k: "k = 0 \<or> k = 1 \<or> k = 2" using assms(4) by auto
  have lt: "3 * a + k < length F" using assms by simp
  show ?thesis
  proof (cases "a = i")
    case True
    with k lt show ?thesis by (auto simp: add3_def nth_update)
  next
    case False
    with k have "3 * a + k \<noteq> 3 * i" "3 * a + k \<noteq> 3 * i + 1" "3 * a + k \<noteq> 3 * i + 2" by presburger+
    with False lt show ?thesis by (simp add: add3_def nth_update)
  qed
qed

definition near :: "real LJPot \<Rightarrow> real list \<Rightarrow> real list \<Rightarrow> nat \<Rightarrow> nat \<Rightarrow> bool" where
  "near lj R bx i j \<longleftrightarrow> distance real_arith R bx i j < cuttOffR lj"

definition pair_share :: "real LJPot \<Rightarrow> real list \<Rightarrow> real list \<Rightarrow> nat \<Rightarrow> nat \<Rightarrow> nat \<times> nat \<Rightarrow> real" where
  "pair_share lj R bx a k p = (case p of (i, j) \<Rightarrow>
     if near lj R bx i j
     then (if a = j then pull real_arith lj R bx i j k else 0) - (if a = i then pull real_arith lj R bx i j k else 0)
     else 0)"

lemma fold_add_pair_energy:
  "fst (fold (add_pair real_arith lj cu R bx) ps UF) = fst UF +
     (\<Sum>(i, j)\<leftarrow>ps. if near lj R bx i j then pair_energy real_arith lj (distance real_arith R bx i j) - cu else 0)"
proof (induction ps arbitrary: UF)
  case (Cons p ps)
  have "fst (add_pair real_arith lj cu R bx p UF) = fst UF +
     (case p of (i, j) \<Rightarrow> if near lj R bx i j then pair_energy real_arith lj (distance real_arith R bx i j) - cu else 0)"
    by (simp add: add_pair_def near_def split: prod.split)
  with Cons show ?case by simp
qed simp

lemma fold_add_pair_force:
  assumes "length (snd UF) = 3 * n" "\<And>i j. (i, j) \<in> set ps \<Longrightarrow> i < n \<and> j < n \<and> i \<noteq> j" "a < n" "k < 3"
  shows "snd (fold (add_pair real_arith lj cu R bx) ps UF) ! (3 * a + k) =
     snd UF ! (3 * a + k) + (\<Sum>p\<leftarrow>ps. pair_share lj R bx a k p)"
  using assms(1,2)
proof (induction ps arbitrary: UF)
  case (Cons p ps)
  obtain i j where p: "p = (i, j)" by (cases p)
  with Cons.prems(2) have ij: "i < n" "j < n" "i \<noteq> j" by auto
  have "snd (add_pair real_arith lj cu R bx p UF) ! (3 * a + k) = snd UF ! (3 * a + k) + pair_share lj R bx a k p"
    using ij Cons.prems(1) assms(3,4)
    by (simp add: p add_pair_def pair_share_def near_def nth_add3 [where n = n])
  moreover have "snd (fold (add_pair real_arith lj cu R bx) ps (add_pair real_arith lj cu R bx p UF)) ! (3 * a + k) =
      snd (add_pair real_arith lj cu R bx p UF) ! (3 * a + k) + (\<Sum>p\<leftarrow>ps. pair_share lj R bx a k p)"
    using Cons.prems by (intro Cons.IH) auto
  ultimately show ?case by simp
qed simp

lemma set_atom_pairs: "set (atom_pairs n) = {(i, j). i < j \<and> j < n}"
  by (fastforce simp: atom_pairs_def)

lemma distinct_atom_pairs: "distinct (atom_pairs n)"
  unfolding atom_pairs_def
  by (rule distinct_concat)
    (auto simp: distinct_map inj_on_def upt_conv_Cons dest!: arg_cong [where f = hd])

lemma sum_atom_pairs: "(\<Sum>p\<leftarrow>atom_pairs n. f p) = (\<Sum>p\<in>{(i, j). i < j \<and> j < n}. f p)"
  using sum_list_distinct_conv_sum_set [OF distinct_atom_pairs] by (simp add: set_atom_pairs)

lemma finite_pairs [simp]: "finite {(i, j). i < j \<and> j < (n :: nat)}"
  using finite_set [of "atom_pairs n"] by (simp add: set_atom_pairs)

lemma sum_near_pairs:
  fixes n :: nat
  shows "(\<Sum>(i, j)\<in>{(i, j). i < j \<and> j < n}. if P i j then f i j else (0 :: real)) =
     (\<Sum>(i, j) | i < j \<and> j < n \<and> P i j. f i j)"
  by (rule sum.mono_neutral_cong_right) (auto split: if_splits)

lemma sum_pair_share:
  assumes "a < n"
  shows "(\<Sum>p\<in>{(i, j). i < j \<and> j < n}. pair_share lj R bx a k p) =
     (\<Sum>j | a < j \<and> j < n \<and> near lj R bx a j. - pull real_arith lj R bx a j k) +
     (\<Sum>i | i < a \<and> near lj R bx i a. pull real_arith lj R bx i a k)"
proof -
  let ?P = "{(i, j). i < j \<and> j < n}" and ?g = "\<lambda>i j. pull real_arith lj R bx i j k"
  have "(\<Sum>p\<in>?P. pair_share lj R bx a k p) =
      (\<Sum>(i, j)\<in>?P. if near lj R bx i j \<and> a = i then - ?g i j else 0) +
      (\<Sum>(i, j)\<in>?P. if near lj R bx i j \<and> a = j then ?g i j else 0)"
    unfolding sum.distrib [symmetric] by (rule sum.cong) (auto simp: pair_share_def)
  also have "(\<Sum>(i, j)\<in>?P. if near lj R bx i j \<and> a = i then - ?g i j else 0) =
      (\<Sum>(i, j) | i < j \<and> j < n \<and> near lj R bx i j \<and> a = i. - ?g i j)" by (rule sum_near_pairs)
  also have "\<dots> = (\<Sum>j | a < j \<and> j < n \<and> near lj R bx a j. - ?g a j)"
    by (rule sum.reindex_bij_witness [of _ "Pair a" snd]) auto
  also have "(\<Sum>(i, j)\<in>?P. if near lj R bx i j \<and> a = j then ?g i j else 0) =
      (\<Sum>(i, j) | i < j \<and> j < n \<and> near lj R bx i j \<and> a = j. ?g i j)" by (rule sum_near_pairs)
  also have "\<dots> = (\<Sum>i | i < a \<and> near lj R bx i a. ?g i a)"
    by (rule sum.reindex_bij_witness [of _ "\<lambda>i. (i, a)" fst]) (use assms in auto)
  finally show ?thesis .
qed

lemma sum_shares_zero:
  assumes "i < n" "j < n"
  shows "(\<Sum>a<n. pair_share lj R bx a k (i, j)) = 0"
  using assms by (cases "near lj R bx i j") (simp_all add: pair_share_def sum_subtractf)

text \<open>
  C22: The physics of the Lennard-Jones loop.  In exact arithmetic, for an object whose shift is set,
  which its constructor does not do (see the last section), the energy is the sum of
  \<open>4 u0 ((psi / r) ^ 12 - (psi / r) ^ 6)\<close> less the shift over the pairs closer than the cutoff, the force on an atom
  is the sum of the negative slopes of that energy along the minimum-image displacements
  to the other atoms, the slope is the derivative of the energy, and the forces on all
  atoms add up to zero.
\<close>

theorem lj_exact:
  assumes cu: "cuttOffU lj = Some cu" and n: "unat (nAtoms inp) = n" "n \<le> 715827882"
    and len: "length (in_pos inp) = 3 * n" "length (in_box inp) = 9" "length (out_F out) = 3 * n"
  shows "\<exists>out'. LJPot_forceImpl real_arith lj inp out = Returned out' \<and> length (out_F out') = 3 * n \<and>
     (let R = in_pos inp; bx = in_box inp; r = distance real_arith R bx; d = displacement real_arith R bx;
          slope = lj_slope (u0 lj) (psi lj)
      in out_energy out' = (\<Sum>(i, j) | i < j \<and> j < n \<and> near lj R bx i j. lj_energy (u0 lj) (psi lj) (r i j) - cu) \<and>
         (\<forall>a < n. \<forall>k < 3. out_F out' ! (3 * a + k) =
            (\<Sum>j | a < j \<and> j < n \<and> near lj R bx a j. - (slope (r a j) * d a j k / r a j)) +
            (\<Sum>i | i < a \<and> near lj R bx i a. slope (r i a) * d i a k / r i a)) \<and>
         (\<forall>k < 3. (\<Sum>a < n. out_F out' ! (3 * a + k)) = 0) \<and>
         (\<forall>x. x \<noteq> 0 \<longrightarrow> (lj_energy (u0 lj) (psi lj) has_real_derivative slope x) (at x)))"
proof -
  define R bx where "R = in_pos inp" and "bx = in_box inp"
  define UF where "UF = fold (add_pair real_arith lj cu R bx) (atom_pairs n) (0, replicate (3 * n) 0)"
  have run: "LJPot_forceImpl real_arith lj inp out = Returned (out\<lparr>out_energy := fst UF, out_F := snd UF\<rparr>)"
    using lj_run [of lj cu inp out real_arith] assms by (simp add: UF_def R_def bx_def Let_def)
  have F: "snd UF ! (3 * a + k) = (\<Sum>p\<leftarrow>atom_pairs n. pair_share lj R bx a k p)" if "a < n" "k < 3" for a k
  proof -
    have "snd UF ! (3 * a + k) = snd (0 :: real, replicate (3 * n) (0 :: real)) ! (3 * a + k) +
        (\<Sum>p\<leftarrow>atom_pairs n. pair_share lj R bx a k p)"
      unfolding UF_def using that by (intro fold_add_pair_force) (auto simp: set_atom_pairs)
    with that show ?thesis by simp
  qed
  have e: "fst UF = (\<Sum>(i, j) | i < j \<and> j < n \<and> near lj R bx i j.
      lj_energy (u0 lj) (psi lj) (distance real_arith R bx i j) - cu)"
    by (simp add: sum_near_pairs UF_def fold_add_pair_energy sum_atom_pairs pair_energy_real)
  have f: "snd UF ! (3 * a + k) =
      (\<Sum>j | a < j \<and> j < n \<and> near lj R bx a j. - pull real_arith lj R bx a j k) +
      (\<Sum>i | i < a \<and> near lj R bx i a. pull real_arith lj R bx i a k)" if "a < n" "k < 3" for a k
    using F [OF that] sum_pair_share [OF that(1)] by (simp add: sum_atom_pairs)
  have z: "(\<Sum>a < n. snd UF ! (3 * a + k)) = 0" if "k < 3" for k
  proof -
    have "(\<Sum>a < n. snd UF ! (3 * a + k)) = (\<Sum>a < n. \<Sum>p\<leftarrow>atom_pairs n. pair_share lj R bx a k p)"
      using F that by simp
    also have "\<dots> = (\<Sum>p\<in>{(i, j). i < j \<and> j < n}. \<Sum>a < n. pair_share lj R bx a k p)"
      unfolding sum_atom_pairs by (rule sum.swap)
    also have "\<dots> = 0" by (rule sum.neutral) (auto simp: sum_shares_zero)
    finally show ?thesis .
  qed
  have l: "length (snd UF) = 3 * n" by (simp add: UF_def length_fold_add_pair)
  show ?thesis using run e f z l lj_slope_is_derivative
    by (simp add: R_def bx_def pull_def pair_slope_real Let_def)
qed

text \<open>The dimer of the repository's invariance test.\<close>

definition dimer_pot :: "real LJPot" where
  "dimer_pot = \<lparr>u0 = 1, cuttOffR = 15, psi = 1, cuttOffU = Some 0\<rparr>"

definition dimer_in :: "real ForceInput" where
  "dimer_in = \<lparr>nAtoms = 2, in_pos = [0, 0, 0, 3 / 2, 0, 0], in_atmnrs = [1, 1],
     in_box = [10, 0, 0, 0, 10, 0, 0, 0, 10]\<rparr>"

definition dimer_out :: "real ForceOut" where
  "dimer_out = \<lparr>out_F = replicate 6 0, out_energy = 0, out_variance = 0\<rparr>"

lemma dimer [simp]:
  "cuttOffU dimer_pot = Some 0" "unat (nAtoms dimer_in) = 2" "length (in_pos dimer_in) = 6"
  "length (in_box dimer_in) = 9" "length (out_F dimer_out) = 6" "in_pos dimer_in = [0, 0, 0, 3 / 2, 0, 0]"
  "in_box dimer_in = [10, 0, 0, 0, 10, 0, 0, 0, 10]"
  by (simp_all add: dimer_pot_def dimer_in_def dimer_out_def)

theorem lj_is_pair_fold_witness:
  "\<exists>out'. LJPot_forceImpl real_arith dimer_pot dimer_in dimer_out = Returned out' \<and>
     out' = dimer_out\<lparr>out_energy := fst (add_pair real_arith dimer_pot 0 (in_pos dimer_in) (in_box dimer_in) (0, 1) (0, replicate 6 0)),
       out_F := snd (add_pair real_arith dimer_pot 0 (in_pos dimer_in) (in_box dimer_in) (0, 1) (0, replicate 6 0))\<rparr>"
  using lj_is_pair_fold [of dimer_pot 0 dimer_in dimer_out real_arith] by (simp add: atom_pairs_def Let_def upt_conv_Cons)

theorem lj_exact_witness:
  "\<exists>out'. LJPot_forceImpl real_arith dimer_pot dimer_in dimer_out = Returned out' \<and>
     out_F out' ! 0 = - (out_F out' ! 3)"
proof -
  obtain out' where out: "LJPot_forceImpl real_arith dimer_pot dimer_in dimer_out = Returned out'"
    and sum: "\<forall>k < 3. (\<Sum>a < 2. out_F out' ! (3 * a + k)) = 0"
    using lj_exact [of dimer_pot 0 dimer_in 2 dimer_out, OF dimer(1,2)] unfolding Let_def
    by (simp del: dimer(6,7)) blast
  from sum [rule_format, of 0] have "out_F out' ! 0 = - (out_F out' ! 3)" by (simp add: eval_nat_numeral)
  with out show ?thesis by blast
qed

section \<open>Invariance\<close>

text \<open>
  Invariance.  In exact arithmetic, translating all atoms by one vector and any atom by
  whole box lengths along the axes changes neither the energy nor the forces.
\<close>

theorem lj_invariant:
  assumes cu: "cuttOffU lj = Some cu" and n: "unat (nAtoms inp) = n" "n \<le> 715827882"
    and len: "length (in_pos inp) = 3 * n" "length (in_box inp) = 9" "length (out_F out) = 3 * n" "length R' = 3 * n"
    and box: "\<And>k. k < 3 \<Longrightarrow> in_box inp ! (4 * k) \<noteq> 0"
    and moved: "\<And>i k. i < n \<Longrightarrow> k < 3 \<Longrightarrow>
       R' ! (3 * i + k) = in_pos inp ! (3 * i + k) + t k + in_box inp ! (4 * k) * of_int (z i k)"
  shows "LJPot_forceImpl real_arith lj (inp\<lparr>in_pos := R'\<rparr>) out = LJPot_forceImpl real_arith lj inp out"
proof -
  let ?R = "in_pos inp" and ?bx = "in_box inp"
  have d: "displacement real_arith R' ?bx i j k = displacement real_arith ?R ?bx i j k"
    if "i < n" "j < n" "k < 3" for i j k
  proof -
    define b d where "b = ?bx ! (4 * k)" and "d = ?R ! (3 * i + k) - ?R ! (3 * j + k)"
    have "R' ! (3 * i + k) - R' ! (3 * j + k) = d + b * of_int (z i k - z j k)"
      using moved [of i k] moved [of j k] that by (simp add: b_def d_def algebra_simps)
    moreover have "(d + b * of_int m) / b + 1 / 2 = (d / b + 1 / 2) + of_int m" for m
      using box [OF that(3)] by (simp add: b_def add_divide_distrib)
    then have "d + b * of_int m - b * of_int \<lfloor>(d + b * of_int m) / b + 1 / 2\<rfloor> = d - b * of_int \<lfloor>d / b + 1 / 2\<rfloor>" for m
      by (simp add: algebra_simps)
    ultimately show ?thesis by (simp only: displacement_real Let_def flip: b_def d_def)
  qed
  have "distance real_arith R' ?bx i j = distance real_arith ?R ?bx i j" if "i < n" "j < n" for i j
    using d [OF that] by (simp add: distance_def Let_def)
  with d have "add_pair real_arith lj cu R' ?bx p = add_pair real_arith lj cu ?R ?bx p" if "p \<in> set (atom_pairs n)" for p
    using that by (intro ext) (auto simp: add_pair_def pull_def add3_def set_atom_pairs)
  then have "fold (add_pair real_arith lj cu R' ?bx) (atom_pairs n) = fold (add_pair real_arith lj cu ?R ?bx) (atom_pairs n)"
    by (intro ext fold_cong) simp_all
  with assms show ?thesis
    using lj_run [of lj cu inp out real_arith] lj_run [of lj cu "inp\<lparr>in_pos := R'\<rparr>" out real_arith]
    by simp
qed

theorem lj_invariant_witness:
  "LJPot_forceImpl real_arith dimer_pot (dimer_in\<lparr>in_pos := [5, 5, 5, - 7 / 2, 5, 5]\<rparr>) dimer_out =
     LJPot_forceImpl real_arith dimer_pot dimer_in dimer_out"
proof (rule lj_invariant [where t = "\<lambda>_. 5" and z = "\<lambda>i k. if i = 1 \<and> k = 0 then - 1 else 0" and cu = 0 and n = 2])
  have three: "k = 0 \<or> k = 1 \<or> k = 2" if "k < 3" for k :: nat using that by auto
  show "in_box dimer_in ! (4 * k) \<noteq> 0" if "k < 3" for k using three [OF that] by auto
  show "[5, 5, 5, - 7 / 2, 5, 5] ! (3 * i + k) = in_pos dimer_in ! (3 * i + k) + 5 +
      in_box dimer_in ! (4 * k) * of_int (if i = 1 \<and> k = 0 then - 1 else 0)" if "i < 2" "k < 3" for i k
    using that(1) three [OF that(2)] by (auto simp: less_2_cases_iff)
qed simp_all

section \<open>The missing shift\<close>

lemma lj_pair_uninitialised:
  assumes "cuttOffU lj = None" "length bx = 9" "length R = 3 * n" "3 * n \<le> 2 ^ 31" "i < n" "j < n"
  shows "lj_pair A lj R bx (int i) (int j) UF =
     (if f_less A (distance A R bx i j) (cuttOffR lj) then Undef else Returned UF)"
proof -
  have rd: "read_atom R (int m) 0 = Returned (R ! (3 * m))" "read_atom R (int m) 1 = Returned (R ! (3 * m + 1))"
    "read_atom R (int m) 2 = Returned (R ! (3 * m + 2))" if "m < n" for m
    using atom_index_012 [of m] that assms(3,4) by (simp_all add: read_atom_def)
  show ?thesis using assms(1,2,5,6)
    by (simp add: lj_pair_def rd distance_def displacement_def Let_def)
qed

lemma loop_over_guard:
  assumes "\<And>i. i \<in> set is \<Longrightarrow> body i s = (if P i then Undef else Returned s)"
  shows "loop_over is body s = (if \<exists>i\<in>set is. P i then Undef else Returned s)"
  using assms by (induction "is") auto

lemma pair_loop_uninitialised:
  assumes "cuttOffU lj = None" "length bx = 9" "length R = 3 * n" "3 * n \<le> 2 ^ 31"
  shows "loop_over [0..int n - 2] (\<lambda>i. loop_over [i + 1..int n - 1] (\<lambda>j. lj_pair A lj R bx i j)) UF =
     (if \<exists>i j. i < j \<and> j < n \<and> f_less A (distance A R bx i j) (cuttOffR lj) then Undef else Returned UF)"
proof -
  let ?P = "\<lambda>i j. f_less A (distance A R bx i j) (cuttOffR lj)"
  have inner: "loop_over [Suc i..<n] (\<lambda>j. lj_pair A lj R bx (int i) (int j)) UF =
      (if \<exists>j\<in>set [Suc i..<n]. ?P i j then Undef else Returned UF)" if "i < n" for i
    using assms that by (intro loop_over_guard lj_pair_uninitialised) auto
  have "loop_over [0..<n - 1] (\<lambda>i. loop_over [Suc i..<n] (\<lambda>j. lj_pair A lj R bx (int i) (int j))) UF =
    (if \<exists>i\<in>set [0..<n - 1]. \<exists>j\<in>set [Suc i..<n]. ?P i j then Undef else Returned UF)"
    by (rule loop_over_guard) (simp add: inner)
  moreover have "i < n - 1" if "i < j" "j < n" for i j using that by simp
  then have "(\<exists>i\<in>set [0..<n - 1]. \<exists>j\<in>set [Suc i..<n]. ?P i j) \<longleftrightarrow> (\<exists>i j. i < j \<and> j < n \<and> ?P i j)"
    unfolding set_upt Bex_def atLeastLessThan_iff Suc_le_eq by blast
  ultimately show ?thesis by (simp add: pair_loops_nat)
qed

lemma lj_as_built:
  assumes n: "unat (nAtoms inp) = n" "n \<le> 715827882"
    and len: "length (in_pos inp) = 3 * n" "length (in_box inp) = 9" "length (out_F out) = 3 * n"
  shows "LJPot_forceImpl A (LJPot_ctor A) inp out =
     (if \<exists>i j. i < j \<and> j < n \<and> f_less A (distance A (in_pos inp) (in_box inp) i j) (f_lit A 15) then Undef
      else Returned (out\<lparr>out_energy := f_lit A 0, out_F := replicate (3 * n) (f_lit A 0)\<rparr>))"
proof -
  have n': "sint (nAtoms inp) = int n" "3 * n \<le> 2 ^ 31" using n by (auto simp: sint_small)
  have "cuttOffU (LJPot_ctor A) = None" "cuttOffR (LJPot_ctor A) = f_lit A 15" by (simp_all add: LJPot_ctor_def)
  then show ?thesis unfolding LJPot_forceImpl_def Let_def n'(1)
    using assms n'(2) by (simp add: clear_loop_eq pair_loop_uninitialised) blast
qed

text \<open>
  C37: The shift is never set.  The constructor of \<^verbatim>\<open>LJPot\<close> initialises every member but the
  energy at the cutoff, and nothing assigns it later.  The force call of such an object is
  therefore defined only for configurations in which no two atoms are closer than the
  cutoff, whose result is zero; any other reads the uninitialised member.
\<close>

theorem lj_shift_uninitialised:
  assumes n: "unat (nAtoms inp) = n" "n \<le> 715827882"
    and len: "length (in_pos inp) = 3 * n" "length (in_box inp) = 9" "length (out_F out) = 3 * n"
  shows "LJPot_forceImpl A (LJPot_ctor A) inp out =
     (if \<exists>i j. i < j \<and> j < n \<and> f_less A (distance A (in_pos inp) (in_box inp) i j) (f_lit A 15) then Undef
      else Returned (out\<lparr>out_energy := f_lit A 0, out_F := replicate (3 * n) (f_lit A 0)\<rparr>))"
  using assms by (rule lj_as_built)

theorem lj_shift_uninitialised_witness:
  "LJPot_forceImpl real_arith (LJPot_ctor real_arith) dimer_in dimer_out = Undef"
proof -
  have "distance real_arith (in_pos dimer_in) (in_box dimer_in) 0 1 < 15"
    by (simp add: distance_def displacement_real Let_def real_sqrt_less_iff) (rule real_less_lsqrt, simp_all)
  then have "f_less real_arith (distance real_arith (in_pos dimer_in) (in_box dimer_in) 0 1) (f_lit real_arith 15)"
    by simp
  then have "\<exists>i j. i < j \<and> j < 2 \<and>
      f_less real_arith (distance real_arith (in_pos dimer_in) (in_box dimer_in) i j) (f_lit real_arith 15)"
    by (intro exI [of _ 0] exI [of _ 1]) simp
  with lj_shift_uninitialised [of dimer_in 2 dimer_out real_arith] show ?thesis
    by (simp del: dimer(6,7))
qed

end
