(* ===== verification/Rgpot_CuH2.thy ===== *)
theory Rgpot_CuH2
  imports Rgpot_Matrix "HOL-Library.Multiset"
begin

text \<open>
  The copper-hydrogen potential of \<^verbatim>\<open>CppCore/rgpot/CuH2/CuH2Pot.cc\<close>: it validates the species and
  hands the configuration to the Fortran routine \<^verbatim>\<open>c_force_eam\<close>, which is not part of the
  repository and is an argument here.
\<close>

section \<open>Definitions\<close>

text \<open>
  What \<^verbatim>\<open>c_force_eam\<close> does with the counts, the dimension, the box diagonal, the positions
  and the arrays it writes: the forces and the energy.
\<close>

type_synonym 'r eam = "int list \<Rightarrow> int \<Rightarrow> 'r list \<Rightarrow> 'r list \<Rightarrow> 'r list \<times> 'r \<Rightarrow> ('r list \<times> 'r) cpp"

definition no_copper_or_hydrogen :: string where
  "no_copper_or_hydrogen = ''The system does not have Copper or Hydrogen, but the CuH2 potential was requested''"

definition other_atom_types :: string where
  "other_atom_types = ''The system has other atom types, but the CuH2 potential was requested''"

definition fits_int :: "int \<Rightarrow> bool" where
  "fits_int k \<longleftrightarrow> - (2 ^ 31) \<le> k \<and> k < 2 ^ 31"

definition CuH2Pot_forceImpl :: "'r eam \<Rightarrow> 'r ForceInput \<Rightarrow> 'r ForceOut \<Rightarrow> 'r ForceOut cpp" where
  "CuH2Pot_forceImpl c_force_eam inp out =
     (let N = nAtoms inp;
          ndim = 3 * sint (ucast N :: i32)
      in if \<not> fits_int ndim then Undef else
      cpp_bind (loop_over (map (word_of_nat :: nat \<Rightarrow> usize) [0..<unat N])
          (\<lambda>i natmc. cpp_bind (peek (in_atmnrs inp) (unat i)) (\<lambda>z. Returned (add_mset z natmc))) {#}) (\<lambda>natmc.
      if count natmc 29 \<le> 0 \<or> count natmc 1 \<le> 0 then Thrown no_copper_or_hydrogen
      else
        let cu = sint (word_of_nat (count natmc 29) :: i32);
            h = sint (word_of_nat (count natmc 1) :: i32)
        in if \<not> fits_int (cu + h) then Undef
           else if (word_of_int (cu + h) :: usize) \<noteq> N then Thrown other_atom_types
           else
             cpp_bind (peek (in_box inp) 0) (\<lambda>b0. cpp_bind (peek (in_box inp) 4) (\<lambda>b4.
             cpp_bind (peek (in_box inp) 8) (\<lambda>b8.
             cpp_bind (c_force_eam [cu, h] ndim [b0, b4, b8] (in_pos inp) (out_F out, out_energy out)) (\<lambda>FU.
             Returned (out\<lparr>out_F := fst FU, out_energy := snd FU\<rparr>)))))))"

section \<open>The validation\<close>

lemma count_species_loop:
  assumes "length zs < 2 ^ 64"
  shows "loop_over (map (word_of_nat :: nat \<Rightarrow> usize) [0..<length zs])
     (\<lambda>i natmc. cpp_bind (peek zs (unat i)) (\<lambda>z. Returned (add_mset z natmc))) {#} = Returned (mset zs)"
proof -
  let ?is = "map (word_of_nat :: nat \<Rightarrow> usize) [0..<length zs]"
  have "loop_over ?is (\<lambda>i natmc. cpp_bind (peek zs (unat i)) (\<lambda>z. Returned (add_mset z natmc))) {#} =
      Returned (fold (\<lambda>i. add_mset (zs ! unat i)) ?is {#}) \<and> True"
    using assms by (intro loop_over_fold) auto
  moreover have "fold (\<lambda>i. add_mset (zs ! unat i)) (map (word_of_nat :: nat \<Rightarrow> usize) is) M = mset (map ((!) zs) is) + M"
    if "\<And>i. i \<in> set is \<Longrightarrow> i < 2 ^ 64" for "is" M
    using that by (induction "is" arbitrary: M) simp_all
  from this [of "[0..<length zs]" "{#}"] assms
  have "fold (\<lambda>i. add_mset (zs ! unat i)) ?is {#} = mset zs" by simp
  ultimately show ?thesis by simp
qed

lemma count_two_species:
  assumes "a \<noteq> b"
  shows "count (mset zs) a + count (mset zs) b \<le> length zs"
    and "count (mset zs) a + count (mset zs) b = length zs \<longleftrightarrow> set zs \<subseteq> {a, b}"
  using assms by (induction zs) (auto simp: Suc_le_eq le_Suc_eq)

lemma sint_i32_small: "k < 2 ^ 31 \<Longrightarrow> sint (word_of_nat k :: i32) = int k"
  by (simp add: signed_of_nat signed_take_bit_int_eq_self)

lemma cuh2_cases:
  assumes n: "unat (nAtoms inp) = n" "n \<le> 715827882" and len: "length (in_atmnrs inp) = n" "length (in_box inp) = 9"
  shows "CuH2Pot_forceImpl eam inp out =
     (let zs = in_atmnrs inp; bx = in_box inp in
      if 29 \<notin> set zs \<or> 1 \<notin> set zs then Thrown no_copper_or_hydrogen
      else if \<not> set zs \<subseteq> {29, 1} then Thrown other_atom_types
      else cpp_bind (eam [int (count (mset zs) 29), int (count (mset zs) 1)] (3 * int n) [bx ! 0, bx ! 4, bx ! 8]
             (in_pos inp) (out_F out, out_energy out))
           (\<lambda>FU. Returned (out\<lparr>out_F := fst FU, out_energy := snd FU\<rparr>)))"
proof -
  let ?zs = "in_atmnrs inp"
  define cu h where "cu = count (mset ?zs) 29" and "h = count (mset ?zs) 1"
  have "(29 :: i32) \<noteq> 1" by simp
  from count_two_species [OF this, of ?zs] len have le: "cu + h \<le> n" and eq: "cu + h = n \<longleftrightarrow> set ?zs \<subseteq> {29, 1}"
    by (simp_all add: cu_def h_def)
  have N: "nAtoms inp = word_of_nat n" by (simp flip: n(1))
  have "(ucast (word_of_nat n :: usize) :: i32) = word_of_nat n"
    using n(2) by (simp add: unsigned_of_nat take_bit_nat_eq_self)
  then have nd: "sint (ucast (nAtoms inp) :: i32) = int n" using n(2) by (simp add: N sint_i32_small)
  have c: "sint (word_of_nat cu :: i32) = int cu" "sint (word_of_nat h :: i32) = int h"
    using le n(2) by (intro sint_i32_small; simp)+
  have fits: "fits_int (3 * int n)" "fits_int (int cu + int h)" using le n(2) by (auto simp: fits_int_def)
  have ne: "(word_of_int (int cu + int h) :: usize) \<noteq> nAtoms inp \<longleftrightarrow> \<not> set ?zs \<subseteq> {29, 1}"
  proof -
    have "(word_of_int (int cu + int h) :: usize) = word_of_nat (cu + h)" by simp
    moreover have "unat (word_of_nat (cu + h) :: usize) = cu + h" using le n(2) by (intro unat_of_nat_64) simp
    ultimately have "(word_of_int (int cu + int h) :: usize) = nAtoms inp \<longleftrightarrow> cu + h = n"
      using n(1) N by metis
    with eq show ?thesis by blast
  qed
  have "count (mset ?zs) 29 \<le> 0 \<or> count (mset ?zs) 1 \<le> 0 \<longleftrightarrow> 29 \<notin> set ?zs \<or> 1 \<notin> set ?zs"
    by (simp add: count_eq_zero_iff)
  moreover have "loop_over (map (word_of_nat :: nat \<Rightarrow> usize) [0..<unat (nAtoms inp)])
     (\<lambda>i natmc. cpp_bind (peek ?zs (unat i)) (\<lambda>z. Returned (add_mset z natmc))) {#} = Returned (mset ?zs)"
    using count_species_loop [of ?zs] len n by simp
  ultimately show ?thesis using fits len(2)
    unfolding CuH2Pot_forceImpl_def Let_def nd by (simp only: c ne cpp_bind.simps flip: cu_def h_def) simp
qed

text \<open>
  What the routine is called with for a configuration, when the arrays it writes hold zeros, as
  every caller in the repository initialises them, and the forces and the energy it leaves there.
\<close>

definition eam_call :: "f64 eam \<Rightarrow> f64 list \<Rightarrow> i32 list \<Rightarrow> f64 list \<Rightarrow> (f64 list \<times> f64) cpp" where
  "eam_call eam xs zs bs = eam [int (count (mset zs) 29), int (count (mset zs) 1)] (3 * int (length zs))
     [bs ! 0, bs ! 4, bs ! 8] xs (replicate (length xs) 0, 0)"

definition eam_forces :: "f64 eam \<Rightarrow> f64 list \<Rightarrow> i32 list \<Rightarrow> f64 list \<Rightarrow> f64 list" where
  "eam_forces eam xs zs bs = (case eam_call eam xs zs bs of Returned (F, U) \<Rightarrow> F | _ \<Rightarrow> [])"

definition eam_energy :: "f64 eam \<Rightarrow> f64 list \<Rightarrow> i32 list \<Rightarrow> f64 list \<Rightarrow> f64" where
  "eam_energy eam xs zs bs = (case eam_call eam xs zs bs of Returned (F, U) \<Rightarrow> U | _ \<Rightarrow> 0)"

text \<open>
  The configurations the potential is made for: copper and hydrogen, no more atoms than an \<^verbatim>\<open>int\<close>
  counts coordinates of, and the routine comes back and has not changed the size of its array.
\<close>

definition cuh2_good :: "f64 eam \<Rightarrow> f64 list \<Rightarrow> i32 list \<Rightarrow> f64 list \<Rightarrow> bool" where
  "cuh2_good eam xs zs bs \<longleftrightarrow> set zs = {29, 1} \<and> length zs \<le> 715827882 \<and>
     (case eam_call eam xs zs bs of Returned (F, U) \<Rightarrow> length F = length xs | _ \<Rightarrow> False)"

lemma cuh2_goodD: "cuh2_good eam xs zs bs \<Longrightarrow> eam_call eam xs zs bs = Returned (eam_forces eam xs zs bs, eam_energy eam xs zs bs)"
  by (auto simp: cuh2_good_def eam_forces_def eam_energy_def split: cpp.splits prod.splits)

lemma cuh2_run:
  assumes "length xs = 3 * unat n" "length zs = unat n" "length bs = 9" "unat n \<le> 715827882"
  shows "CuH2Pot_forceImpl eam \<lparr>nAtoms = n, in_pos = xs, in_atmnrs = zs, in_box = bs\<rparr>
      \<lparr>out_F = replicate (3 * unat n) 0, out_energy = 0, out_variance = 0\<rparr> =
    (if 29 \<notin> set zs \<or> 1 \<notin> set zs then Thrown no_copper_or_hydrogen
     else if \<not> set zs \<subseteq> {29, 1} then Thrown other_atom_types
     else cpp_bind (eam_call eam xs zs bs) (\<lambda>FU. Returned \<lparr>out_F = fst FU, out_energy = snd FU, out_variance = 0\<rparr>))"
  using assms by (subst cuh2_cases [of _ "unat n"]) (simp_all add: eam_call_def)

lemma cuh2_refuses:
  fixes xs bs :: "f64 list"
  assumes "length xs = 3 * unat n" "length zs = unat n" "length bs = 9" "unat n \<le> 715827882" "set zs \<noteq> {29, 1}"
  shows "\<exists>m. CuH2Pot_forceImpl eam \<lparr>nAtoms = n, in_pos = xs, in_atmnrs = zs, in_box = bs\<rparr>
      \<lparr>out_F = replicate (3 * unat n) 0, out_energy = 0, out_variance = 0\<rparr> = Thrown m"
proof -
  have "29 \<notin> set zs \<or> 1 \<notin> set zs \<or> \<not> set zs \<subseteq> {29, 1}" using assms(5) by auto
  with cuh2_run [OF assms(1-4), of eam] show ?thesis by (cases "29 \<notin> set zs \<or> 1 \<notin> set zs") simp_all
qed

text \<open>
  C31: The copper-hydrogen potential validates its input.  For up to \<open>715827882\<close> atoms, a system
  without copper or without hydrogen and a system with any other element are refused with
  their messages, before the Fortran routine runs; every other system reaches the routine,
  with the numbers of copper and hydrogen atoms, three times the number of atoms and the
  diagonal of the box, and its forces and energy are the result.
\<close>

theorem cuh2_validates:
  assumes n: "unat (nAtoms inp) = n" "n \<le> 715827882" and len: "length (in_atmnrs inp) = n" "length (in_box inp) = 9"
  shows "CuH2Pot_forceImpl eam inp out =
     (let zs = in_atmnrs inp; bx = in_box inp in
      if 29 \<notin> set zs \<or> 1 \<notin> set zs then Thrown no_copper_or_hydrogen
      else if \<not> set zs \<subseteq> {29, 1} then Thrown other_atom_types
      else cpp_bind (eam [int (count (mset zs) 29), int (count (mset zs) 1)] (3 * int n) [bx ! 0, bx ! 4, bx ! 8]
             (in_pos inp) (out_F out, out_energy out))
           (\<lambda>FU. Returned (out\<lparr>out_F := fst FU, out_energy := snd FU\<rparr>)))"
  using assms by (rule cuh2_cases)

theorem cuh2_validates_witness:
  "CuH2Pot_forceImpl (\<lambda>natms ndim box R FU. Returned (R, 7)) \<lparr>nAtoms = 2, in_pos = [0, 0, 0, 3, 4, 5 :: int],
       in_atmnrs = [29, 1], in_box = [10, 0, 0, 0, 10, 0, 0, 0, 10]\<rparr>
     \<lparr>out_F = [], out_energy = 0, out_variance = 0\<rparr> =
     Returned \<lparr>out_F = [0, 0, 0, 3, 4, 5], out_energy = 7, out_variance = 0\<rparr>"
  by (subst cuh2_validates [of _ 2]) simp_all

end
