(* ===== verification/Rgpot_Cpp.thy ===== *)
theory Rgpot_Cpp
  imports Rgpot_Client Rgpot_LJ Rgpot_CuH2
begin

text \<open>
  The C++ interface of \<^verbatim>\<open>include/rgpot/{errors,types,potential,rpc_client}.hpp\<close>: classes that own the
  handles, inputs and results of the C functions of the core, report failures as exceptions,
  and connect the legacy potentials through a trampoline.
\<close>

section \<open>Definitions\<close>

text \<open>
  A method returns a value or throws an \<^verbatim>\<open>rgpot::Error\<close> with a message (\<open>Inl\<close>).
\<close>

type_synonym 'a throws = "(string + 'a) comp"

definition status_prefix :: "rgpot_status_t \<Rightarrow> string" where
  "status_prefix s = (case s of
      RGPOT_INVALID_PARAMETER \<Rightarrow> ''invalid parameter: ''
    | RGPOT_RPC_ERROR \<Rightarrow> ''RPC error: ''
    | RGPOT_BUFFER_SIZE_ERROR \<Rightarrow> ''buffer size error: ''
    | _ \<Rightarrow> ''internal error: '')"

definition check_status :: "rgpot_status_t \<Rightarrow> unit throws" where
  "check_status status =
     (if status = RGPOT_SUCCESS then ret (Inr ())
      else bnd rgpot_last_error (\<lambda>msg.
           bnd (if msg \<noteq> null then load_cstr msg else ret ''unknown error'') (\<lambda>error_msg.
           ret (Inl (status_prefix status @ error_msg)))))"

subsection \<open>InputSpec\<close>

text \<open>The C struct inside the object is a block, since the core is given its address.\<close>

record InputSpec =
  spec_n_atoms :: usize
  spec_input :: ptr

definition InputSpec_ctor :: "'x env_scheme \<Rightarrow> usize \<Rightarrow> ptr \<Rightarrow> ptr \<Rightarrow> ptr \<Rightarrow> InputSpec comp" where
  "InputSpec_ctor E n pos atmnrs bx =
     bnd (rgpot_force_input_create E n pos atmnrs bx) (\<lambda>i.
     bnd (alloc (Force_input i)) (\<lambda>q.
     ret \<lparr>spec_n_atoms = n, spec_input = q\<rparr>))"

text \<open>From a vector of \<open>len\<close> coordinates.\<close>

definition InputSpec_of_vectors :: "'x env_scheme \<Rightarrow> ptr \<Rightarrow> usize \<Rightarrow> ptr \<Rightarrow> ptr \<Rightarrow> InputSpec comp" where
  "InputSpec_of_vectors E pos_vec len atmnrs bx =
     bnd (rgpot_force_input_create E (len div 3) pos_vec atmnrs bx) (\<lambda>i.
     bnd (alloc (Force_input i)) (\<lambda>q.
     ret \<lparr>spec_n_atoms = len div 3, spec_input = q\<rparr>))"

text \<open>The end of the lifetime of an object is the end of its storage.\<close>

definition InputSpec_dtor :: "'x env_scheme \<Rightarrow> ptr \<Rightarrow> unit comp" where
  "InputSpec_dtor E self = bnd (rgpot_force_input_free E self) (\<lambda>_. dealloc self)"

definition InputSpec_move :: "InputSpec \<Rightarrow> InputSpec comp" where
  "InputSpec_move other =
     bnd (load_input (spec_input other)) (\<lambda>i.
     bnd (alloc (Force_input i)) (\<lambda>q.
     bnd (store_input (spec_input other) (i\<lparr>positions := null, atomic_numbers := null, box_matrix := null\<rparr>)) (\<lambda>_.
     ret \<lparr>spec_n_atoms = spec_n_atoms other, spec_input = q\<rparr>)))"

definition InputSpec_move_assign :: "'x env_scheme \<Rightarrow> InputSpec \<Rightarrow> InputSpec \<Rightarrow> InputSpec comp" where
  "InputSpec_move_assign E self other =
     (if spec_input self \<noteq> spec_input other
      then bnd (rgpot_force_input_free E (spec_input self)) (\<lambda>_.
           bnd (load_input (spec_input other)) (\<lambda>i.
           bnd (store_input (spec_input self) i) (\<lambda>_.
           bnd (store_input (spec_input other) (i\<lparr>positions := null, atomic_numbers := null, box_matrix := null\<rparr>)) (\<lambda>_.
           ret (self\<lparr>spec_n_atoms := spec_n_atoms other\<rparr>)))))
      else ret self)"

subsection \<open>CalcResult\<close>

definition CalcResult_ctor :: "ptr comp" where
  "CalcResult_ctor = bnd rgpot_force_out_create (\<lambda>o'. alloc (Force_out o'))"

definition release_forces :: "'x env_scheme \<Rightarrow> ptr \<Rightarrow> unit comp" where
  "release_forces E self =
     bnd (load_out self) (\<lambda>o'. if forces o' \<noteq> null then rgpot_tensor_free E (forces o') else ret ())"

definition CalcResult_dtor :: "'x env_scheme \<Rightarrow> ptr \<Rightarrow> unit comp" where
  "CalcResult_dtor E self = bnd (release_forces E self) (\<lambda>_. dealloc self)"

definition CalcResult_move :: "ptr \<Rightarrow> ptr comp" where
  "CalcResult_move other =
     bnd (load_out other) (\<lambda>o'.
     bnd (alloc (Force_out o')) (\<lambda>r.
     bnd (store_out other (o'\<lparr>forces := null\<rparr>)) (\<lambda>_. ret r)))"

definition CalcResult_move_assign :: "'x env_scheme \<Rightarrow> ptr \<Rightarrow> ptr \<Rightarrow> unit comp" where
  "CalcResult_move_assign E self other =
     (if self \<noteq> other
      then bnd (release_forces E self) (\<lambda>_.
           bnd (load_out other) (\<lambda>o'.
           bnd (store_out self o') (\<lambda>_.
           store_out other (o'\<lparr>forces := null\<rparr>))))
      else ret ())"

definition CalcResult_energy :: "ptr \<Rightarrow> f64 comp" where
  "CalcResult_energy self = bnd (load_out self) (\<lambda>o'. ret (energy o'))"

definition CalcResult_variance :: "ptr \<Rightarrow> f64 comp" where
  "CalcResult_variance self = bnd (load_out self) (\<lambda>o'. ret (variance o'))"

definition has_forces :: "ptr \<Rightarrow> bool comp" where
  "has_forces self = bnd (load_out self) (\<lambda>o'. ret (forces o' \<noteq> null))"

definition forces_data :: "ptr \<Rightarrow> (ptr \<times> usize) comp" where
  "forces_data self =
     bnd (load_out self) (\<lambda>o'.
     if forces o' = null then ret (null, 0)
     else bnd (load_managed (forces o')) (\<lambda>m.
          let tensor = dl_tensor m in
          bnd (if sint (t_ndim tensor) \<le> 0 then ret [] else i64_slice (t_shape tensor) (nat (sint (t_ndim tensor)))) (\<lambda>shape.
          ret (t_data tensor, fold (\<lambda>x n. n * x) shape 1))))"

definition forces_vec :: "ptr \<Rightarrow> f64 list comp" where
  "forces_vec self =
     bnd (forces_data self) (\<lambda>(dat, n).
     if dat = null \<or> n = 0 then ret [] else f64_slice dat (unat n))"

subsection \<open>PotentialHandle and RpcClient\<close>

text \<open>
  The object is its pointer \<^verbatim>\<open>handle_\<close>.  A move leaves a null pointer behind: the pair is the
  new object and the old one.
\<close>

definition PotentialHandle_dtor :: "'x env_scheme \<Rightarrow> ptr \<Rightarrow> unit comp" where
  "PotentialHandle_dtor E handle = (if handle \<noteq> null then rgpot_potential_free E handle else ret ())"

definition PotentialHandle_move :: "ptr \<Rightarrow> ptr \<times> ptr" where
  "PotentialHandle_move other = (other, null)"

text \<open>\<open>same\<close>: both sides are the same object.\<close>

definition PotentialHandle_move_assign :: "'x env_scheme \<Rightarrow> bool \<Rightarrow> ptr \<Rightarrow> ptr \<Rightarrow> (ptr \<times> ptr) comp" where
  "PotentialHandle_move_assign E same self other =
     (if \<not> same
      then bnd (if self \<noteq> null then rgpot_potential_free E self else ret ()) (\<lambda>_. ret (other, null))
      else ret (self, other))"

text \<open>
  When the status is a failure, the exception leaves the function and destroys the local
  result.
\<close>

definition PotentialHandle_calculate :: "'x env_scheme \<Rightarrow> ptr \<Rightarrow> InputSpec \<Rightarrow> ptr throws" where
  "PotentialHandle_calculate E handle input =
     bnd CalcResult_ctor (\<lambda>result.
     bnd (rgpot_potential_calculate E handle (spec_input input) result) (\<lambda>status.
     bnd (check_status status) (\<lambda>r. case r of
         Inl e \<Rightarrow> bnd (CalcResult_dtor E result) (\<lambda>_. ret (Inl e))
       | Inr _ \<Rightarrow> ret (Inr result))))"

definition from_callback :: "fnptr \<Rightarrow> ptr \<Rightarrow> fnptr option \<Rightarrow> ptr comp" where
  "from_callback cb ud ff = rgpot_potential_new cb ud ff"

definition from_impl :: "fnptr \<Rightarrow> ptr \<Rightarrow> ptr comp" where
  "from_impl trampoline impl = rgpot_potential_new trampoline impl None"

definition RpcClient_ctor :: "rpc_lib \<Rightarrow> ptr \<Rightarrow> u16 \<Rightarrow> ptr throws" where
  "RpcClient_ctor R host port =
     bnd (rgpot_rpc_client_new R host port) (\<lambda>handle.
     if handle = null
     then bnd rgpot_last_error (\<lambda>msg.
          bnd (if msg \<noteq> null then load_cstr msg else ret ''failed to create RPC client'') (\<lambda>m. ret (Inl m)))
     else ret (Inr handle))"

definition RpcClient_dtor :: "rpc_lib \<Rightarrow> ptr \<Rightarrow> unit comp" where
  "RpcClient_dtor R handle = (if handle \<noteq> null then rgpot_rpc_client_free R handle else ret ())"

definition RpcClient_move :: "ptr \<Rightarrow> ptr \<times> ptr" where
  "RpcClient_move other = (other, null)"

definition RpcClient_move_assign :: "rpc_lib \<Rightarrow> bool \<Rightarrow> ptr \<Rightarrow> ptr \<Rightarrow> (ptr \<times> ptr) comp" where
  "RpcClient_move_assign R same self other =
     (if \<not> same
      then bnd (if self \<noteq> null then rgpot_rpc_client_free R self else ret ()) (\<lambda>_. ret (other, null))
      else ret (self, other))"

definition cpp_rpc_calculate :: "'x env_scheme \<Rightarrow> rpc_lib \<Rightarrow> ptr \<Rightarrow> InputSpec \<Rightarrow> ptr throws" where
  "cpp_rpc_calculate E R handle input =
     bnd CalcResult_ctor (\<lambda>result.
     bnd (rgpot_rpc_calculate E R handle (spec_input input) result) (\<lambda>status.
     bnd (check_status status) (\<lambda>r. case r of
         Inl e \<Rightarrow> bnd (CalcResult_dtor E result) (\<lambda>_. ret (Inl e))
       | Inr _ \<Rightarrow> ret (Inr result))))"

subsection \<open>The trampoline\<close>

text \<open>
  A pointer to an array as the legacy struct holds it: where there is no array of that type,
  every access is out of range.
\<close>

definition f64_array :: "ptr \<Rightarrow> world \<Rightarrow> f64 list" where
  "f64_array p w = (case heap w p of Some (F64s xs) \<Rightarrow> xs | _ \<Rightarrow> [])"

definition i32_array :: "ptr \<Rightarrow> world \<Rightarrow> i32 list" where
  "i32_array p w = (case heap w p of Some (I32s xs) \<Rightarrow> xs | _ \<Rightarrow> [])"

definition tensor_data :: "ptr \<Rightarrow> ptr comp" where
  "tensor_data t = (if t \<noteq> null then bnd (load_managed t) (\<lambda>m. ret (t_data (dl_tensor m))) else ret null)"

text \<open>
  The storage of a \<^verbatim>\<open>std::vector\<close>, by its \<^verbatim>\<open>data()\<close>: an empty vector has none, and the
  implementations in use return a null pointer for it.
\<close>

definition vector_new :: "f64 list \<Rightarrow> ptr comp" where
  "vector_new xs = (if xs = [] then ret null else alloc (F64s xs))"

definition vector_write :: "ptr \<Rightarrow> f64 list \<Rightarrow> unit comp" where
  "vector_write vec xs w = Done () (if vec = null then w else set_block vec (F64s xs) w)"

definition vector_dtor :: "ptr \<Rightarrow> unit comp" where
  "vector_dtor vec = (if vec = null then ret () else dealloc vec)"

text \<open>
  \<^verbatim>\<open>std::vector\<close> throws when it is asked for more elements than its \<^verbatim>\<open>max_size\<close>; every
  exception becomes \<^verbatim>\<open>RGPOT_INTERNAL_ERROR\<close>.  The vector is released on both exits.
\<close>

definition trampoline_callback ::
    "'x env_scheme \<Rightarrow> (ptr \<Rightarrow> f64 ForceInput \<Rightarrow> f64 ForceOut \<Rightarrow> f64 ForceOut cpp) \<Rightarrow> ptr \<Rightarrow> ptr \<Rightarrow> ptr
      \<Rightarrow> rgpot_status_t comp" where
  "trampoline_callback E forceImpl ud input output =
     bnd (load_input input) (\<lambda>inp.
     if positions inp = null then ret RGPOT_INVALID_PARAMETER
     else bnd (load_managed (positions inp)) (\<lambda>m.
       let pos_tensor = dl_tensor m in
       bnd (i64_slice (t_shape pos_tensor) 1) (\<lambda>shape.
       let natoms = shape ! 0 in
       bnd (tensor_data (atomic_numbers inp)) (\<lambda>atmnrs.
       bnd (tensor_data (box_matrix inp)) (\<lambda>bx.
       if 2 ^ 60 \<le> unat (natoms * 3) then ret RGPOT_INTERNAL_ERROR
       else bnd (vector_new (replicate (unat (natoms * 3)) 0)) (\<lambda>vec w.
         case forceImpl ud
             \<lparr>nAtoms = natoms, in_pos = f64_array (t_data pos_tensor) w,
              in_atmnrs = i32_array atmnrs w, in_box = f64_array bx w\<rparr>
             \<lparr>out_F = replicate (unat (natoms * 3)) 0, out_energy = 0, out_variance = 0\<rparr> of
           Undef \<Rightarrow> Undefined
         | Thrown e \<Rightarrow> bnd (vector_dtor vec) (\<lambda>_. ret RGPOT_INTERNAL_ERROR) w
         | Returned fo \<Rightarrow>
             bnd (vector_write vec (out_F fo)) (\<lambda>_.
             bnd (load_out output) (\<lambda>o'.
             bnd (store_out output (o'\<lparr>energy := out_energy fo, variance := out_variance fo\<rparr>)) (\<lambda>_.
             bnd (rgpot_tensor_owned_cpu_f64_2d E vec natoms 3) (\<lambda>t.
             bnd (load_out output) (\<lambda>o'.
             bnd (store_out output (o'\<lparr>forces := t\<rparr>)) (\<lambda>_.
             bnd (vector_dtor vec) (\<lambda>_.
             ret RGPOT_SUCCESS))))))) w))))))"

section \<open>Exceptions\<close>

lemma last_error_cell_keeps:
  assumes "world_ok w" "last_error_cell w = Done p w'"
  shows "heap w q = Some b \<Longrightarrow> heap w' q = Some b" "core_mem w' = core_mem w"
proof -
  show "heap w' q = Some b" if "heap w q = Some b"
    using assms that world_ok_less [OF assms(1) that]
    by (auto simp: last_error_cell_def split: option.splits)
  show "core_mem w' = core_mem w"
  proof (cases "last_error_slot w (thread w)")
    case None
    then have w': "w' = (push (Cstr []) w)\<lparr>last_error_slot := (last_error_slot w)(thread w \<mapsto> brk w)\<rparr>"
      using assms(2) by (auto simp: last_error_cell_def)
    have "ran (last_error_slot w') = insert (brk w) (ran (last_error_slot w))"
      using None by (simp add: w' ran_map_upd)
    with world_ok_fresh [OF assms(1) order_refl] show ?thesis
      by (auto simp: core_mem_def w' restrict_map_def fun_eq_iff)
  qed (use assms(2) in \<open>auto simp: last_error_cell_def\<close>)
qed

lemma last_error_never_null: "world_ok w \<Longrightarrow> last_error_cell w = Done p w' \<Longrightarrow> p \<noteq> null"
  using last_error_cell_reads [of w p w'] world_ok_less [of w' p] by fastforce

lemma check_status_throws:
  assumes ok: "world_ok w" and "st \<noteq> RGPOT_SUCCESS"
  shows "\<exists>w'. check_status st w = Done (Inl (status_prefix st @ messages w (thread w))) w' \<and> world_ok w' \<and>
     messages w' = messages w \<and> core_mem w' = core_mem w \<and> thread w' = thread w \<and>
     (\<forall>q b. heap w q = Some b \<longrightarrow> heap w' q = Some b)"
proof -
  obtain p w' where cell: "last_error_cell w = Done p w'" using last_error_cell_total by blast
  note r = last_error_cell_reads [OF ok cell]
  have "check_status st w = Done (Inl (status_prefix st @ messages w (thread w))) w'"
    using assms(2) cell r last_error_never_null [OF ok cell]
    by (simp add: check_status_def rgpot_last_error_def exec)
  with r last_error_cell_keeps [OF ok cell] show ?thesis by blast
qed

lemma set_block_push: "set_block (brk w) b' (push b w) = push b' w"
  by (simp add: set_block_def push_def)

lemma messages_brk [simp]: "messages (w\<lparr>brk := m\<rparr>) = messages w"
  by (simp add: messages_def fun_eq_iff split: option.split)

lemma fresh_block_drop:
  assumes ok: "world_ok w"
  shows "core_mem (push b w) |` (- {brk w}) = core_mem w" "messages (push b w) = messages w"
proof -
  have "last_error_slot w t \<noteq> Some (brk w)" for t
    using world_ok_slot [OF ok] world_ok_fresh [OF ok order_refl] by fastforce
  then show "core_mem (push b w) |` (- {brk w}) = core_mem w" "messages (push b w) = messages w"
    using world_ok_fresh [OF ok order_refl]
    by (auto simp: core_mem_def messages_def restrict_map_def fun_eq_iff ran_def split: option.split)
qed

text \<open>The pattern of the two \<^verbatim>\<open>calculate\<close> methods around a function of the core.\<close>

definition checked_call :: "'x env_scheme \<Rightarrow> (ptr \<Rightarrow> rgpot_status_t comp) \<Rightarrow> ptr throws" where
  "checked_call E call =
     bnd CalcResult_ctor (\<lambda>result.
     bnd (call result) (\<lambda>status.
     bnd (check_status status) (\<lambda>r. case r of
         Inl e \<Rightarrow> bnd (CalcResult_dtor E result) (\<lambda>_. ret (Inl e))
       | Inr _ \<Rightarrow> ret (Inr result))))"

lemma checked_calls:
  "PotentialHandle_calculate E h inp = checked_call E (rgpot_potential_calculate E h (spec_input inp))"
  "cpp_rpc_calculate E R cl inp = checked_call E (rgpot_rpc_calculate E R cl (spec_input inp))"
  by (simp_all add: PotentialHandle_calculate_def cpp_rpc_calculate_def checked_call_def)

text \<open>A failing call, after which the result holds no forces.\<close>

lemma call_fails:
  assumes ok: "world_ok w" and run: "call (brk w) (push (out_struct null 0 0) w) = Done st w2"
    and st: "st \<noteq> RGPOT_SUCCESS" and ok2: "world_ok w2" and out: "heap w2 (brk w) = Some (out_struct null e v)"
  shows "\<exists>w'. checked_call E call w = Done (Inl (status_prefix st @ messages w2 (thread w2))) w' \<and>
     core_mem w' = core_mem w2 |` (- {brk w}) \<and> messages w' = messages w2 \<and> world_ok w'"
proof -
  obtain w3 where c: "check_status st w2 = Done (Inl (status_prefix st @ messages w2 (thread w2))) w3" "world_ok w3"
      "messages w3 = messages w2" "core_mem w3 = core_mem w2"
    and keep: "\<And>q b. heap w2 q = Some b \<Longrightarrow> heap w3 q = Some b"
    using check_status_throws [OF ok2 st] by blast
  have out3: "heap w3 (brk w) = Some (out_struct null e v)" by (rule keep [OF out])
  let ?w = "drop_blocks {brk w} w3"
  have "checked_call E call w = Done (Inl (status_prefix st @ messages w2 (thread w2))) ?w"
    using run c out3 by (simp add: checked_call_def CalcResult_ctor_def rgpot_force_out_create_def
        CalcResult_dtor_def release_forces_def exec)
  moreover have "world_ok ?w" using c(2) by (rule world_ok_drop) (use out3 in simp)
  moreover have "core_mem ?w = core_mem w3 |` (- {brk w})"
    by (simp add: core_mem_def restrict_map_def fun_eq_iff)
  moreover have "messages ?w = messages w3"
    using out3 world_ok_slot [OF c(2)] by (auto simp: messages_def fun_eq_iff restrict_map_def split: option.splits)
  ultimately show ?thesis using c by auto
qed

text \<open>
  A handle that was moved from.  Calling \<^verbatim>\<open>calculate\<close> on it throws an error that says the handle
  is null; nothing is leaked, and memory is as before.
\<close>

theorem moved_handle_throws:
  assumes ok: "world_ok w"
  shows "\<exists>w'. PotentialHandle_calculate E (snd (PotentialHandle_move h)) inp w =
     Done (Inl ''invalid parameter: rgpot_potential_calculate: pot is NULL'') w' \<and> core_mem w' = core_mem w \<and>
     PotentialHandle_dtor E (snd (PotentialHandle_move h)) w' = Done () w'"
proof -
  let ?msg = "''rgpot_potential_calculate: pot is NULL''" and ?w1 = "push (out_struct null 0 0) w"
  have ok1: "world_ok ?w1" using ok by (rule world_ok_push)
  have run: "rgpot_potential_calculate E null (spec_input inp) (brk w) ?w1 =
      Done RGPOT_INVALID_PARAMETER (record_error ?msg ?w1)"
    by (simp add: rgpot_potential_calculate_def catch_unwind_Done err.fail_with [OF ok1] extern_C_Done)
  have out: "heap (record_error ?msg ?w1) (brk w) = Some (out_struct null 0 0)"
    by (rule record_error_keeps [OF ok1]) simp_all
  have nf: "nul_free ?msg" by (simp add: nul_free_def)
  have msg: "messages (record_error ?msg ?w1) (thread (record_error ?msg ?w1)) = ?msg"
    using err.fail_text [OF ok1, of ?msg] nf by (simp add: stored_message_def error_simps ok1)
  have "core_mem (record_error ?msg ?w1) |` (- {brk w}) = core_mem w"
    using err.rest_after [OF ok1] fresh_block_drop(1) [OF ok] by simp
  with call_fails [where call = "rgpot_potential_calculate E null (spec_input inp)", OF ok run _ err.good_after [OF ok1] out] msg show ?thesis
    by (auto simp: checked_calls PotentialHandle_move_def PotentialHandle_dtor_def status_prefix_def ret_def)
qed

theorem moved_handle_throws_witness:
  "\<exists>w'. PotentialHandle_calculate plain_env (snd (PotentialHandle_move 3)) \<lparr>spec_n_atoms = 0, spec_input = 1\<rparr> boot_world =
     Done (Inl ''invalid parameter: rgpot_potential_calculate: pot is NULL'') w'"
  using moved_handle_throws [OF boot_world_ok] by blast

section \<open>Legacy potentials behind the trampoline\<close>

text \<open>
  A legacy implementation that returns on the configurations \<open>good\<close>, with the energy, the
  variance and the forces it writes.
\<close>

locale legacy_impl =
  fixes impl :: "f64 ForceInput \<Rightarrow> f64 ForceOut \<Rightarrow> f64 ForceOut cpp"
    and good :: "f64 list \<Rightarrow> i32 list \<Rightarrow> f64 list \<Rightarrow> bool"
    and en :: "f64 list \<Rightarrow> i32 list \<Rightarrow> f64 list \<Rightarrow> f64"
    and va :: "f64 list \<Rightarrow> i32 list \<Rightarrow> f64 list \<Rightarrow> f64"
    and fo :: "f64 list \<Rightarrow> i32 list \<Rightarrow> f64 list \<Rightarrow> f64 list"
  assumes runs: "good xs zs bs \<Longrightarrow> length xs = 3 * unat n \<Longrightarrow> length zs = unat n \<Longrightarrow> length bs = 9 \<Longrightarrow>
      impl \<lparr>nAtoms = n, in_pos = xs, in_atmnrs = zs, in_box = bs\<rparr>
        \<lparr>out_F = replicate (3 * unat n) 0, out_energy = 0, out_variance = 0\<rparr> =
      Returned \<lparr>out_F = fo xs zs bs, out_energy = en xs zs bs, out_variance = va xs zs bs\<rparr>"
    and forces_length: "good xs zs bs \<Longrightarrow> length (fo xs zs bs) = length xs"

lemma grows_scratch:
  assumes ok: "world_ok w" and g: "grows (push (F64s xs) w) w' G"
  shows "grows w (drop_blocks {brk w} w') G"
proof -
  have G: "G \<subseteq> {Suc (brk w)..<brk w'}" "brk w < brk w'" using growsD(4,6) [OF g] by auto
  have keep: "heap w' (brk w) = Some (F64s xs)" by (rule grows_keeps [OF g world_ok_push [OF ok]]) simp
  have h: "heap w' |` (- G) = (heap w)(brk w \<mapsto> F64s xs)" using growsD(5) [OF g] by simp
  have "heap w' |` (- {brk w}) |` (- G) = (heap w' |` (- G)) |` (- {brk w})" by (simp add: Int_commute)
  also have "\<dots> = heap w" using world_ok_fresh [OF ok order_refl] by (simp add: h)
  finally have "heap w' |` (- {brk w}) |` (- G) = heap w" .
  moreover have "world_ok (drop_blocks {brk w} w')" using growsD(1) [OF g] by (rule world_ok_drop) (use keep in simp)
  ultimately show ?thesis using G growsD(2,3) [OF g] by (auto simp: grows_def)
qed

lemma fits_triple: "k < 2 ^ 60 \<Longrightarrow> fits_i64 (int k * 3)"
  by (simp add: fits_i64_def)

lemma tensor_data_rep: "tensor_rep (heap w) t v F \<Longrightarrow> tensor_data t w = Done (buffer v) w"
  using tensor_rep_load [of w t v F] by (auto simp: tensor_data_def bnd_def ret_def)

text \<open>What the trampoline hands to the implementation.\<close>

lemma trampoline_calls:
  assumes ok: "world_ok w" and pin: "heap w pin = Some (Force_input i)"
    and rep: "input_rep (heap w) i n p a b F" and dat: "input_data (heap w) n p a b xs zs bs"
  defines "vec \<equiv> if zs = [] then null else brk w"
    and "w1 \<equiv> \<lambda>ys. if zs = [] then w else push (F64s ys) w"
  shows "trampoline_callback E forceImpl ud pin pout w =
    (case forceImpl ud \<lparr>nAtoms = n, in_pos = xs, in_atmnrs = zs, in_box = bs\<rparr>
        \<lparr>out_F = replicate (3 * unat n) 0, out_energy = 0, out_variance = 0\<rparr> of
       Undef \<Rightarrow> Undefined
     | Thrown e \<Rightarrow> bnd (vector_dtor vec) (\<lambda>_. ret RGPOT_INTERNAL_ERROR) (w1 (replicate (3 * unat n) 0))
     | Returned fo \<Rightarrow>
         bnd (load_out pout) (\<lambda>o'.
         bnd (store_out pout (o'\<lparr>energy := out_energy fo, variance := out_variance fo\<rparr>)) (\<lambda>_.
         bnd (rgpot_tensor_owned_cpu_f64_2d E vec n 3) (\<lambda>t.
         bnd (load_out pout) (\<lambda>o'.
         bnd (store_out pout (o'\<lparr>forces := t\<rparr>)) (\<lambda>_.
         bnd (vector_dtor vec) (\<lambda>_.
         ret RGPOT_SUCCESS)))))) (w1 (out_F fo)))"
proof -
  obtain G1 G2 G3 where
    t1: "tensor_rep (heap w) (positions i) \<lparr>kind = Borrowed, buffer = p, elem = dtype_f64, extents = [n, 3]\<rparr> G1" and
    t2: "tensor_rep (heap w) (atomic_numbers i) \<lparr>kind = Borrowed, buffer = a, elem = dtype_i32, extents = [n]\<rparr> G2" and
    t3: "tensor_rep (heap w) (box_matrix i) \<lparr>kind = Borrowed, buffer = b, elem = dtype_f64, extents = [3, 3]\<rparr> G3"
    using input_rep_positions [OF rep] by blast
  obtain m sp where m: "load_managed (positions i) w = Done m w" "positions i \<noteq> null" "t_data (dl_tensor m) = p"
    "t_shape (dl_tensor m) = sp" "sp \<noteq> null" "heap w sp = Some (I64s [n, 3])"
    using tensor_rep_load [OF t1] by auto
  have sl: "i64_slice sp 1 w = Done [n] w" using m by (simp add: i64_slice_def)
  have len: "unat (n * 3) = 3 * unat n" "3 * unat n < 2 ^ 60"
    using triple_atoms(2) [OF dat] dat by (simp_all add: input_data_def)
  have lt: "p < brk w" "a < brk w" "b < brk w" using dat world_ok_less [OF ok] by (auto simp: input_data_def)
  let ?z = "replicate (3 * unat n) (0 :: f64)"
  have empty: "?z = [] \<longleftrightarrow> zs = []" using dat by (auto simp: input_data_def)
  have arr: "f64_array p (w1 ?z) = xs" "i32_array a (w1 ?z) = zs" "f64_array b (w1 ?z) = bs"
    using dat lt by (simp_all add: f64_array_def i32_array_def input_data_def w1_def)
  have "vector_new ?z w = Done vec (w1 ?z)"
    using empty by (simp add: vector_new_def alloc_def w1_def vec_def ret_def)
  moreover have "vector_write vec ys (w1 ?z) = Done () (w1 ys)" for ys
    using world_ok_brk [OF ok] by (simp add: vector_write_def w1_def vec_def set_block_push)
  ultimately show ?thesis
    using pin m sl len tensor_data_rep [OF t2] tensor_data_rep [OF t3] arr
    by (simp add: trampoline_callback_def Let_def bnd_def [where w = w] bnd_def [where w = "w1 ?z"] load_input_def ret_def
        split: cpp.split)
qed

text \<open>
  The trampoline is undefined when the implementation is, and also when the implementation returns
  for a system without atoms: the vector of forces then has no storage, and the null pointer it
  hands to the core is no slice.
\<close>

abbreviation legacy_input :: "usize \<Rightarrow> f64 list \<Rightarrow> i32 list \<Rightarrow> f64 list \<Rightarrow> f64 ForceInput" where
  "legacy_input n xs zs bs \<equiv> \<lparr>nAtoms = n, in_pos = xs, in_atmnrs = zs, in_box = bs\<rparr>"

abbreviation zeroed_out :: "usize \<Rightarrow> f64 ForceOut" where
  "zeroed_out n \<equiv> \<lparr>out_F = replicate (3 * unat n) 0, out_energy = 0, out_variance = 0\<rparr>"

lemma trampoline_undefined:
  assumes ok: "world_ok w" and pin: "heap w pin = Some (Force_input i)" and pout: "heap w pout = Some (Force_out r)"
    and rep: "input_rep (heap w) i n p a b F" and dat: "input_data (heap w) n p a b xs zs bs"
    and runs: "forceImpl ud (legacy_input n xs zs bs) (zeroed_out n) = Undef \<or>
      zs = [] \<and> forceImpl ud (legacy_input n xs zs bs) (zeroed_out n) = Returned fo"
  shows "trampoline_callback E forceImpl ud pin pout w = Undefined"
proof -
  have "rgpot_tensor_owned_cpu_f64_2d E null 0 3 w' = Undefined" for w'
    by (simp add: rgpot_tensor_owned_cpu_f64_2d_def mul_i64_cases f64_slice_def exec fits_i64_def)
  moreover have "zs = [] \<Longrightarrow> n = 0" using dat by (simp add: input_data_def unat_eq_0)
  ultimately show ?thesis
    using trampoline_calls [OF ok pin rep dat, of E forceImpl ud pout] runs pout
    by (auto simp: bnd_def load_out_def store_out_def)
qed

text \<open>An exception of the implementation.\<close>

lemma trampoline_throws:
  assumes ok: "world_ok w" and pin: "heap w pin = Some (Force_input i)"
    and rep: "input_rep (heap w) i n p a b F" and dat: "input_data (heap w) n p a b xs zs bs"
    and throws: "forceImpl ud (legacy_input n xs zs bs) (zeroed_out n) = Thrown e"
  shows "trampoline_callback E forceImpl ud pin pout w =
     Done RGPOT_INTERNAL_ERROR (w\<lparr>brk := if zs = [] then brk w else Suc (brk w)\<rparr>)"
proof -
  have scratch: "dealloc (brk w) (push (F64s ys) w) = Done () (w\<lparr>brk := Suc (brk w)\<rparr>)" for ys
    using grows_drop [OF grows_push [OF ok, of "F64s ys"]] by (simp add: dealloc_def)
  show ?thesis
    using trampoline_calls [OF ok pin rep dat, of E forceImpl ud pout] throws scratch world_ok_brk [OF ok]
    by (auto simp: vector_dtor_def bnd_def ret_def)
qed

context legacy_impl
begin

lemma trampoline_computes:
  assumes ok: "world_ok w" and pin: "heap w pin = Some (Force_input i)" and pout: "heap w pout = Some (Force_out r)"
    and rep: "input_rep (heap w) i n p a b F" and dat: "input_data (heap w) n p a b xs zs bs" and good: "good xs zs bs"
    and ne: "zs \<noteq> []"
  shows "\<exists>w' t d G. trampoline_callback E (\<lambda>_. impl) ud pin pout w = Done RGPOT_SUCCESS w' \<and>
     grows (set_block pout (out_struct t (en xs zs bs) (va xs zs bs)) w) w' G \<and>
     tensor_rep (heap w') t (forces_view n d) G \<and> heap w' d = Some (F64s (fo xs zs bs))"
proof -
  let ?e = "en xs zs bs" and ?v = "va xs zs bs" and ?fs = "fo xs zs bs" and ?vec = "brk w"
  let ?r1 = "r\<lparr>energy := ?e, variance := ?v\<rparr>"
  let ?w1 = "push (F64s ?fs) w" and ?w2 = "set_block pout (Force_out ?r1) (push (F64s ?fs) w)"
  have pl: "pout < ?vec" "pout \<noteq> null" using world_ok_less [OF ok pout] by auto
  have ok1: "world_ok ?w1" using ok by (rule world_ok_push)
  have out1: "heap ?w1 pout = Some (Force_out r)" using pout pl by simp
  have ok2: "world_ok ?w2" using ok1 out1 by (rule world_ok_set_block) simp
  have call: "impl \<lparr>nAtoms = n, in_pos = xs, in_atmnrs = zs, in_box = bs\<rparr>
      \<lparr>out_F = replicate (3 * unat n) 0, out_energy = 0, out_variance = 0\<rparr> =
      Returned \<lparr>out_F = ?fs, out_energy = ?e, out_variance = ?v\<rparr>"
    using good dat by (intro runs) (simp_all add: input_data_def)
  have len: "unat (n * 3) = length ?fs" "length ?fs < 2 ^ 60"
    using triple_atoms(2) [OF dat] forces_length [OF good] dat by (simp_all add: input_data_def)
  have fits: "fits_i64 (sint n * sint (3 :: i64))"
  proof -
    have n: "unat n < 2 ^ 60" using dat by (simp add: input_data_def)
    have "sint n = int (unat n)" by (rule sint_small) (use n in simp)
    moreover have "sint (3 :: i64) = 3" by simp
    ultimately show ?thesis using fits_triple [OF n] by (simp only:)
  qed
  have vec2: "heap ?w2 ?vec = Some (F64s ?fs)" using pl by simp
  from owned_copy_rep [OF ok2 vec2 fits, of E] len obtain t w3 G d where
    new: "rgpot_tensor_owned_cpu_f64_2d E ?vec n 3 ?w2 = Done t w3" and g: "grows ?w2 w3 G"
    and t: "tensor_rep (heap w3) t (forces_view n d) G" and d: "heap w3 d = Some (F64s ?fs)" "?vec \<notin> G"
    by auto
  let ?R = "out_struct t ?e ?v"
  note out = output_written(1-3) [OF ok1 out1 g t d(1), of "\<lparr>forces = t, energy = ?e, variance = ?v\<rparr>"]
    and out4 = output_written(4) [OF ok1 out1 g t d(1)]
  let ?w4 = "set_block pout ?R w3"
  have R: "?r1\<lparr>forces := t\<rparr> = \<lparr>forces = t, energy = ?e, variance = ?v\<rparr>" by (cases r) simp
  have vec4: "heap ?w4 ?vec = Some (F64s ?fs)"
    using grows_keeps [OF g ok2 vec2] pl by simp
  have run: "trampoline_callback E (\<lambda>_. impl) ud pin pout w = Done RGPOT_SUCCESS (drop_blocks {?vec} ?w4)"
    using trampoline_calls [OF ok pin rep dat, of E "\<lambda>_. impl" ud pout] call out1 new out4 vec4 ne
      world_ok_brk [OF ok] by (simp add: bnd_def load_out_def store_out_def ret_def vector_dtor_def dealloc_def R)
  have "set_block pout ?R ?w1 = push (F64s ?fs) (set_block pout ?R w)"
    using pl by (simp add: set_block_def push_def fun_upd_twist)
  with out(1) have "grows (push (F64s ?fs) (set_block pout ?R w)) ?w4 G" by simp
  from grows_scratch [OF _ this] have "grows (set_block pout ?R w) (drop_blocks {?vec} ?w4) G"
    using world_ok_set_block [OF ok pout, of ?R] by simp
  moreover have "tensor_rep (heap (drop_blocks {?vec} ?w4)) t (forces_view n d) G"
    using out(2) by (rule tens.rep_frame) (use d(2) in \<open>auto simp: restrict_map_def\<close>)
  moreover have "d \<noteq> ?vec" using t d(2) by (auto simp: tensor_rep_def owned_buffer_def)
  with out(3) have "heap (drop_blocks {?vec} ?w4) d = Some (F64s ?fs)" by (auto split: if_splits)
  ultimately show ?thesis using run by blast
qed

end

text \<open>
  An implementation behind the trampoline of a function pointer meets the core's contract for
  callbacks, for systems of at least one atom.
\<close>

locale trampolined = legacy_impl +
  fixes E :: "'x env_scheme" and E' :: "'y env_scheme" and f :: fnptr and ud :: ptr
  assumes code: "callback_code E f = trampoline_callback E' (\<lambda>_. impl)"

sublocale trampolined < cb: potential_callback E f ud "\<lambda>xs zs bs. good xs zs bs \<and> zs \<noteq> []" en va fo
proof unfold_locales
  fix w pin i pout r n p a b F xs zs bs
  assume "world_ok w" "heap w pin = Some (Force_input i)" "heap w pout = Some (Force_out r)"
    "input_rep (heap w) i n p a b F" "input_data (heap w) n p a b xs zs bs" "good xs zs bs \<and> zs \<noteq> []"
  then show "\<exists>w' t d G. callback_code E f ud pin pout w = Done RGPOT_SUCCESS w' \<and>
      grows (set_block pout (out_struct t (en xs zs bs) (va xs zs bs)) w) w' G \<and>
      tensor_rep (heap w') t (forces_view n d) G \<and> heap w' d = Some (F64s (fo xs zs bs))"
    unfolding code by (intro trampoline_computes) auto
qed (simp add: forces_length)

context trampolined
begin

lemma meets_contract: "potential_callback E f ud (\<lambda>xs zs bs. good xs zs bs \<and> zs \<noteq> []) en va fo"
  by (rule cb.potential_callback_axioms)

end

lemma trampoline_contract:
  assumes "legacy_impl impl good en va fo" "callback_code E f = trampoline_callback E' (\<lambda>_. impl)"
  shows "potential_callback E f ud (\<lambda>xs zs bs. good xs zs bs \<and> zs \<noteq> []) en va fo"
proof -
  have "trampolined impl good en va fo E E' f"
    using assms by (intro trampolined.intro trampolined_axioms.intro)
  then show ?thesis by (rule trampolined.meets_contract)
qed

text \<open>
  The two implementations of the repository: the copper-hydrogen potential on the configurations
  it is made for, and the Lennard-Jones potential, as its constructor leaves it, on those without
  two atoms closer than the cutoff.
\<close>

interpretation cuh2: legacy_impl "CuH2Pot_forceImpl eam" "cuh2_good eam" "eam_energy eam" "\<lambda>_ _ _. 0" "eam_forces eam" for eam
proof unfold_locales
  fix xs zs bs and n :: usize
  assume g: "cuh2_good eam xs zs bs" and len: "length xs = 3 * unat n" "length zs = unat n" "length bs = 9"
  from g have "set zs = {29, 1}" "unat n \<le> 715827882" using len by (simp_all add: cuh2_good_def)
  with cuh2_run [OF len, of eam] cuh2_goodD [OF g]
  show "CuH2Pot_forceImpl eam (legacy_input n xs zs bs) (zeroed_out n) =
      Returned \<lparr>out_F = eam_forces eam xs zs bs, out_energy = eam_energy eam xs zs bs, out_variance = 0\<rparr>" by simp
next
  show "length (eam_forces eam xs zs bs) = length xs" if "cuh2_good eam xs zs bs" for xs zs bs
    using that by (auto simp: cuh2_good_def eam_forces_def split: cpp.splits)
qed

definition within_cutoff :: "f64 arith \<Rightarrow> f64 list \<Rightarrow> i32 list \<Rightarrow> f64 list \<Rightarrow> bool" where
  "within_cutoff A xs zs bs \<longleftrightarrow> (\<exists>j < length zs. \<exists>i < j. f_less A (distance A xs bs i j) (f_lit A 15))"

lemma lj_built_run:
  assumes "length xs = 3 * unat n" "length zs = unat n" "length bs = 9" "length zs \<le> 715827882"
  shows "LJPot_forceImpl A (LJPot_ctor A) (legacy_input n xs zs bs) (zeroed_out n) =
    (if within_cutoff A xs zs bs then Undef
     else Returned \<lparr>out_F = replicate (length xs) (f_lit A 0), out_energy = f_lit A 0, out_variance = 0\<rparr>)"
proof -
  have "(\<exists>i j. i < j \<and> j < unat n \<and> f_less A (distance A xs bs i j) (f_lit A 15)) \<longleftrightarrow> within_cutoff A xs zs bs"
    using assms(2) by (auto simp: within_cutoff_def)
  with lj_as_built [of "legacy_input n xs zs bs" "unat n" "zeroed_out n" A] assms show ?thesis by simp
qed

interpretation lj: legacy_impl "LJPot_forceImpl A (LJPot_ctor A)"
    "\<lambda>xs zs bs. length zs \<le> 715827882 \<and> \<not> within_cutoff A xs zs bs" "\<lambda>_ _ _. f_lit A 0" "\<lambda>_ _ _. 0"
    "\<lambda>xs _ _. replicate (length xs) (f_lit A 0)" for A
  by unfold_locales (simp_all add: lj_built_run)

section \<open>The objects as resources\<close>

text \<open>
  An \<^verbatim>\<open>InputSpec\<close> over the caller's arrays, or one that was moved from; a \<^verbatim>\<open>CalcResult\<close> with an
  energy, a variance and a forces tensor, or without forces.
\<close>

type_synonym spec_view = "(usize \<times> ptr \<times> ptr \<times> ptr) option"
type_synonym result_view = "f64 \<times> f64 \<times> tensor_view option"

definition spec_rep :: "mem \<Rightarrow> ptr \<Rightarrow> spec_view \<Rightarrow> ptr set \<Rightarrow> bool" where
  "spec_rep h q v F \<longleftrightarrow> q \<noteq> null \<and> (case v of
      None \<Rightarrow> h q = Some (Force_input no_input) \<and> F = {q}
    | Some (n, p, a, b) \<Rightarrow> \<exists>i G. h q = Some (Force_input i) \<and> input_rep h i n p a b G \<and> q \<notin> G \<and> F = insert q G)"

definition result_rep :: "mem \<Rightarrow> ptr \<Rightarrow> result_view \<Rightarrow> ptr set \<Rightarrow> bool" where
  "result_rep h r v F \<longleftrightarrow> r \<noteq> null \<and> (case v of
      (e, x, None) \<Rightarrow> h r = Some (out_struct null e x) \<and> F = {r}
    | (e, x, Some tv) \<Rightarrow> \<exists>t G. h r = Some (out_struct t e x) \<and> tensor_rep h t tv G \<and> r \<notin> G \<and> F = insert r G)"

lemma InputSpec_dtor_rep:
  assumes "spec_rep (heap w) q v F"
  shows "InputSpec_dtor E q w = Done () (drop_blocks F w)"
proof (cases v)
  case None
  with assms have q: "q \<noteq> null" "heap w q = Some (Force_input no_input)" "F = {q}" by (auto simp: spec_rep_def)
  from force_input_free_cleared [OF q(2,1), of E] q show ?thesis
    by (simp add: InputSpec_dtor_def bnd_def dealloc_def)
next
  case (Some x)
  then obtain n p a b where v: "v = Some (n, p, a, b)" by (cases x) simp
  with assms obtain i G where q: "q \<noteq> null" "heap w q = Some (Force_input i)" "input_rep (heap w) i n p a b G" "q \<notin> G"
    and F: "F = insert q G" by (auto simp: spec_rep_def)
  have "drop_blocks {q} (set_block q (Force_input no_input) (drop_blocks G w)) = drop_blocks F w"
  proof -
    have "- G \<inter> - {q} = - insert q G" by auto
    then show ?thesis by (simp add: drop_blocks_def set_block_def F)
  qed
  with force_input_free_rep [OF q(3,2,1,4), of E] show ?thesis
    by (simp add: InputSpec_dtor_def bnd_def dealloc_def)
qed

lemma CalcResult_dtor_rep:
  assumes "result_rep (heap w) r v F"
  shows "CalcResult_dtor E r w = Done () (drop_blocks F w)"
proof (cases v)
  case (fields e x ov)
  show ?thesis
  proof (cases ov)
    case None
    with fields assms show ?thesis
      by (simp add: result_rep_def CalcResult_dtor_def release_forces_def exec)
  next
    case (Some tv)
    with fields assms obtain t G where r: "heap w r = Some (out_struct t e x)" "tensor_rep (heap w) t tv G" "r \<notin> G"
      and F: "F = insert r G" by (auto simp: result_rep_def)
    from tens.free_rep [OF r(2), of E] tens.rep_self [OF r(2)] r show ?thesis
      by (simp add: CalcResult_dtor_def release_forces_def bnd_def load_out_def dealloc_def F)
  qed
qed

interpretation spec: resource spec_rep "InputSpec_dtor E" for E
proof unfold_locales
  show "spec_rep h' t v F" if "spec_rep h t v F" "\<And>p. p \<in> F \<Longrightarrow> h' p = h p" for h h' t v F
  proof (cases v)
    case (Some x)
    then obtain n p a b where v: "v = Some (n, p, a, b)" by (cases x) simp
    with that(1) obtain i G where "t \<noteq> null" "h t = Some (Force_input i)" "input_rep h i n p a b G" "t \<notin> G"
      and F: "F = insert t G" by (auto simp: spec_rep_def)
    moreover have "input_rep h' i n p a b G"
      using \<open>input_rep h i n p a b G\<close> by (rule input_rep_frame) (use that(2) F in auto)
    moreover have "h' t = h t" using that(2) F by simp
    ultimately show ?thesis by (auto simp: v spec_rep_def)
  qed (use that in \<open>auto simp: spec_rep_def\<close>)
  show "h p \<noteq> None \<and> \<not> is_cstr (h p)" if "spec_rep h t v F" "p \<in> F" for h t v F p
    using that input_rep_live by (fastforce simp: spec_rep_def split: option.splits)
  show "t \<in> F \<and> t \<noteq> null" if "spec_rep h t v F" for h t v F
    using that by (auto simp: spec_rep_def split: option.splits)
  show "InputSpec_dtor E t w = Undefined" if "t \<noteq> null" "heap w t = None" for t w
    using that by (simp add: InputSpec_dtor_def rgpot_force_input_free_def exec)
qed (rule InputSpec_dtor_rep)

interpretation res: resource result_rep "CalcResult_dtor E" for E
proof unfold_locales
  show "result_rep h' t v F" if "result_rep h t v F" "\<And>p. p \<in> F \<Longrightarrow> h' p = h p" for h h' t v F
  proof (cases "snd (snd v)")
    case (Some tv)
    with that(1) obtain e x u G where u: "v = (e, x, Some tv)" "t \<noteq> null" "h t = Some (out_struct u e x)"
      "tensor_rep h u tv G" "t \<notin> G" "F = insert t G" by (cases v) (auto simp: result_rep_def)
    from u(4) have "tensor_rep h' u tv G" by (rule tens.rep_frame) (use that(2) u(6) in auto)
    with u that(2) show ?thesis by (auto simp: result_rep_def)
  qed (use that in \<open>cases v; auto simp: result_rep_def\<close>)
  show "h p \<noteq> None \<and> \<not> is_cstr (h p)" if "result_rep h t v F" "p \<in> F" for h t v F p
    using that tens.rep_live by (fastforce simp: result_rep_def split: option.splits prod.splits)
  show "t \<in> F \<and> t \<noteq> null" if "result_rep h t v F" for h t v F
    using that by (auto simp: result_rep_def split: option.splits prod.splits)
  show "CalcResult_dtor E t w = Undefined" if "t \<noteq> null" "heap w t = None" for t w
    using that by (simp add: CalcResult_dtor_def release_forces_def exec)
qed (rule CalcResult_dtor_rep)

section \<open>A calculation in C++\<close>

lemma InputSpec_ctor_rep:
  assumes ok: "world_ok w"
  shows "\<exists>q w' F. InputSpec_ctor E n p a b w = Done \<lparr>spec_n_atoms = n, spec_input = q\<rparr> w' \<and> grows w w' F \<and>
     spec_rep (heap w') q (Some (n, p, a, b)) F"
proof -
  obtain i w1 G where i: "rgpot_force_input_create E n p a b w = Done i w1" "grows w w1 G" "input_rep (heap w1) i n p a b G"
    using force_input_create_rep [OF ok] by blast
  let ?q = "brk w1" and ?w = "push (Force_input i) w1"
  have ok1: "world_ok w1" by (rule growsD(1) [OF i(2)])
  have "?q \<notin> G" using growsD(6) [OF i(2)] by auto
  then have "spec_rep (heap ?w) ?q (Some (n, p, a, b)) (insert ?q G)"
    using input_rep_grows [OF i(3) ok1 grows_push [OF ok1]] world_ok_brk [OF ok1] by (auto simp: spec_rep_def)
  moreover have "grows w ?w (insert ?q G)" using grows_trans [OF i(2) grows_push [OF ok1]] by simp
  moreover have "InputSpec_ctor E n p a b w = Done \<lparr>spec_n_atoms = n, spec_input = ?q\<rparr> ?w"
    using i(1) by (simp add: InputSpec_ctor_def bnd_def alloc_def ret_def)
  ultimately show ?thesis by blast
qed

text \<open>A successful call of the core through the wrapper.\<close>

lemma call_succeeds:
  assumes ok: "world_ok w" and run: "call (brk w) (push (out_struct null 0 0) w) = Done RGPOT_SUCCESS w2"
    and g: "grows (set_block (brk w) (out_struct t e v) (push (out_struct null 0 0) w)) w2 G"
    and rep: "tensor_rep (heap w2) t tv G"
  shows "checked_call E call w = Done (Inr (brk w)) w2 \<and>
     grows w w2 (insert (brk w) G) \<and> result_rep (heap w2) (brk w) (e, v, Some tv) (insert (brk w) G)"
proof -
  have set: "set_block (brk w) (out_struct t e v) (push (out_struct null 0 0) w) = push (out_struct t e v) w"
    by (rule set_block_push)
  have ok1: "world_ok (push (out_struct t e v) w)" using ok by (rule world_ok_push)
  note g' = g [unfolded set]
  have out: "heap w2 (brk w) = Some (out_struct t e v)" by (rule grows_keeps [OF g' ok1]) simp
  have "brk w \<notin> G" using growsD(6) [OF g'] by auto
  with out rep world_ok_brk [OF ok] have "result_rep (heap w2) (brk w) (e, v, Some tv) (insert (brk w) G)"
    by (auto simp: result_rep_def)
  moreover have "grows w w2 (insert (brk w) G)" using grows_trans [OF grows_push [OF ok] g'] by simp
  moreover have "checked_call E call w = Done (Inr (brk w)) w2"
    using run by (simp add: checked_call_def CalcResult_ctor_def rgpot_force_out_create_def check_status_def exec)
  ultimately show ?thesis by blast
qed

text \<open>A call that runs into undefined behaviour.\<close>

lemma call_undefined:
  "call (brk w) (push (out_struct null 0 0) w) = Undefined \<Longrightarrow> checked_call E call w = Undefined"
  by (simp add: checked_call_def CalcResult_ctor_def rgpot_force_out_create_def exec)

text \<open>What the accessors of a result return.\<close>

lemma result_accessors:
  assumes r: "result_rep (heap w) r (e, v, Some (forces_view n d)) F" and d: "heap w d = Some (F64s fs)" "d \<noteq> null"
    and len: "unat (n * 3) = length fs"
  shows "CalcResult_energy r w = Done e w" "CalcResult_variance r w = Done v w" "has_forces r w = Done True w"
    "forces_data r w = Done (d, n * 3) w" "forces_vec r w = Done fs w"
proof -
  from r obtain t G where out: "heap w r = Some (out_struct t e v)" and rep: "tensor_rep (heap w) t (forces_view n d) G"
    by (auto simp: result_rep_def)
  obtain m sp where m: "load_managed t w = Done m w" "t \<noteq> null" "t_data (dl_tensor m) = d" "t_ndim (dl_tensor m) = 2"
    "t_shape (dl_tensor m) = sp" "sp \<noteq> null" "heap w sp = Some (I64s [n, 3])"
    using tensor_rep_load [OF rep] by auto
  have "i64_slice sp 2 w = Done [n, 3] w" using m by (simp add: i64_slice_def)
  with out m show dat: "forces_data r w = Done (d, n * 3) w"
    by (simp add: forces_data_def bnd_def load_out_def ret_def Let_def)
  show "forces_vec r w = Done fs w"
    using d len by (auto simp: forces_vec_def bnd_def dat ret_def f64_slice_def)
  show "CalcResult_energy r w = Done e w" "CalcResult_variance r w = Done v w" "has_forces r w = Done True w"
    using out m(2) by (simp_all add: CalcResult_energy_def CalcResult_variance_def has_forces_def exec)
qed

context potential_callback
begin

lemma handle_calculates:
  assumes ok: "world_ok w" and pot: "heap w h = Some (Potential_impl \<lparr>callback = f, user_data = ud, free_fn = ff\<rparr>)"
    and spec: "spec_rep (heap w) (spec_input inp) (Some (n, p, a, b)) F"
    and dat: "input_data (heap w) n p a b xs zs bs" and good: "good xs zs bs"
  shows "\<exists>r w' d G. PotentialHandle_calculate E h inp w = Done (Inr r) w' \<and> grows w w' G \<and>
     result_rep (heap w') r (en xs zs bs, va xs zs bs, Some (forces_view n d)) G \<and>
     CalcResult_energy r w' = Done (en xs zs bs) w' \<and> CalcResult_variance r w' = Done (va xs zs bs) w' \<and>
     forces_vec r w' = Done (fo xs zs bs) w'"
proof -
  let ?w1 = "push (out_struct null 0 0) w" and ?q = "spec_input inp"
  have g1: "grows w ?w1 {brk w}" by (rule grows_push [OF ok])
  obtain i K where q: "heap w ?q = Some (Force_input i)" "input_rep (heap w) i n p a b K"
    using spec by (auto simp: spec_rep_def)
  have pout: "heap ?w1 (brk w) = Some (Force_out \<lparr>forces = null, energy = 0, variance = 0\<rparr>)" by simp
  obtain w' t d G where run: "rgpot_potential_calculate E h ?q (brk w) ?w1 = Done RGPOT_SUCCESS w'"
    and g: "grows (set_block (brk w) (out_struct t (en xs zs bs) (va xs zs bs)) ?w1) w' G"
    and t: "tensor_rep (heap w') t (forces_view n d) G" and d: "heap w' d = Some (F64s (fo xs zs bs))"
    using calculate_computes [OF growsD(1) [OF g1] grows_keeps [OF g1 ok pot] grows_keeps [OF g1 ok q(1)] pout
        input_rep_grows [OF q(2) ok g1] input_data_grows [OF dat ok g1] good] by blast
  note c = call_succeeds [where call = "rgpot_potential_calculate E h ?q", OF ok run g t, of E]
  have "world_ok w'" by (rule growsD(1) [OF g])
  then have nd: "d \<noteq> null" using world_ok_less [OF _ d] by auto
  have len: "unat (n * 3) = length (fo xs zs bs)"
    using triple_atoms(2) [OF dat] forces_length [OF good] by simp
  show ?thesis unfolding checked_calls using c result_accessors [OF conjunct2 [OF conjunct2 [OF c]] d nd len] by blast
qed

lemma program:
  assumes ok: "world_ok w" and dat: "input_data (heap w) n p a b xs zs bs" and good: "good xs zs bs"
  shows "\<exists>h w1 inp w2 r w3 w4 w5 w6. from_impl f ud w = Done h w1 \<and> InputSpec_ctor E n p a b w1 = Done inp w2 \<and>
     PotentialHandle_calculate E h inp w2 = Done (Inr r) w3 \<and>
     CalcResult_energy r w3 = Done (en xs zs bs) w3 \<and> CalcResult_variance r w3 = Done (va xs zs bs) w3 \<and>
     forces_vec r w3 = Done (fo xs zs bs) w3 \<and>
     CalcResult_dtor E r w3 = Done () w4 \<and> InputSpec_dtor E (spec_input inp) w4 = Done () w5 \<and>
     PotentialHandle_dtor E h w5 = Done () w6 \<and> heap w6 = heap w \<and> last_error_slot w6 = last_error_slot w"
proof -
  let ?i = "\<lparr>callback = f, user_data = ud, free_fn = None\<rparr>"
  let ?h = "brk w" and ?w1 = "push (Potential_impl ?i) w"
  have g1: "grows w ?w1 {?h}" by (rule grows_push [OF ok])
  note ok1 = growsD(1) [OF g1]
  have new: "from_impl f ud w = Done ?h ?w1"
    by (simp add: from_impl_def rgpot_potential_new_def PotentialImpl_new_def exec)
  obtain q w2 F where c: "InputSpec_ctor E n p a b ?w1 = Done \<lparr>spec_n_atoms = n, spec_input = q\<rparr> w2" and g2: "grows ?w1 w2 F"
    and spec: "spec_rep (heap w2) q (Some (n, p, a, b)) F"
    using InputSpec_ctor_rep [OF ok1] by blast
  note ok2 = growsD(1) [OF g2]
  have pot: "heap w2 ?h = Some (Potential_impl ?i)" by (rule grows_keeps [OF g2 ok1]) simp
  have dat2: "input_data (heap w2) n p a b xs zs bs"
    by (intro input_data_grows [OF _ ok1 g2] input_data_grows [OF dat ok g1])
  obtain r w3 d G where calc: "PotentialHandle_calculate E ?h \<lparr>spec_n_atoms = n, spec_input = q\<rparr> w2 = Done (Inr r) w3"
    and g3: "grows w2 w3 G" and res: "result_rep (heap w3) r (en xs zs bs, va xs zs bs, Some (forces_view n d)) G"
    and acc: "CalcResult_energy r w3 = Done (en xs zs bs) w3" "CalcResult_variance r w3 = Done (va xs zs bs) w3"
      "forces_vec r w3 = Done (fo xs zs bs) w3"
    using handle_calculates [OF ok2 pot _ dat2 good, of "\<lparr>spec_n_atoms = n, spec_input = q\<rparr>" F] spec by auto
  let ?w4 = "w2\<lparr>brk := brk w3\<rparr>" and ?w5 = "?w1\<lparr>brk := brk w3\<rparr>"
  have f1: "CalcResult_dtor E r w3 = Done () ?w4" by (rule res.free_restores [OF g3 res])
  have "spec_rep (heap ?w4) q (Some (n, p, a, b)) F" using spec by simp
  from spec.free_rep [OF this, of E] have f2: "InputSpec_dtor E q ?w4 = Done () (drop_blocks F ?w4)" .
  have "drop_blocks F ?w4 = ?w5" using g2 by (simp add: drop_blocks_def grows_def)
  moreover have "handle_rep E (heap ?w5) ?h ?i {?h}"
    using world_ok_brk [OF ok] by (simp add: handle_rep_def owned_user_data_def)
  from pot.free_rep [OF this] have f3: "PotentialHandle_dtor E ?h ?w5 = Done () (drop_blocks {?h} ?w5)"
    using world_ok_brk [OF ok] by (simp add: PotentialHandle_dtor_def)
  moreover have "heap (drop_blocks {?h} ?w5) = heap w" using growsD(5) [OF g1] by simp
  moreover have "last_error_slot (drop_blocks {?h} ?w5) = last_error_slot w" by simp
  ultimately show ?thesis using new c calc acc f1 f2 by (metis InputSpec.select_convs(2))
qed

end

text \<open>The other ways a calculation through the trampoline can go.\<close>

lemma handle_undefined:
  assumes ok: "world_ok w" and pot: "heap w h = Some (Potential_impl \<lparr>callback = f, user_data = ud, free_fn = ff\<rparr>)"
    and code: "callback_code E f = trampoline_callback E' forceImpl"
    and spec: "spec_rep (heap w) (spec_input inp) (Some (n, p, a, b)) F"
    and dat: "input_data (heap w) n p a b xs zs bs"
    and runs: "forceImpl ud (legacy_input n xs zs bs) (zeroed_out n) = Undef \<or>
      zs = [] \<and> forceImpl ud (legacy_input n xs zs bs) (zeroed_out n) = Returned fo"
  shows "PotentialHandle_calculate E h inp w = Undefined"
proof -
  let ?w1 = "push (out_struct null 0 0) w" and ?q = "spec_input inp"
  have g1: "grows w ?w1 {brk w}" by (rule grows_push [OF ok])
  obtain i K where q: "heap w ?q = Some (Force_input i)" "input_rep (heap w) i n p a b K"
    using spec by (auto simp: spec_rep_def)
  have "heap ?w1 (brk w) = Some (out_struct null 0 0)" by simp
  from trampoline_undefined [where forceImpl = forceImpl and ud = ud, OF growsD(1) [OF g1] grows_keeps [OF g1 ok q(1)] this input_rep_grows [OF q(2) ok g1]
      input_data_grows [OF dat ok g1] runs, of E']
  have tr: "trampoline_callback E' forceImpl ud ?q (brk w) ?w1 = Undefined" .
  have "h \<noteq> null" "?q \<noteq> null" "brk w \<noteq> null"
    using world_ok_less [OF ok pot] world_ok_less [OF ok q(1)] world_ok_brk [OF ok] by auto
  with calculate_dispatch [OF grows_keeps [OF g1 ok pot], of ?q "brk w" E] tr code
  have "rgpot_potential_calculate E h ?q (brk w) ?w1 = Undefined" by (simp add: extern_C_def)
  then show ?thesis unfolding checked_calls by (rule call_undefined)
qed

lemma handle_throws:
  assumes ok: "world_ok w" and pot: "heap w h = Some (Potential_impl \<lparr>callback = f, user_data = ud, free_fn = ff\<rparr>)"
    and code: "callback_code E f = trampoline_callback E' forceImpl"
    and spec: "spec_rep (heap w) (spec_input inp) (Some (n, p, a, b)) F"
    and dat: "input_data (heap w) n p a b xs zs bs"
    and throws: "forceImpl ud (legacy_input n xs zs bs) (zeroed_out n) = Thrown e"
  shows "\<exists>w'. PotentialHandle_calculate E h inp w = Done (Inl (''internal error: '' @ messages w (thread w))) w' \<and>
     core_mem w' = core_mem w \<and> messages w' = messages w \<and> world_ok w'"
proof -
  let ?w1 = "push (out_struct null 0 0) w" and ?q = "spec_input inp"
  have g1: "grows w ?w1 {brk w}" by (rule grows_push [OF ok])
  note ok1 = growsD(1) [OF g1]
  obtain i K where q: "heap w ?q = Some (Force_input i)" "input_rep (heap w) i n p a b K"
    using spec by (auto simp: spec_rep_def)
  let ?w2 = "?w1\<lparr>brk := if zs = [] then brk ?w1 else Suc (brk ?w1)\<rparr>"
  have tr: "trampoline_callback E' forceImpl ud ?q (brk w) ?w1 = Done RGPOT_INTERNAL_ERROR ?w2"
    by (rule trampoline_throws [where forceImpl = forceImpl and ud = ud, OF ok1 grows_keeps [OF g1 ok q(1)] input_rep_grows [OF q(2) ok g1]
          input_data_grows [OF dat ok g1] throws])
  have "h \<noteq> null" "?q \<noteq> null" "brk w \<noteq> null"
    using world_ok_less [OF ok pot] world_ok_less [OF ok q(1)] world_ok_brk [OF ok] by auto
  with calculate_dispatch [OF grows_keeps [OF g1 ok pot], of ?q "brk w" E] tr code
  have run: "rgpot_potential_calculate E h ?q (brk w) ?w1 = Done RGPOT_INTERNAL_ERROR ?w2" by (simp add: extern_C_Done)
  have ok2: "world_ok ?w2" using ok1 by (rule world_ok_higher) simp
  have "heap ?w2 (brk w) = Some (out_struct null 0 0)" by simp
  note c = call_fails [where call = "rgpot_potential_calculate E h ?q", OF ok run _ ok2 this]
  have m: "messages ?w2 = messages w" "core_mem ?w2 |` (- {brk w}) = core_mem w" "thread ?w2 = thread w"
    using fresh_block_drop [OF ok, of "out_struct null 0 0"] by simp_all
  from c m show ?thesis by (auto simp: checked_calls status_prefix_def)
qed

text \<open>Blocks that are no messages are the same when the memory outside the messages is.\<close>

lemma core_mem_block:
  assumes ok: "world_ok w" and mem: "core_mem w' = core_mem w" and p: "heap w p = Some b" "\<not> is_cstr (Some b)"
  shows "heap w' p = Some b"
proof -
  have "p \<notin> ran (last_error_slot w)" using world_ok_slot [OF ok] p by (fastforce simp: ran_def is_cstr_def)
  with p have "core_mem w p = Some b" by (simp add: core_mem_def)
  then have "core_mem w' p = Some b" by (simp only: mem)
  then show ?thesis by (simp add: core_mem_def restrict_map_def split: if_splits)
qed

lemma grows_messages: "world_ok w \<Longrightarrow> grows w w' F \<Longrightarrow> messages w' = messages w"
  using growsD(2) [of w w' F] world_ok_slot [of w] grows_keeps [of w w' F]
  by (fastforce simp: messages_def fun_eq_iff split: option.split)

text \<open>A program whose potential throws: after the two objects are destroyed, nothing is left over.\<close>

lemma program_throws:
  assumes ok: "world_ok w" and code: "callback_code E f = trampoline_callback E' forceImpl"
    and dat: "input_data (heap w) n p a b xs zs bs"
    and throws: "forceImpl ud (legacy_input n xs zs bs) (zeroed_out n) = Thrown e"
  shows "\<exists>h w1 inp w2 w3 w4 w5. from_impl f ud w = Done h w1 \<and> InputSpec_ctor E n p a b w1 = Done inp w2 \<and>
     PotentialHandle_calculate E h inp w2 = Done (Inl (''internal error: '' @ messages w (thread w))) w3 \<and>
     InputSpec_dtor E (spec_input inp) w3 = Done () w4 \<and> PotentialHandle_dtor E h w4 = Done () w5 \<and>
     core_mem w5 = core_mem w"
proof -
  let ?i = "\<lparr>callback = f, user_data = ud, free_fn = None\<rparr>"
  let ?h = "brk w" and ?w1 = "push (Potential_impl ?i) w"
  have g1: "grows w ?w1 {?h}" by (rule grows_push [OF ok])
  note ok1 = growsD(1) [OF g1]
  have new: "from_impl f ud w = Done ?h ?w1"
    by (simp add: from_impl_def rgpot_potential_new_def PotentialImpl_new_def exec)
  obtain q w2 F where c: "InputSpec_ctor E n p a b ?w1 = Done \<lparr>spec_n_atoms = n, spec_input = q\<rparr> w2" and g2: "grows ?w1 w2 F"
    and spec: "spec_rep (heap w2) q (Some (n, p, a, b)) F"
    using InputSpec_ctor_rep [OF ok1] by blast
  note ok2 = growsD(1) [OF g2]
  have pot: "heap w2 ?h = Some (Potential_impl ?i)" by (rule grows_keeps [OF g2 ok1]) simp
  have dat2: "input_data (heap w2) n p a b xs zs bs"
    by (intro input_data_grows [OF _ ok1 g2] input_data_grows [OF dat ok g1])
  obtain w3 where calc: "PotentialHandle_calculate E ?h \<lparr>spec_n_atoms = n, spec_input = q\<rparr> w2 =
      Done (Inl (''internal error: '' @ messages w2 (thread w2))) w3" and mem: "core_mem w3 = core_mem w2"
    using handle_throws [where forceImpl = forceImpl and ud = ud, OF ok2 pot code _ dat2 throws, of "\<lparr>spec_n_atoms = n, spec_input = q\<rparr>" F] spec by auto
  have "messages w2 = messages w" "thread w2 = thread w"
    using grows_messages [OF ok g1] grows_messages [OF ok1 g2] growsD(3) [OF g1] growsD(3) [OF g2] by simp_all
  note calc = calc [unfolded this]
  have "spec_rep (heap w3) q (Some (n, p, a, b)) F"
    using spec by (rule spec.rep_frame) (use spec.rep_live [OF spec] core_mem_block [OF ok2 mem] in force)
  from spec.free_rep [OF this, of E] have d1: "InputSpec_dtor E q w3 = Done () (drop_blocks F w3)" .
  have "?h \<notin> F" using growsD(6) [OF g2] by auto
  then have "heap (drop_blocks F w3) ?h = Some (Potential_impl ?i)" using core_mem_block [OF ok2 mem pot] by simp
  then have "handle_rep E (heap (drop_blocks F w3)) ?h ?i {?h}"
    using world_ok_brk [OF ok] by (simp add: handle_rep_def owned_user_data_def)
  from pot.free_rep [OF this] have d2: "PotentialHandle_dtor E ?h (drop_blocks F w3) = Done () (drop_blocks {?h} (drop_blocks F w3))"
    using world_ok_brk [OF ok] by (simp add: PotentialHandle_dtor_def)
  have restored: "core_mem w' |` (- G) = core_mem v" if "grows v w' G" for v w' G
    using arg_cong [OF grows_drop [OF that], of core_mem] by (simp add: core_mem_drop)
  have "core_mem (drop_blocks {?h} (drop_blocks F w3)) = core_mem w"
    by (simp only: core_mem_drop mem restored [OF g2] restored [OF g1])
  with new c calc d1 d2 show ?thesis by (metis InputSpec.select_convs(2))
qed

text \<open>
  C24: A C++ program over the copper-hydrogen potential.  A handle made from the potential, an
  \<^verbatim>\<open>InputSpec\<close> over the caller's arrays and \<^verbatim>\<open>calculate\<close>.  When the elements present are copper and
  hydrogen, the result's energy and its vector of forces are what the Fortran routine computes
  from the two counts, the number of coordinates, the diagonal of the box and the positions,
  through the trampoline, the core's dispatch and the DLPack tensors, and when the three
  objects are destroyed, memory is exactly as before.  For every other system \<^verbatim>\<open>calculate\<close> throws an
  internal error, with the message the thread had before, and destroying the two objects
  gives all memory back.
\<close>

theorem cuh2_program:
  assumes ok: "world_ok w" and code: "callback_code E f = trampoline_callback E' (\<lambda>_. CuH2Pot_forceImpl eam)"
    and dat: "input_data (heap w) n p a b xs zs bs" and len: "length zs \<le> 715827882"
    and eam: "set zs = {29, 1} \<Longrightarrow> eam_call eam xs zs bs = Returned (fs, e) \<and> length fs = length xs"
  shows "\<exists>h w1 inp w2 x w3. from_impl f ud w = Done h w1 \<and> InputSpec_ctor E n p a b w1 = Done inp w2 \<and>
     PotentialHandle_calculate E h inp w2 = Done x w3 \<and>
     (if set zs = {29, 1} then \<exists>r w4 w5 w6. x = Inr r \<and>
        CalcResult_energy r w3 = Done e w3 \<and> CalcResult_variance r w3 = Done 0 w3 \<and> forces_vec r w3 = Done fs w3 \<and>
        CalcResult_dtor E r w3 = Done () w4 \<and> InputSpec_dtor E (spec_input inp) w4 = Done () w5 \<and>
        PotentialHandle_dtor E h w5 = Done () w6 \<and> heap w6 = heap w \<and> last_error_slot w6 = last_error_slot w
      else \<exists>w4 w5. x = Inl (''internal error: '' @ messages w (thread w)) \<and>
        InputSpec_dtor E (spec_input inp) w3 = Done () w4 \<and> PotentialHandle_dtor E h w4 = Done () w5 \<and>
        core_mem w5 = core_mem w)"
proof (cases "set zs = {29, 1}")
  case True
  with eam len have good: "cuh2_good eam xs zs bs" "zs \<noteq> []" and v: "eam_energy eam xs zs bs = e" "eam_forces eam xs zs bs = fs"
    by (auto simp: cuh2_good_def eam_energy_def eam_forces_def)
  note con = trampoline_contract [OF cuh2.legacy_impl_axioms code, of ud]
  from potential_callback.program [OF con ok dat] good v show ?thesis unfolding if_P [OF True] by blast
next
  case False
  have l: "length xs = 3 * unat n" "length zs = unat n" "length bs = 9" using dat by (simp_all add: input_data_def)
  obtain m where "CuH2Pot_forceImpl eam (legacy_input n xs zs bs) (zeroed_out n) = Thrown m"
    using cuh2_refuses [OF l _ False, of eam] len l(2) by auto
  from program_throws [where forceImpl = "\<lambda>_. CuH2Pot_forceImpl eam", OF ok code dat this, of ud]
  show ?thesis unfolding if_not_P [OF False] by blast
qed

text \<open>An arithmetic on bit patterns, to run the program with.\<close>

definition word_arith :: "f64 arith" where
  "word_arith = \<lparr>f_add = (+), f_sub = (-), f_mul = (*), f_div = (div), f_floor = (\<lambda>x. x), f_sqrt = (\<lambda>x. x),
     f_pow = (\<lambda>x y. x), f_less = (<), f_lit = (\<lambda>q. word_of_int \<lfloor>q\<rfloor>)\<rparr>"

definition lj_env :: env where
  "lj_env = plain_env\<lparr>callback_code := \<lambda>_. trampoline_callback plain_env
     (\<lambda>_. LJPot_forceImpl word_arith (LJPot_ctor word_arith))\<rparr>"

lemma sample_data: "input_data (heap sample_world) 2 1 2 3 sample_positions [29, 1] sample_box"
  by (simp add: sample_world_def boot_world_def input_data_def sample_positions_def sample_box_def)

lemma sample_world_ok: "world_ok sample_world"
  unfolding sample_world_def by (intro world_ok_push boot_world_ok)

text \<open>A routine that returns, and a program that calls the potential with it.\<close>

definition sample_eam :: "f64 eam" where
  "sample_eam natms ndim bx R FU = Returned (R, 7)"

definition cuh2_env :: env where
  "cuh2_env = plain_env\<lparr>callback_code := \<lambda>_. trampoline_callback plain_env (\<lambda>_. CuH2Pot_forceImpl sample_eam)\<rparr>"

lemma cuh2_env_code: "callback_code cuh2_env f = trampoline_callback plain_env (\<lambda>_. CuH2Pot_forceImpl sample_eam)"
  by (simp add: cuh2_env_def)

interpretation cuh2_cb: trampolined "CuH2Pot_forceImpl sample_eam" "cuh2_good sample_eam" "eam_energy sample_eam" "\<lambda>_ _ _. 0"
    "eam_forces sample_eam" cuh2_env plain_env f ud for f ud
  by unfold_locales (rule cuh2_env_code)

theorem cuh2_program_witness:
  "\<exists>h w1 inp w2 r w3. from_impl 1 9 sample_world = Done h w1 \<and> InputSpec_ctor cuh2_env 2 1 2 3 w1 = Done inp w2 \<and>
     PotentialHandle_calculate cuh2_env h inp w2 = Done (Inr r) w3 \<and> CalcResult_energy r w3 = Done 7 w3 \<and>
     forces_vec r w3 = Done sample_positions w3"
proof -
  have "eam_call sample_eam sample_positions [29, 1] sample_box = Returned (sample_positions, 7)"
    by (simp add: eam_call_def sample_eam_def)
  moreover have el: "set [29, 1 :: i32] = {29, 1}" and "length [29, 1 :: i32] \<le> 715827882" by simp_all
  ultimately show ?thesis
    using cuh2_program [OF sample_world_ok cuh2_env_code [of 1] sample_data, of sample_positions 7 9] unfolding if_P [OF el] by blast
qed

text \<open>
  C32: The message of an exception is lost.  When the legacy implementation throws, the trampoline
  reports an internal error without storing a message, so the error that \<^verbatim>\<open>calculate\<close> throws carries
  whatever message the thread had before, not the one of the exception.  Nothing is leaked.
\<close>

theorem exception_message_lost:
  assumes ok: "world_ok w" and pot: "heap w h = Some (Potential_impl \<lparr>callback = f, user_data = ud, free_fn = ff\<rparr>)"
    and code: "callback_code E f = trampoline_callback E' forceImpl"
    and spec: "spec_rep (heap w) (spec_input inp) (Some (n, p, a, b)) F"
    and dat: "input_data (heap w) n p a b xs zs bs"
    and throws: "forceImpl ud (legacy_input n xs zs bs) (zeroed_out n) = Thrown e"
  shows "\<exists>w'. PotentialHandle_calculate E h inp w = Done (Inl (''internal error: '' @ messages w (thread w))) w' \<and>
     core_mem w' = core_mem w \<and> messages w' = messages w"
  using handle_throws [where forceImpl = forceImpl, OF assms] by blast

definition throwing_env :: env where
  "throwing_env = plain_env\<lparr>callback_code := \<lambda>_. trampoline_callback plain_env (\<lambda>_ _ _. Thrown ''no copper'')\<rparr>"

theorem exception_message_lost_witness:
  "\<exists>h w1 inp w2 w3. from_impl 1 9 sample_world = Done h w1 \<and> InputSpec_ctor throwing_env 2 1 2 3 w1 = Done inp w2 \<and>
     PotentialHandle_calculate throwing_env h inp w2 = Done (Inl ''internal error: '') w3"
proof -
  let ?i = "\<lparr>callback = 1, user_data = 9, free_fn = None\<rparr>"
  let ?h = "brk sample_world" and ?w1 = "push (Potential_impl ?i) sample_world"
  have g1: "grows sample_world ?w1 {?h}" by (rule grows_push [OF sample_world_ok])
  note ok1 = growsD(1) [OF g1]
  have new: "from_impl 1 9 sample_world = Done ?h ?w1"
    by (simp add: from_impl_def rgpot_potential_new_def PotentialImpl_new_def exec)
  obtain q w2 F where c: "InputSpec_ctor throwing_env 2 1 2 3 ?w1 = Done \<lparr>spec_n_atoms = 2, spec_input = q\<rparr> w2"
    and g2: "grows ?w1 w2 F" and spec: "spec_rep (heap w2) q (Some (2, 1, 2, 3)) F"
    using InputSpec_ctor_rep [OF ok1] by blast
  have pot: "heap w2 ?h = Some (Potential_impl ?i)" by (rule grows_keeps [OF g2 ok1]) simp
  have dat: "input_data (heap w2) 2 1 2 3 sample_positions [29, 1] sample_box"
    by (intro input_data_grows [OF _ ok1 g2] input_data_grows [OF sample_data sample_world_ok g1])
  have "messages w2 (thread w2) = []"
    using growsD(2,3) [OF g1] growsD(2,3) [OF g2] by (simp add: messages_def sample_world_def boot_world_def)
  with exception_message_lost [OF growsD(1) [OF g2] pot, where E = throwing_env and E' = plain_env and
      forceImpl = "\<lambda>_ _ _. Thrown ''no copper''" and inp = "\<lparr>spec_n_atoms = 2, spec_input = q\<rparr>", OF _ _ dat] spec
  have "\<exists>w3. PotentialHandle_calculate throwing_env ?h \<lparr>spec_n_atoms = 2, spec_input = q\<rparr> w2 = Done (Inl ''internal error: '') w3"
    by (auto simp: throwing_env_def)
  with new c show ?thesis by blast
qed

section \<open>The RPC client in C++\<close>

text \<open>A remote calculation, by what the network answers.\<close>

lemma cpp_rpc_judged:
  assumes ok: "world_ok w" and cl: "heap w cl = Some (Rpc_client c)"
    and spec: "spec_rep (heap w) (spec_input inp) (Some (n, p, a, b)) F" and dat: "input_data (heap w) n p a b xs zs bs"
    and net: "quiet_network R N" "legal_answers N" and len: "length xs < max_list"
  shows "case remote_verdict R N (addr c) xs zs bs of
      Accept e fs \<Rightarrow> (\<exists>r w'. cpp_rpc_calculate E R cl inp w = Done (Inr r) w' \<and>
        CalcResult_energy r w' = Done e w' \<and> forces_vec r w' = Done fs w' \<and>
        CalcResult_dtor E r w' = Done () (w\<lparr>brk := brk w'\<rparr>))
    | Refuse msg oe \<Rightarrow> (\<exists>w'. cpp_rpc_calculate E R cl inp w =
        Done (Inl (''RPC error: '' @ stored_message (''rgpot_rpc_calculate: '' @ msg))) w' \<and> core_mem w' = core_mem w)"
proof -
  let ?w1 = "push (out_struct null 0 0) w" and ?q = "spec_input inp" and ?r = "\<lparr>forces = null, energy = 0, variance = 0\<rparr>"
  have g1: "grows w ?w1 {brk w}" by (rule grows_push [OF ok])
  note ok1 = growsD(1) [OF g1]
  obtain i K where q: "heap w ?q = Some (Force_input i)" "input_rep (heap w) i n p a b K"
    using spec by (auto simp: spec_rep_def)
  have pout: "heap ?w1 (brk w) = Some (Force_out ?r)" by simp
  note judged = rpc_calculate_judged [OF ok1 grows_keeps [OF g1 ok cl] grows_keeps [OF g1 ok q(1)] pout
      input_rep_grows [OF q(2) ok g1] input_data_grows [OF dat ok g1] net len, of E]
  show ?thesis
  proof (cases "remote_verdict R N (addr c) xs zs bs")
    case (Refuse msg oe)
    let ?m = "''rgpot_rpc_calculate: '' @ msg" and ?w2 = "energy_written (brk w) ?r oe ?w1"
    have run: "rgpot_rpc_calculate E R cl ?q (brk w) ?w1 = Done RGPOT_RPC_ERROR (record_error ?m ?w2)"
      using judged Refuse by simp
    have ok2: "world_ok ?w2" by (rule energy_written_ok [OF ok1 pout])
    obtain e where w2: "?w2 = push (out_struct null e 0) w"
      by (cases oe) (simp_all add: energy_written_def set_block_push)
    have out: "heap (record_error ?m ?w2) (brk w) = Some (out_struct null e 0)"
      by (rule record_error_keeps [OF ok2]) (simp_all add: w2)
    have "core_mem (record_error ?m ?w2) |` (- {brk w}) = core_mem w"
      using err.rest_after [OF ok2, of ?m] fresh_block_drop(1) [OF ok, of "out_struct null e 0"] by (simp add: w2)
    moreover have "messages (record_error ?m ?w2) (thread (record_error ?m ?w2)) = stored_message ?m"
      using err.fail_text [OF ok2, of ?m] by simp
    ultimately show ?thesis
      using call_fails [where call = "rgpot_rpc_calculate E R cl ?q", OF ok run _ err.good_after [OF ok2] out, of E] Refuse
      by (auto simp: checked_calls status_prefix_def)
  next
    case (Accept e fs)
    with judged obtain w2 t d G where run: "rgpot_rpc_calculate E R cl ?q (brk w) ?w1 = Done RGPOT_SUCCESS w2"
      and g: "grows (set_block (brk w) (out_struct t e 0) ?w1) w2 G"
      and t: "tensor_rep (heap w2) t (forces_view n d) G" and d: "heap w2 d = Some (F64s fs)"
      by (auto simp: forces_delivered_def)
    note s = call_succeeds [where call = "rgpot_rpc_calculate E R cl ?q", OF ok run g t, of E]
    have "length fs = length xs" using Accept
      by (auto simp: remote_verdict_def judge_response_def judge_result_def split: sum.splits if_splits)
    then have l: "unat (n * 3) = length fs" using triple_atoms(2) [OF dat] by simp
    have nd: "d \<noteq> null" using world_ok_less [OF growsD(1) [OF g] d] by auto
    note acc = result_accessors [OF conjunct2 [OF conjunct2 [OF s]] d nd l]
    from s res.free_restores [of w w2 _ "brk w" _ E] acc Accept show ?thesis
      unfolding checked_calls by fastforce
  qed
qed

text \<open>
  C26: A remote calculation in C++.  For a valid configuration and a network that answers, the
  method returns the accepted energy and forces in a result whose destruction restores
  memory, and on every refusal it throws the core's message behind \<open>RPC error: \<close>, without
  leaking the result.
\<close>

theorem cpp_remote_calculation:
  assumes "world_ok w" and "heap w cl = Some (Rpc_client c)"
    and "spec_rep (heap w) (spec_input inp) (Some (n, p, a, b)) F" and "input_data (heap w) n p a b xs zs bs"
    and "quiet_network R N" "legal_answers N" and "length xs < max_list"
  shows "case remote_verdict R N (addr c) xs zs bs of
      Accept e fs \<Rightarrow> (\<exists>r w'. cpp_rpc_calculate E R cl inp w = Done (Inr r) w' \<and>
        CalcResult_energy r w' = Done e w' \<and> forces_vec r w' = Done fs w' \<and>
        CalcResult_dtor E r w' = Done () (w\<lparr>brk := brk w'\<rparr>))
    | Refuse msg oe \<Rightarrow> (\<exists>w'. cpp_rpc_calculate E R cl inp w =
        Done (Inl (''RPC error: '' @ stored_message (''rgpot_rpc_calculate: '' @ msg))) w' \<and> core_mem w' = core_mem w)"
  using assms by (rule cpp_rpc_judged)

theorem cpp_remote_calculation_witness:
  "\<exists>cl w1 inp w2 r w3. rgpot_rpc_client_new (lib_of (answering 7 [1, 2, 3, 4, 5, 6])) 4 80 (push (Cstr ''h'') sample_world) = Done cl w1 \<and>
     InputSpec_ctor plain_env 2 1 2 3 w1 = Done inp w2 \<and>
     cpp_rpc_calculate plain_env (lib_of (answering 7 [1, 2, 3, 4, 5, 6])) cl inp w2 = Done (Inr r) w3 \<and>
     CalcResult_energy r w3 = Done 7 w3 \<and> forces_vec r w3 = Done [1, 2, 3, 4, 5, 6] w3"
proof -
  let ?N = "answering 7 [1, 2, 3, 4, 5, 6]" and ?w0 = "push (Cstr ''h'') sample_world"
  let ?c = "\<lparr>runtime = 0, addr = show_addr ''h'' 80\<rparr>"
  let ?w1 = "push (Rpc_client ?c) ?w0" and ?cl = "brk ?w0"
  have ok0: "world_ok ?w0" using sample_world_ok by (rule world_ok_push)
  note g1 = grows_push [OF ok0, of "Rpc_client ?c"] and g0 = grows_push [OF sample_world_ok, of "Cstr ''h''"]
  note ok1 = growsD(1) [OF g1]
  have h: "heap ?w0 4 = Some (Cstr ''h'')" by (simp add: sample_world_def boot_world_def)
  have "to_str ''h'' = Inr ''h''" by (rule to_str_ascii) auto
  then have new: "rgpot_rpc_client_new (lib_of ?N) 4 80 ?w0 = Done ?cl ?w1"
    using client_new_cases [OF ok0, of "lib_of ?N" "Inr 0" 4 80] h by (simp add: lib_of_def)
  obtain q w2 F where c: "InputSpec_ctor plain_env 2 1 2 3 ?w1 = Done \<lparr>spec_n_atoms = 2, spec_input = q\<rparr> w2"
    and g2: "grows ?w1 w2 F" and spec: "spec_rep (heap w2) q (Some (2, 1, 2, 3)) F"
    using InputSpec_ctor_rep [OF ok1] by blast
  have cl: "heap w2 ?cl = Some (Rpc_client ?c)" by (rule grows_keeps [OF g2 ok1]) simp
  have dat: "input_data (heap w2) 2 1 2 3 sample_positions [29, 1] sample_box"
    by (intro input_data_grows [OF _ ok1 g2] input_data_grows [OF _ ok0 g1] input_data_grows [OF sample_data sample_world_ok g0])
  have "legal_answers ?N" by (simp add: legal_answers_def answering_def max_list_def)
  note spec' = cpp_remote_calculation [OF growsD(1) [OF g2] cl, of "\<lparr>spec_n_atoms = 2, spec_input = q\<rparr>", OF _ dat quiet_lib_of this, of F plain_env]
  have "remote_verdict (lib_of ?N) ?N (addr ?c) sample_positions [29, 1] sample_box = Accept 7 [1, 2, 3, 4, 5, 6]"
    by (simp add: remote_verdict_def answering_def judge_response_def judge_result_def sample_positions_def)
  with spec' spec obtain r w3 where "cpp_rpc_calculate plain_env (lib_of ?N) ?cl \<lparr>spec_n_atoms = 2, spec_input = q\<rparr> w2 = Done (Inr r) w3"
    "CalcResult_energy r w3 = Done 7 w3" "forces_vec r w3 = Done [1, 2, 3, 4, 5, 6] w3"
    by (auto simp: sample_positions_def max_list_def)
  with new c show ?thesis by blast
qed

text \<open>
  Constructing a client does not connect.  With a valid host name and a runtime, the constructor
  returns a client and never throws, whatever a connection attempt would do; when the core
  reports a failure, the exception carries the message of the core.
\<close>

theorem cpp_client_ctor:
  assumes ok: "world_ok w" and host: "heap w host = Some (Cstr s)" "host \<noteq> null"
    and rt: "runtime_new R = ret rr" "\<And>r. runtime_drop R r = ret ()"
  shows "case (to_str s, rr) of
      (Inr _, Inr r) \<Rightarrow> (\<exists>t w'. (\<forall>C. RpcClient_ctor (R\<lparr>tcp_connect := C\<rparr>) host port w = Done (Inr t) w') \<and>
          RpcClient_dtor R t w' = Done () (w\<lparr>brk := brk w'\<rparr>))
    | (Inr _, Inl e) \<Rightarrow> (\<exists>w'. RpcClient_ctor R host port w =
          Done (Inl (stored_message (''rgpot_rpc_client_new: failed to create tokio runtime: '' @ e))) w')
    | (Inl e, _) \<Rightarrow> (\<exists>w'. RpcClient_ctor R host port w =
          Done (Inl (stored_message (''rgpot_rpc_client_new: invalid host string: '' @ e))) w')"
proof -
  have fails: "\<exists>w'. RpcClient_ctor R host port w = Done (Inl (stored_message m)) w'"
    if run: "rgpot_rpc_client_new R host port w = Done null (record_error m w)" for m
  proof -
    obtain p where p: "rgpot_last_error (record_error m w) = Done p (record_error m w)"
      "load_cstr p (record_error m w) = Done (stored_message m) (record_error m w)"
      using read_back [OF ok] by blast
    have "p \<noteq> null" using p(2) world_ok_null [OF err.good_after [OF ok, of m]]
      by (cases "p = null") (simp_all add: load_cstr_def)
    with run p show ?thesis by (simp add: RpcClient_ctor_def bnd_def ret_def)
  qed
  have "\<exists>t w'. (\<forall>C. RpcClient_ctor (R\<lparr>tcp_connect := C\<rparr>) host port w = Done (Inr t) w') \<and>
      RpcClient_dtor R t w' = Done () (w\<lparr>brk := brk w'\<rparr>)" if "to_str s = Inr hs" "rr = Inr r" for hs r
  proof -
    let ?c = "\<lparr>runtime = r, addr = show_addr hs port\<rparr>" and ?t = "brk w"
    let ?w = "push (Rpc_client ?c) w"
    have t: "?t \<noteq> null" using world_ok_brk [OF ok] by simp
    have "rgpot_rpc_client_new (R\<lparr>tcp_connect := C\<rparr>) host port w = Done ?t ?w" for C
      using client_new_cases [OF ok, of "R\<lparr>tcp_connect := C\<rparr>" rr host port] rt(1) host that by simp
    moreover have "client_rep R (heap ?w) ?t ?c {?t}" using rt(2) t by (simp add: client_rep_def)
    from cli.free_restores [OF grows_push [OF ok] this]
    have "RpcClient_dtor R ?t ?w = Done () (w\<lparr>brk := brk ?w\<rparr>)" using t by (simp add: RpcClient_dtor_def)
    ultimately show ?thesis
      using t by (intro exI [of _ ?t] exI [of _ ?w]) (simp add: RpcClient_ctor_def bnd_def ret_def)
  qed
  with fails client_new_cases [OF ok rt(1), of host port] host show ?thesis
    by (auto split: sum.split)
qed

theorem cpp_client_ctor_witness:
  "\<exists>t w'. RpcClient_ctor (lib_of silent_net) 1 12345 (push (Cstr ''localhost'') boot_world) = Done (Inr t) w'"
proof -
  let ?w = "push (Cstr ''localhost'') boot_world" and ?R = "lib_of silent_net"
  have "heap ?w 1 = Some (Cstr ''localhost'')" by (simp add: boot_world_def)
  moreover have "to_str ''localhost'' = Inr ''localhost''" by (rule to_str_ascii) auto
  moreover have "runtime_new ?R = ret (Inr 0)" "\<And>r. runtime_drop ?R r = ret ()" by (simp_all add: lib_of_def)
  ultimately have "\<exists>t w'. \<forall>C. RpcClient_ctor (?R\<lparr>tcp_connect := C\<rparr>) 1 12345 ?w = Done (Inr t) w'"
    using cpp_client_ctor [OF world_ok_push [OF boot_world_ok, of "Cstr ''localhost''"], where host = 1 and s = "''localhost''"
        and R = ?R and rr = "Inr 0" and port = 12345] by auto
  then obtain t w' where "RpcClient_ctor (?R\<lparr>tcp_connect := tcp_connect ?R\<rparr>) 1 12345 ?w = Done (Inr t) w'" by blast
  then show ?thesis by auto
qed

end
