(* ===== verification/Rgpot_Raii.thy ===== *)
theory Rgpot_Raii
  imports Rgpot_Cpp
begin

text \<open>
  C++ programs over time: any interleaving of constructing, moving, assigning, using and destroying
  the objects of \<^verbatim>\<open>include/rgpot\<close>, as a transition system, with the invariant that the live objects
  own disjoint memory and account for everything the program allocated.
\<close>

section \<open>Objects and what they own\<close>

text \<open>The live objects: what each represents and the addresses it owns.\<close>

type_synonym 'v holding = "ptr \<rightharpoonup> 'v \<times> ptr set"

definition extent :: "'v holding \<Rightarrow> ptr set" where
  "extent \<sigma> = \<Union> {F. \<exists>t v. \<sigma> t = Some (v, F)}"

definition held :: "(mem \<Rightarrow> ptr \<Rightarrow> 'v \<Rightarrow> ptr set \<Rightarrow> bool) \<Rightarrow> mem \<Rightarrow> 'v holding \<Rightarrow> bool" where
  "held rep h \<sigma> \<longleftrightarrow> (\<forall>t v F. \<sigma> t = Some (v, F) \<longrightarrow> rep h t v F) \<and>
     (\<forall>t u v v' F F'. \<sigma> t = Some (v, F) \<longrightarrow> \<sigma> u = Some (v', F') \<longrightarrow> t \<noteq> u \<longrightarrow> F \<inter> F' = {})"

text \<open>They own everything that was not there at the start.\<close>

definition accounts :: "(mem \<Rightarrow> ptr \<Rightarrow> 'v \<Rightarrow> ptr set \<Rightarrow> bool) \<Rightarrow> world \<Rightarrow> 'v holding \<Rightarrow> world \<Rightarrow> bool" where
  "accounts rep w0 \<sigma> w \<longleftrightarrow> held rep (heap w) \<sigma> \<and> heap w |` (- extent \<sigma>) = heap w0 \<and>
     brk w0 \<le> brk w \<and> world_ok w"

lemma extent_member: "\<sigma> t = Some (v, F) \<Longrightarrow> F \<subseteq> extent \<sigma>"
  by (auto simp: extent_def)

lemma extent_iff: "p \<in> extent \<sigma> \<longleftrightarrow> (\<exists>t v F. \<sigma> t = Some (v, F) \<and> p \<in> F)"
  by (auto simp: extent_def)

lemma extent_split: "extent \<sigma> = extent (\<sigma> |` T) \<union> extent (\<sigma> |` (- T))"
  by (auto simp: extent_iff restrict_map_def split: if_splits) (metis | blast)+

lemma extent_empty [simp]: "extent Map.empty = {}"
  by (simp add: extent_def)

lemma extent_single [simp]: "extent [t \<mapsto> (v, F)] = F"
  by (auto simp: extent_def)

lemma extent_pair [simp]: "t \<noteq> u \<Longrightarrow> extent [t \<mapsto> (v, F), u \<mapsto> (v', F')] = F \<union> F'"
  unfolding extent_def by auto (metis+)?

lemma held_empty [simp]: "held rep h Map.empty"
  by (simp add: held_def)

lemma held_single [simp]: "held rep h [t \<mapsto> (v, F)] \<longleftrightarrow> rep h t v F"
  by (auto simp: held_def)

lemma held_pair:
  "t \<noteq> u \<Longrightarrow> rep h t v F \<Longrightarrow> rep h u v' F' \<Longrightarrow> F \<inter> F' = {} \<Longrightarrow> held rep h [t \<mapsto> (v, F), u \<mapsto> (v', F')]"
  by (auto simp: held_def split: if_splits)

lemma held_restrict: "held rep h \<sigma> \<Longrightarrow> held rep h (\<sigma> |` A)"
  by (auto simp: held_def restrict_map_def split: if_splits)

lemma held_split_disjoint: "held rep h \<sigma> \<Longrightarrow> extent (\<sigma> |` T) \<inter> extent (\<sigma> |` (- T)) = {}"
  unfolding held_def extent_def by (auto simp: restrict_map_def split: if_splits) blast

lemma accountsD:
  assumes "accounts rep w0 \<sigma> w" "\<sigma> q = Some (v, F)"
  shows "rep (heap w) q v F" "world_ok w" "extent (\<sigma> |` {q}) = F"
    and "\<sigma> r = Some (u, G) \<Longrightarrow> q \<noteq> r \<Longrightarrow> rep (heap w) r u G \<and> F \<inter> G = {} \<and> extent (\<sigma> |` {q, r}) = F \<union> G"
proof -
  show "rep (heap w) q v F" "world_ok w" using assms by (auto simp: accounts_def held_def)
  show "extent (\<sigma> |` {q}) = F" using assms(2) by (auto simp: extent_iff restrict_map_def split: if_splits)
  assume "\<sigma> r = Some (u, G)" "q \<noteq> r"
  moreover from this assms have "\<sigma> |` {q, r} = [q \<mapsto> (v, F), r \<mapsto> (u, G)]"
    by (auto simp: restrict_map_def fun_eq_iff)
  ultimately show "rep (heap w) r u G \<and> F \<inter> G = {} \<and> extent (\<sigma> |` {q, r}) = F \<union> G"
    using assms by (auto simp: accounts_def held_def)
qed

context resource
begin

lemma held_live: "held rep h \<sigma> \<Longrightarrow> p \<in> extent \<sigma> \<Longrightarrow> h p \<noteq> None \<and> \<not> is_cstr (h p)"
  unfolding held_def extent_iff using rep_live by blast

lemma held_frame: "held rep h \<sigma> \<Longrightarrow> (\<And>p. p \<in> extent \<sigma> \<Longrightarrow> h' p = h p) \<Longrightarrow> held rep h' \<sigma>"
  unfolding held_def using rep_frame extent_member by (metis subsetD)

lemma held_self: "held rep h \<sigma> \<Longrightarrow> t \<in> dom \<sigma> \<Longrightarrow> t \<in> extent \<sigma>"
  unfolding held_def extent_iff using rep_self by fastforce

lemma held_add:
  assumes s: "held rep h \<sigma>" and t: "held rep h \<tau>" and disj: "extent \<sigma> \<inter> extent \<tau> = {}"
  shows "held rep h (\<sigma> ++ \<tau>)" "extent (\<sigma> ++ \<tau>) = extent \<sigma> \<union> extent \<tau>"
proof -
  have dom: "dom \<sigma> \<inter> dom \<tau> = {}" using held_self [OF s] held_self [OF t] disj by blast
  then have add: "(\<sigma> ++ \<tau>) x = Some y \<longleftrightarrow> \<sigma> x = Some y \<or> \<tau> x = Some y" for x y
    by (cases "\<tau> x") (auto simp: map_add_def domI disjoint_iff)
  have cross: "F \<inter> F' = {}" if "\<sigma> x = Some (v, F)" "\<tau> y = Some (v', F')" for x y v v' F F'
    using extent_member [of \<sigma>, OF that(1)] extent_member [of \<tau>, OF that(2)] disj by blast
  show "held rep h (\<sigma> ++ \<tau>)" unfolding held_def add using s t cross by (auto simp: held_def) blast+
  show "extent (\<sigma> ++ \<tau>) = extent \<sigma> \<union> extent \<tau>" unfolding set_eq_iff Un_iff extent_iff add by blast
qed

text \<open>
  One step of the program: the objects \<open>T\<close> are replaced by \<open>\<tau>\<close>, which reuse their memory or
  fresh memory; what they no longer own is gone, everything else is untouched.
\<close>

lemma accounts_step:
  assumes inv: "accounts rep w0 \<sigma> w" and t: "held rep (heap w') \<tau>"
    and ext: "extent \<tau> \<subseteq> extent (\<sigma> |` T) \<union> {brk w..}"
    and same: "\<And>p. p \<notin> extent \<tau> \<Longrightarrow> p \<notin> extent (\<sigma> |` T) \<Longrightarrow> heap w' p = heap w p"
    and gone: "\<And>p. p \<in> extent (\<sigma> |` T) \<Longrightarrow> p \<notin> extent \<tau> \<Longrightarrow> heap w' p = None"
    and w': "brk w \<le> brk w'" "world_ok w'"
  shows "accounts rep w0 (\<sigma> |` (- T) ++ \<tau>) w'"
proof -
  let ?k = "\<sigma> |` (- T)"
  from inv have h: "held rep (heap w) \<sigma>" and m: "heap w |` (- extent \<sigma>) = heap w0"
    and b: "brk w0 \<le> brk w" "world_ok w" by (auto simp: accounts_def)
  have k: "held rep (heap w) ?k" using h by (rule held_restrict)
  have disj: "extent (\<sigma> |` T) \<inter> extent ?k = {}" using h by (rule held_split_disjoint)
  have low: "p < brk w" if "p \<in> extent ?k" for p
    using held_live [OF k that] world_ok_less [OF b(2)] by blast
  have kt: "extent ?k \<inter> extent \<tau> = {}" using ext disj low by fastforce
  have k': "held rep (heap w') ?k" using k by (rule held_frame) (use same kt disj in blast)
  note add = held_add [OF k' t kt]
  have "(heap w' |` (- extent (?k ++ \<tau>))) p = heap w0 p" for p
  proof (cases "p \<in> extent (?k ++ \<tau>)")
    case True
    then have "p \<in> extent \<sigma> \<or> brk w \<le> p" using add(2) ext extent_split [of \<sigma> T] by auto
    then have "(heap w |` (- extent \<sigma>)) p = None" using world_ok_fresh [OF b(2)] by (auto simp: restrict_map_def)
    with True show ?thesis by (simp add: m)
  next
    case False
    show ?thesis
    proof (cases "p \<in> extent (\<sigma> |` T)")
      case True
      with False gone have "heap w' p = None" by (simp add: add(2))
      moreover have "(heap w |` (- extent \<sigma>)) p = None" using True extent_split [of \<sigma> T] by auto
      ultimately show ?thesis using False by (simp add: m)
    next
      case out: False
      with False same have "heap w' p = heap w p" by (simp add: add(2))
      moreover have "p \<notin> extent \<sigma>" using out False extent_split [of \<sigma> T] add(2) by auto
      ultimately show ?thesis using False by (simp flip: m)
    qed
  qed
  then show ?thesis using add(1) b w' by (auto simp: accounts_def)
qed

lemma accounts_new:
  assumes inv: "accounts rep w0 \<sigma> w" and g: "grows w w' F" and r: "rep (heap w') q v F"
  shows "accounts rep w0 (\<sigma>(q \<mapsto> (v, F))) w'"
proof -
  have "accounts rep w0 (\<sigma> |` (- {}) ++ [q \<mapsto> (v, F)]) w'"
  proof (rule accounts_step [OF inv])
    have F: "F \<subseteq> {brk w..<brk w'}" by (rule growsD(6) [OF g])
    then show "extent [q \<mapsto> (v, F)] \<subseteq> extent (\<sigma> |` {}) \<union> {brk w..}" by auto
    show "heap w' p = heap w p" if "p \<notin> extent [q \<mapsto> (v, F)]" for p
      using growsD(5) [OF g] that by (metis Compl_iff extent_single restrict_in)
  qed (use r growsD(1,4) [OF g] in simp_all)
  then show ?thesis by simp
qed

text \<open>Two objects exchange what they own: a move or an assignment.\<close>

lemma accounts_pair:
  assumes inv: "accounts rep w0 \<sigma> w" and qr: "q \<noteq> r"
    and reps: "rep (heap w') q u A" "rep (heap w') r v B" "A \<inter> B = {}"
    and ext: "A \<union> B \<subseteq> extent (\<sigma> |` {q, r}) \<union> {brk w..}"
    and same: "\<And>p. p \<notin> A \<union> B \<Longrightarrow> p \<notin> extent (\<sigma> |` {q, r}) \<Longrightarrow> heap w' p = heap w p"
    and gone: "\<And>p. p \<in> extent (\<sigma> |` {q, r}) \<Longrightarrow> p \<notin> A \<union> B \<Longrightarrow> heap w' p = None"
    and w': "brk w \<le> brk w'" "world_ok w'"
  shows "accounts rep w0 (\<sigma>(q \<mapsto> (u, A), r \<mapsto> (v, B))) w'"
proof -
  have "accounts rep w0 (\<sigma> |` (- {q, r}) ++ [q \<mapsto> (u, A), r \<mapsto> (v, B)]) w'"
    by (rule accounts_step [OF inv held_pair [where rep = rep, OF qr reps]])
      (use ext same gone w' in \<open>simp_all only: extent_pair [OF qr]\<close>)
  moreover have "\<sigma> |` (- {q, r}) ++ [q \<mapsto> (u, A), r \<mapsto> (v, B)] = \<sigma>(q \<mapsto> (u, A), r \<mapsto> (v, B))"
    by (auto simp: map_add_def restrict_map_def fun_eq_iff)
  ultimately show ?thesis by simp
qed

lemma accounts_low:
  assumes inv: "accounts rep w0 \<sigma> w" and q: "\<sigma> q = Some (v, F)"
  shows "F \<subseteq> {..<brk w}" "q \<in> F" "heap w q \<noteq> None" "\<not> is_cstr (heap w q)"
proof -
  note r = accountsD(1,2) [OF inv q]
  show "F \<subseteq> {..<brk w}" using rep_live [OF r(1)] world_ok_less [OF r(2)] by fastforce
  show "q \<in> F" "heap w q \<noteq> None" "\<not> is_cstr (heap w q)" using rep_self [OF r(1)] rep_live [OF r(1)] by auto
qed

text \<open>
  The struct at \<open>q\<close> is copied to a new object and cleared, or copied over another object whose
  own parts were released.
\<close>

lemma accounts_moved:
  fixes b c :: block
  assumes inv: "accounts rep w0 \<sigma> w" and q: "\<sigma> q = Some (v, F)"
  defines "w' \<equiv> set_block q c (push b w)"
  assumes new: "rep (heap w') (brk w) v (insert (brk w) (F - {q}))" and old: "rep (heap w') q u {q}"
  shows "accounts rep w0 (\<sigma>(brk w \<mapsto> (v, insert (brk w) (F - {q})), q \<mapsto> (u, {q}))) w'"
proof -
  note low = accounts_low [OF inv q] and ok = accountsD(2) [OF inv q]
  have ne: "brk w \<noteq> q" "brk w \<notin> F" using low by auto
  have "\<sigma> (brk w) = None"
    using accounts_low [OF inv, of "brk w"] by (cases "\<sigma> (brk w)") auto
  then have "\<sigma> |` {brk w, q} = \<sigma> |` {q}" by (auto simp: restrict_map_def fun_eq_iff)
  then have T: "extent (\<sigma> |` {brk w, q}) = F" using accountsD(3) [OF inv q] by simp
  obtain d where d: "heap w q = Some d" using low(3) by auto
  have "world_ok w'" unfolding w'_def
    by (rule world_ok_set_block [OF world_ok_push [OF ok]]) (use d low ne in simp_all)
  then show ?thesis
    by (intro accounts_pair [OF inv ne(1) new old]) (use ne low(2) in \<open>auto simp: T w'_def\<close>)
qed

lemma accounts_assigned:
  fixes b c :: block
  assumes inv: "accounts rep w0 \<sigma> w" and q: "\<sigma> q = Some (v, F)" and r: "\<sigma> r = Some (u, G)" "q \<noteq> r"
  defines "w' \<equiv> set_block r c (set_block q b (drop_blocks (F - {q}) w))"
  assumes new: "rep (heap w') q u (insert q (G - {r}))" and old: "rep (heap w') r u' {r}"
  shows "accounts rep w0 (\<sigma>(q \<mapsto> (u, insert q (G - {r})), r \<mapsto> (u', {r}))) w'"
proof -
  note low = accounts_low [OF inv q] and low' = accounts_low [OF inv r(1)] and ok = accountsD(2) [OF inv q]
  have disj: "F \<inter> G = {}" and T: "extent (\<sigma> |` {q, r}) = F \<union> G" using accountsD(4) [OF inv q r] by auto
  have qr: "q \<notin> G" "r \<notin> F" using disj low(2) low'(2) by auto
  obtain d e where d: "heap w q = Some d" "heap w r = Some e" using low(3) low'(3) by auto
  have "world_ok (drop_blocks (F - {q}) w)"
    by (rule world_ok_drop [OF ok]) (use rep_live [OF accountsD(1) [OF inv q]] in blast)
  then have "world_ok (set_block q b (drop_blocks (F - {q}) w))"
    by (rule world_ok_set_block) (use d low in simp_all)
  then have "world_ok w'" unfolding w'_def
    by (rule world_ok_set_block) (use d low' qr r(2) in simp_all)
  then show ?thesis
    by (intro accounts_pair [OF inv r(2) new old, unfolded T])
      (use qr r(2) low(2) low'(2) disj in \<open>auto simp: w'_def restrict_map_def\<close>)
qed

lemma accounts_free:
  assumes inv: "accounts rep w0 \<sigma> w" and q: "q \<in> dom \<sigma>"
  shows "\<exists>w'. free_op q w = Done () w' \<and> accounts rep w0 (\<sigma>(q := None)) w'"
proof -
  from q obtain v F where s: "\<sigma> q = Some (v, F)" by auto
  with inv have r: "rep (heap w) q v F" and ok: "world_ok w" by (auto simp: accounts_def held_def)
  have T: "\<sigma> |` {q} = [q \<mapsto> (v, F)]" using s by (auto simp: restrict_map_def fun_eq_iff)
  have "accounts rep w0 (\<sigma> |` (- {q}) ++ Map.empty) (drop_blocks F w)"
  proof (rule accounts_step [OF inv])
    show "world_ok (drop_blocks F w)" by (rule world_ok_drop [OF ok]) (use rep_live [OF r] in blast)
  qed (simp_all add: T)
  moreover have "\<sigma> |` (- {q}) = \<sigma>(q := None)" by (simp add: clear_as_restrict)
  ultimately show ?thesis using free_rep [OF r] by auto
qed

lemma accounts_nothing_left: "accounts rep w0 Map.empty w \<Longrightarrow> heap w = heap w0"
  by (simp add: accounts_def)

end

section \<open>The objects of include/rgpot\<close>

datatype obj_view = Spec spec_view | Result result_view | Handle PotentialImpl

fun obj_rep :: "'x env_scheme \<Rightarrow> mem \<Rightarrow> ptr \<Rightarrow> obj_view \<Rightarrow> ptr set \<Rightarrow> bool" where
  "obj_rep E h t (Spec v) F = spec_rep h t v F"
| "obj_rep E h t (Result v) F = result_rep h t v F"
| "obj_rep E h t (Handle i) F = handle_rep E h t i F"

text \<open>The destructor of the object at an address, by its class.\<close>

definition obj_dtor :: "'x env_scheme \<Rightarrow> ptr \<Rightarrow> unit comp" where
  "obj_dtor E t w = (case heap w t of
      Some (Force_input _) \<Rightarrow> InputSpec_dtor E t w
    | Some (Force_out _) \<Rightarrow> CalcResult_dtor E t w
    | Some (Potential_impl _) \<Rightarrow> PotentialHandle_dtor E t w
    | _ \<Rightarrow> Undefined)"

interpretation obj: resource "obj_rep E" "obj_dtor E" for E
proof unfold_locales
  show "obj_rep E h' t v F" if "obj_rep E h t v F" "\<And>p. p \<in> F \<Longrightarrow> h' p = h p" for h h' t v F
    using that spec.rep_frame [of h t _ F h'] res.rep_frame [of h t _ F h'] pot.rep_frame [of E h t _ F h'] by (cases v) auto
  show "t \<in> F \<and> t \<noteq> null" if "obj_rep E h t v F" for h t v F
    using that spec.rep_self [of h t _ F] res.rep_self [of h t _ F] pot.rep_self [of E h t _ F] by (cases v) auto
  show "h p \<noteq> None \<and> \<not> is_cstr (h p)" if "obj_rep E h t v F" "p \<in> F" for h t v F p
    using that spec.rep_live [of h t _ F p] res.rep_live [of h t _ F p] pot.rep_live [of E h t _ F p] by (cases v) auto
  show "obj_dtor E t w = Undefined" if "t \<noteq> null" "heap w t = None" for t w
    using that by (simp add: obj_dtor_def)
  show "obj_dtor E t w = Done () (drop_blocks F w)" if "obj_rep E (heap w) t v F" for w t v F
  proof (cases v)
    case (Spec s)
    with that have r: "spec_rep (heap w) t s F" by simp
    then obtain i where "heap w t = Some (Force_input i)" by (auto simp: spec_rep_def split: option.splits)
    with spec.free_rep [OF r, of E] show ?thesis by (simp add: obj_dtor_def)
  next
    case (Result s)
    with that have r: "result_rep (heap w) t s F" by simp
    then obtain i where "heap w t = Some (Force_out i)" by (auto simp: result_rep_def split: option.splits prod.splits)
    with res.free_rep [OF r, of E] show ?thesis by (simp add: obj_dtor_def)
  next
    case (Handle i)
    with that have "handle_rep E (heap w) t i F" by simp
    with pot.free_rep [OF this] show ?thesis by (auto simp: obj_dtor_def PotentialHandle_dtor_def handle_rep_def)
  qed
qed

section \<open>Moves and assignments\<close>

lemma spec_released:
  assumes "spec_rep (heap w) q v F"
  shows "rgpot_force_input_free E q w = Done () (set_block q (Force_input no_input) (drop_blocks (F - {q}) w))"
proof (cases v)
  case None
  with assms have q: "q \<noteq> null" "heap w q = Some (Force_input no_input)" "F = {q}" by (auto simp: spec_rep_def)
  with force_input_free_cleared [OF q(2,1), of E] show ?thesis by (simp add: drop_blocks_def)
next
  case (Some x)
  then obtain n p a b where v: "v = Some (n, p, a, b)" by (cases x) simp
  with assms obtain i G where q: "q \<noteq> null" "heap w q = Some (Force_input i)" "input_rep (heap w) i n p a b G" "q \<notin> G"
    and F: "F = insert q G" by (auto simp: spec_rep_def)
  with force_input_free_rep [OF q(3,2,1,4), of E] show ?thesis by simp
qed

lemma forces_released:
  assumes "result_rep (heap w) r v F"
  shows "release_forces E r w = Done () (drop_blocks (F - {r}) w)"
proof -
  obtain e x ov where v: "v = (e, x, ov)" by (cases v)
  show ?thesis
  proof (cases ov)
    case None
    with assms v show ?thesis by (simp add: result_rep_def release_forces_def exec drop_blocks_def)
  next
    case (Some tv)
    with assms v obtain t G where r: "heap w r = Some (out_struct t e x)" "tensor_rep (heap w) t tv G" "r \<notin> G" "F = insert r G"
      by (auto simp: result_rep_def)
    with tens.free_rep [OF r(2), of E] tens.rep_self [OF r(2)] show ?thesis
      by (simp add: release_forces_def bnd_def load_out_def)
  qed
qed

text \<open>
  The struct of an object, written to another address while the rest it owns stays: the
  object lives there now.
\<close>

lemma spec_rep_transfer:
  assumes r: "spec_rep h r v F" and i: "h r = Some (Force_input i)"
    and h': "h' q = Some (Force_input i)" "q \<noteq> null" "q \<notin> F - {r}" "\<And>p. p \<in> F - {r} \<Longrightarrow> h' p = h p"
  shows "spec_rep h' q v (insert q (F - {r}))"
proof (cases v)
  case (Some x)
  then obtain n p a b where v: "v = Some (n, p, a, b)" by (cases x) simp
  with r i obtain G where g: "input_rep h i n p a b G" "r \<notin> G" "F = insert r G" by (auto simp: spec_rep_def)
  from g(1) have "input_rep h' i n p a b G" by (rule input_rep_frame) (use h'(4) g in auto)
  with g h' show ?thesis by (auto simp: v spec_rep_def)
qed (use assms in \<open>auto simp: spec_rep_def\<close>)

lemma result_rep_transfer:
  assumes r: "result_rep h r v F" and i: "h r = Some (Force_out i)"
    and h': "h' q = Some (Force_out i)" "q \<noteq> null" "q \<notin> F - {r}" "\<And>p. p \<in> F - {r} \<Longrightarrow> h' p = h p"
  shows "result_rep h' q v (insert q (F - {r}))"
proof -
  obtain e x ov where v: "v = (e, x, ov)" by (cases v)
  show ?thesis
  proof (cases ov)
    case (Some tv)
    with r i v obtain t G where g: "i = \<lparr>forces = t, energy = e, variance = x\<rparr>" "tensor_rep h t tv G" "r \<notin> G" "F = insert r G"
      by (auto simp: result_rep_def)
    from g(2) have "tensor_rep h' t tv G" by (rule tens.rep_frame) (use h'(4) g in auto)
    with g h' show ?thesis by (auto simp: v Some result_rep_def)
  qed (use assms v in \<open>auto simp: result_rep_def\<close>)
qed

lemma spec_struct: "spec_rep h q v F \<Longrightarrow> \<exists>i. h q = Some (Force_input i) \<and> q \<noteq> null \<and> q \<in> F"
  by (auto simp: spec_rep_def split: option.splits)

lemma result_struct: "result_rep h r v F \<Longrightarrow> \<exists>i. h r = Some (Force_out i) \<and> r \<noteq> null \<and> r \<in> F"
  by (auto simp: result_rep_def split: option.splits prod.splits)

lemma cleared_result: "h r = Some (Force_out (i\<lparr>forces := null\<rparr>)) \<Longrightarrow> r \<noteq> null \<Longrightarrow>
    result_rep h r (energy i, variance i, None) {r}"
  by (cases i) (simp add: result_rep_def)

lemma spec_move_step:
  assumes inv: "accounts (obj_rep E) w0 \<sigma> w" and q: "\<sigma> q = Some (Spec v, F)"
  shows "\<exists>r w' A. InputSpec_move \<lparr>spec_n_atoms = n, spec_input = q\<rparr> w = Done \<lparr>spec_n_atoms = n, spec_input = r\<rparr> w' \<and>
     accounts (obj_rep E) w0 (\<sigma>(r \<mapsto> (Spec v, A), q \<mapsto> (Spec None, {q}))) w'"
proof -
  have rep: "spec_rep (heap w) q v F" and ok: "world_ok w" using accountsD(1,2) [OF inv q] by simp_all
  obtain i where i: "heap w q = Some (Force_input i)" "q \<noteq> null" using spec_struct [OF rep] by blast
  have lt: "q \<noteq> brk w" "brk w \<notin> F" using obj.accounts_low(1,2) [OF inv q] by auto
  let ?w' = "set_block q (Force_input no_input) (push (Force_input i) w)"
  have "InputSpec_move \<lparr>spec_n_atoms = n, spec_input = q\<rparr> w = Done \<lparr>spec_n_atoms = n, spec_input = brk w\<rparr> ?w'"
    using i lt by (cases i) (simp add: InputSpec_move_def exec)
  moreover have "accounts (obj_rep E) w0 (\<sigma>(brk w \<mapsto> (Spec v, insert (brk w) (F - {q})), q \<mapsto> (Spec None, {q}))) ?w'"
  proof (rule obj.accounts_moved [OF inv q])
    show "obj_rep E (heap ?w') (brk w) (Spec v) (insert (brk w) (F - {q}))"
      unfolding obj_rep.simps by (rule spec_rep_transfer [OF rep i(1)]) (use world_ok_brk [OF ok] lt in auto)
  qed (use i in \<open>simp add: spec_rep_def\<close>)
  ultimately show ?thesis by blast
qed

lemma result_move_step:
  assumes inv: "accounts (obj_rep E) w0 \<sigma> w" and q: "\<sigma> q = Some (Result v, F)"
  shows "\<exists>r w' A u. CalcResult_move q w = Done r w' \<and>
     accounts (obj_rep E) w0 (\<sigma>(r \<mapsto> (Result v, A), q \<mapsto> (Result u, {q}))) w'"
proof -
  have rep: "result_rep (heap w) q v F" and ok: "world_ok w" using accountsD(1,2) [OF inv q] by simp_all
  obtain i where i: "heap w q = Some (Force_out i)" "q \<noteq> null" using result_struct [OF rep] by blast
  have lt: "q \<noteq> brk w" "brk w \<notin> F" using obj.accounts_low(1,2) [OF inv q] by auto
  let ?w' = "set_block q (Force_out (i\<lparr>forces := null\<rparr>)) (push (Force_out i) w)"
  have "CalcResult_move q w = Done (brk w) ?w'" using i lt by (simp add: CalcResult_move_def exec)
  moreover have "accounts (obj_rep E) w0 (\<sigma>(brk w \<mapsto> (Result v, insert (brk w) (F - {q})),
      q \<mapsto> (Result (energy i, variance i, None), {q}))) ?w'"
  proof (rule obj.accounts_moved [OF inv q])
    show "obj_rep E (heap ?w') (brk w) (Result v) (insert (brk w) (F - {q}))"
      unfolding obj_rep.simps by (rule result_rep_transfer [OF rep i(1)]) (use world_ok_brk [OF ok] lt in auto)
  qed (use i in \<open>simp add: cleared_result\<close>)
  ultimately show ?thesis by blast
qed

lemma spec_assign_step:
  assumes inv: "accounts (obj_rep E) w0 \<sigma> w" and q: "\<sigma> q = Some (Spec v, F)" and r: "\<sigma> r = Some (Spec u, G)" "q \<noteq> r"
  shows "\<exists>w' A. InputSpec_move_assign E \<lparr>spec_n_atoms = n, spec_input = q\<rparr> \<lparr>spec_n_atoms = m, spec_input = r\<rparr> w =
       Done \<lparr>spec_n_atoms = m, spec_input = q\<rparr> w' \<and>
     accounts (obj_rep E) w0 (\<sigma>(q \<mapsto> (Spec u, A), r \<mapsto> (Spec None, {r}))) w'"
proof -
  have q': "spec_rep (heap w) q v F" and r': "spec_rep (heap w) r u G" and disj: "F \<inter> G = {}"
    using accountsD(1) [OF inv q] accountsD(4) [OF inv q r] by auto
  obtain i where i: "heap w r = Some (Force_input i)" "r \<noteq> null" "r \<in> G" using spec_struct [OF r'] by blast
  have qn: "q \<noteq> null" "q \<in> F" using spec_struct [OF q'] by auto
  have rF: "r \<notin> F" "q \<notin> G" using disj i qn by auto
  let ?w' = "set_block r (Force_input no_input) (set_block q (Force_input i) (drop_blocks (F - {q}) w))"
  have "InputSpec_move_assign E \<lparr>spec_n_atoms = n, spec_input = q\<rparr> \<lparr>spec_n_atoms = m, spec_input = r\<rparr> w =
      Done \<lparr>spec_n_atoms = m, spec_input = q\<rparr> ?w'"
    using spec_released [OF q', of E] r(2) i rF by (cases i) (simp add: InputSpec_move_assign_def exec)
  moreover have "accounts (obj_rep E) w0 (\<sigma>(q \<mapsto> (Spec u, insert q (G - {r})), r \<mapsto> (Spec None, {r}))) ?w'"
  proof (rule obj.accounts_assigned [OF inv q r])
    show "obj_rep E (heap ?w') q (Spec u) (insert q (G - {r}))"
      unfolding obj_rep.simps
      by (rule spec_rep_transfer [OF r' i(1)]) (use qn rF r(2) disj in \<open>auto simp: restrict_map_def\<close>)
  qed (use i in \<open>simp add: spec_rep_def\<close>)
  ultimately show ?thesis by blast
qed

lemma result_assign_step:
  assumes inv: "accounts (obj_rep E) w0 \<sigma> w" and q: "\<sigma> q = Some (Result v, F)" and r: "\<sigma> r = Some (Result u, G)" "q \<noteq> r"
  shows "\<exists>w' A u'. CalcResult_move_assign E q r w = Done () w' \<and>
     accounts (obj_rep E) w0 (\<sigma>(q \<mapsto> (Result u, A), r \<mapsto> (Result u', {r}))) w'"
proof -
  have q': "result_rep (heap w) q v F" and r': "result_rep (heap w) r u G" and disj: "F \<inter> G = {}"
    using accountsD(1) [OF inv q] accountsD(4) [OF inv q r] by auto
  obtain i where i: "heap w r = Some (Force_out i)" "r \<noteq> null" "r \<in> G" using result_struct [OF r'] by blast
  obtain j where qn: "heap w q = Some (Force_out j)" "q \<noteq> null" "q \<in> F" using result_struct [OF q'] by blast
  have rF: "r \<notin> F" "q \<notin> G" using disj i qn by auto
  let ?w' = "set_block r (Force_out (i\<lparr>forces := null\<rparr>)) (set_block q (Force_out i) (drop_blocks (F - {q}) w))"
  have "CalcResult_move_assign E q r w = Done () ?w'"
    using forces_released [OF q', of E] r(2) i rF qn by (simp add: CalcResult_move_assign_def exec)
  moreover have "accounts (obj_rep E) w0 (\<sigma>(q \<mapsto> (Result u, insert q (G - {r})),
      r \<mapsto> (Result (energy i, variance i, None), {r}))) ?w'"
  proof (rule obj.accounts_assigned [OF inv q r])
    show "obj_rep E (heap ?w') q (Result u) (insert q (G - {r}))"
      unfolding obj_rep.simps
      by (rule result_rep_transfer [OF r' i(1)]) (use qn rF r(2) disj in \<open>auto simp: restrict_map_def\<close>)
  qed (use i in \<open>simp add: cleared_result\<close>)
  ultimately show ?thesis by blast
qed

section \<open>Programs\<close>

datatype cls = Input_spec | Calc_result | Potential_handle

fun class_of :: "obj_view \<Rightarrow> cls" where
  "class_of (Spec _) = Input_spec"
| "class_of (Result _) = Calc_result"
| "class_of (Handle _) = Potential_handle"

text \<open>
  Ready for a calculation: a handle on a potential that meets the contract of callbacks, as the
  copper-hydrogen potential behind the trampoline does, and an input over the caller's
  arrays, with a configuration the potential is made for.
\<close>

definition ready :: "'x env_scheme \<Rightarrow> ptr \<Rightarrow> InputSpec \<Rightarrow> world \<Rightarrow> bool" where
  "ready E h inp w \<longleftrightarrow> (\<exists>f ud ff good en va fo n p a b xs zs bs F.
     heap w h = Some (Potential_impl \<lparr>callback = f, user_data = ud, free_fn = ff\<rparr>) \<and>
     potential_callback E f ud good en va fo \<and>
     spec_rep (heap w) (spec_input inp) (Some (n, p, a, b)) F \<and> input_data (heap w) n p a b xs zs bs \<and>
     good xs zs bs)"

lemma ready_cuh2:
  assumes "heap w h = Some (Potential_impl \<lparr>callback = f, user_data = ud, free_fn = ff\<rparr>)"
    and "callback_code E f = trampoline_callback E' (\<lambda>_. CuH2Pot_forceImpl eam)"
    and "spec_rep (heap w) (spec_input inp) (Some (n, p, a, b)) F" "input_data (heap w) n p a b xs zs bs"
    and "cuh2_good eam xs zs bs"
  shows "ready E h inp w"
proof -
  have "zs \<noteq> []" using assms(5) by (auto simp: cuh2_good_def)
  with trampoline_contract [OF cuh2.legacy_impl_axioms assms(2), of ud] assms show ?thesis
    unfolding ready_def by blast
qed

text \<open>
  The programs: any sequence of constructions, moves, assignments, calculations and
  destructions, each of a live object of the right class.  The state is the live objects with
  their classes, and the world.
\<close>

inductive raii :: "'x env_scheme \<Rightarrow> world \<Rightarrow> (ptr \<rightharpoonup> cls) \<Rightarrow> world \<Rightarrow> bool" for E w0 where
  start: "world_ok w0 \<Longrightarrow> raii E w0 Map.empty w0"
| new_spec: "raii E w0 V w \<Longrightarrow> InputSpec_ctor E n p a b w = Done inp w' \<Longrightarrow> raii E w0 (V(spec_input inp \<mapsto> Input_spec)) w'"
| new_result: "raii E w0 V w \<Longrightarrow> CalcResult_ctor w = Done r w' \<Longrightarrow> raii E w0 (V(r \<mapsto> Calc_result)) w'"
| new_handle: "raii E w0 V w \<Longrightarrow> from_impl f ud w = Done h w' \<Longrightarrow> raii E w0 (V(h \<mapsto> Potential_handle)) w'"
| move_spec: "raii E w0 V w \<Longrightarrow> V (spec_input inp) = Some Input_spec \<Longrightarrow> InputSpec_move inp w = Done inp' w' \<Longrightarrow>
    raii E w0 (V(spec_input inp' \<mapsto> Input_spec)) w'"
| move_result: "raii E w0 V w \<Longrightarrow> V r = Some Calc_result \<Longrightarrow> CalcResult_move r w = Done r' w' \<Longrightarrow>
    raii E w0 (V(r' \<mapsto> Calc_result)) w'"
| assign_spec: "raii E w0 V w \<Longrightarrow> V (spec_input s) = Some Input_spec \<Longrightarrow> V (spec_input inp) = Some Input_spec \<Longrightarrow>
    InputSpec_move_assign E s inp w = Done s' w' \<Longrightarrow> raii E w0 V w'"
| assign_result: "raii E w0 V w \<Longrightarrow> V s = Some Calc_result \<Longrightarrow> V r = Some Calc_result \<Longrightarrow>
    CalcResult_move_assign E s r w = Done () w' \<Longrightarrow> raii E w0 V w'"
| calculate: "raii E w0 V w \<Longrightarrow> V h = Some Potential_handle \<Longrightarrow> V (spec_input inp) = Some Input_spec \<Longrightarrow>
    ready E h inp w \<Longrightarrow> PotentialHandle_calculate E h inp w = Done (Inr r) w' \<Longrightarrow> raii E w0 (V(r \<mapsto> Calc_result)) w'"
| assign_handle: "raii E w0 V w \<Longrightarrow> V h = Some Potential_handle \<Longrightarrow> k = null \<or> V k = Some Potential_handle \<Longrightarrow> h \<noteq> k \<Longrightarrow>
    PotentialHandle_move_assign E False h k w = Done (k, null) w' \<Longrightarrow> raii E w0 (V(h := None)) w'"
| destroy: "raii E w0 V w \<Longrightarrow> V t = Some c \<Longrightarrow> obj_dtor E t w = Done () w' \<Longrightarrow> raii E w0 (V(t := None)) w'"

definition classes :: "obj_view holding \<Rightarrow> ptr \<rightharpoonup> cls" where
  "classes \<sigma> t = map_option (\<lambda>(v, _). class_of v) (\<sigma> t)"

lemma classes_simps [simp]:
  "classes Map.empty = Map.empty" "classes (\<sigma>(t \<mapsto> (v, F))) = (classes \<sigma>)(t \<mapsto> class_of v)"
  "classes (\<sigma>(t := None)) = (classes \<sigma>)(t := None)" "dom (classes \<sigma>) = dom \<sigma>"
  by (auto simp: classes_def fun_eq_iff)

lemma classesE:
  "classes \<sigma> t = Some Input_spec \<Longrightarrow> (\<And>v F. \<sigma> t = Some (Spec v, F) \<Longrightarrow> P) \<Longrightarrow> P"
  "classes \<sigma> t = Some Calc_result \<Longrightarrow> (\<And>v F. \<sigma> t = Some (Result v, F) \<Longrightarrow> P) \<Longrightarrow> P"
  "classes \<sigma> t = Some Potential_handle \<Longrightarrow> (\<And>i F. \<sigma> t = Some (Handle i, F) \<Longrightarrow> P) \<Longrightarrow> P"
  by (auto simp: classes_def elim!: class_of.elims)

lemma classes_keep: "classes \<sigma> t = Some c \<Longrightarrow> class_of v = c \<Longrightarrow> classes (\<sigma>(t \<mapsto> (v, F))) = classes \<sigma>"
  by (auto simp: fun_eq_iff)

text \<open>Construction of the three classes, and a calculation.\<close>

lemma CalcResult_ctor_rep:
  assumes ok: "world_ok w" and run: "CalcResult_ctor w = Done r w'"
  shows "grows w w' {r} \<and> result_rep (heap w') r (0, 0, None) {r}"
proof -
  have "r = brk w" "w' = push (out_struct null 0 0) w"
    using run by (auto simp: CalcResult_ctor_def rgpot_force_out_create_def exec)
  with grows_push [OF ok] world_ok_brk [OF ok] show ?thesis by (simp add: result_rep_def)
qed

lemma from_impl_rep:
  assumes ok: "world_ok w" and run: "from_impl f ud w = Done h w'"
  shows "grows w w' {h} \<and> handle_rep E (heap w') h \<lparr>callback = f, user_data = ud, free_fn = None\<rparr> {h}"
proof -
  have "h = brk w" "w' = push (Potential_impl \<lparr>callback = f, user_data = ud, free_fn = None\<rparr>) w"
    using run by (auto simp: from_impl_def rgpot_potential_new_def PotentialImpl_new_def exec)
  with grows_push [OF ok] world_ok_brk [OF ok] show ?thesis by (simp add: handle_rep_def owned_user_data_def)
qed

lemma ready_calculates:
  assumes ok: "world_ok w" and rdy: "ready E h inp w"
  shows "\<exists>r w' v G. PotentialHandle_calculate E h inp w = Done (Inr r) w' \<and> grows w w' G \<and> result_rep (heap w') r v G"
proof -
  from rdy obtain f ud ff good en va fo n p a b xs zs bs F where
    pot: "heap w h = Some (Potential_impl \<lparr>callback = f, user_data = ud, free_fn = ff\<rparr>)" and
    con: "potential_callback E f ud good en va fo" and
    spec: "spec_rep (heap w) (spec_input inp) (Some (n, p, a, b)) F" and dat: "input_data (heap w) n p a b xs zs bs" and
    good: "good xs zs bs" unfolding ready_def by blast
  from potential_callback.handle_calculates [OF con ok pot spec dat good] show ?thesis by blast
qed

text \<open>The invariant: the live objects own disjoint memory and all that was allocated.\<close>

definition tracked :: "'x env_scheme \<Rightarrow> world \<Rightarrow> (ptr \<rightharpoonup> cls) \<Rightarrow> world \<Rightarrow> bool" where
  "tracked E w0 V w \<longleftrightarrow> (\<exists>\<sigma>. accounts (obj_rep E) w0 \<sigma> w \<and> classes \<sigma> = V)"

lemma tracked_ok: "tracked E w0 V w \<Longrightarrow> world_ok w"
  by (auto simp: tracked_def accounts_def)

lemma tracked_new:
  assumes "tracked E w0 V w" "grows w w' F" "obj_rep E (heap w') q v F" "class_of v = c"
  shows "tracked E w0 (V(q \<mapsto> c)) w'"
proof -
  from assms(1) obtain \<sigma> where "accounts (obj_rep E) w0 \<sigma> w" "classes \<sigma> = V" by (auto simp: tracked_def)
  with obj.accounts_new [OF this(1) assms(2,3)] assms(4) show ?thesis
    unfolding tracked_def by (intro exI [of _ "\<sigma>(q \<mapsto> (v, F))"]) simp
qed

lemma tracked_pair:
  assumes "accounts (obj_rep E) w0 (\<sigma>(q \<mapsto> (u, A), r \<mapsto> (v, B))) w'" "classes \<sigma> r = Some c" "class_of v = c" "class_of u = c"
  shows "tracked E w0 ((classes \<sigma>)(q \<mapsto> c)) w'"
proof -
  have "classes (\<sigma>(q \<mapsto> (u, A), r \<mapsto> (v, B))) = (classes \<sigma>)(q \<mapsto> c)"
    using assms(2-4) by (auto simp: fun_eq_iff)
  with assms(1) show ?thesis unfolding tracked_def by blast
qed

lemma tracked_move_spec:
  assumes "tracked E w0 V w" "V q = Some Input_spec"
  shows "\<exists>r w'. InputSpec_move \<lparr>spec_n_atoms = n, spec_input = q\<rparr> w = Done \<lparr>spec_n_atoms = n, spec_input = r\<rparr> w' \<and>
     tracked E w0 (V(r \<mapsto> Input_spec)) w'"
proof -
  from assms obtain \<sigma> v F where s: "accounts (obj_rep E) w0 \<sigma> w" "classes \<sigma> = V" "\<sigma> q = Some (Spec v, F)"
    by (auto simp: tracked_def elim: classesE)
  from spec_move_step [OF s(1,3), of n] obtain r w' A where
    "InputSpec_move \<lparr>spec_n_atoms = n, spec_input = q\<rparr> w = Done \<lparr>spec_n_atoms = n, spec_input = r\<rparr> w'"
    "accounts (obj_rep E) w0 (\<sigma>(r \<mapsto> (Spec v, A), q \<mapsto> (Spec None, {q}))) w'" by blast
  with tracked_pair [OF this(2), of Input_spec] assms(2) s(2) show ?thesis by auto
qed

lemma tracked_move_result:
  assumes "tracked E w0 V w" "V q = Some Calc_result"
  shows "\<exists>r w'. CalcResult_move q w = Done r w' \<and> tracked E w0 (V(r \<mapsto> Calc_result)) w'"
proof -
  from assms obtain \<sigma> v F where s: "accounts (obj_rep E) w0 \<sigma> w" "classes \<sigma> = V" "\<sigma> q = Some (Result v, F)"
    by (auto simp: tracked_def elim: classesE)
  from result_move_step [OF s(1,3)] obtain r w' A u where "CalcResult_move q w = Done r w'"
    "accounts (obj_rep E) w0 (\<sigma>(r \<mapsto> (Result v, A), q \<mapsto> (Result u, {q}))) w'" by blast
  with tracked_pair [OF this(2), of Calc_result] assms(2) s(2) show ?thesis by auto
qed

lemma tracked_assign_spec:
  assumes tr: "tracked E w0 V w" and V: "V q = Some Input_spec" "V r = Some Input_spec"
  shows "\<exists>w'. InputSpec_move_assign E \<lparr>spec_n_atoms = n, spec_input = q\<rparr> \<lparr>spec_n_atoms = m, spec_input = r\<rparr> w =
       Done \<lparr>spec_n_atoms = (if q = r then n else m), spec_input = q\<rparr> w' \<and> tracked E w0 V w'"
proof (cases "q = r")
  case True
  with tr show ?thesis by (simp add: InputSpec_move_assign_def ret_def)
next
  case False
  from assms obtain \<sigma> v F u G where s: "accounts (obj_rep E) w0 \<sigma> w" "classes \<sigma> = V" "\<sigma> q = Some (Spec v, F)"
    "\<sigma> r = Some (Spec u, G)" by (auto simp: tracked_def elim!: classesE)
  from spec_assign_step [OF s(1,3,4) False, of n m] obtain w' A where
    "InputSpec_move_assign E \<lparr>spec_n_atoms = n, spec_input = q\<rparr> \<lparr>spec_n_atoms = m, spec_input = r\<rparr> w =
       Done \<lparr>spec_n_atoms = m, spec_input = q\<rparr> w'"
    "accounts (obj_rep E) w0 (\<sigma>(q \<mapsto> (Spec u, A), r \<mapsto> (Spec None, {r}))) w'" by blast
  with tracked_pair [OF this(2), of Input_spec] V s(2) False show ?thesis by (auto simp: fun_upd_idem)
qed

lemma tracked_assign_result:
  assumes tr: "tracked E w0 V w" and V: "V q = Some Calc_result" "V r = Some Calc_result"
  shows "\<exists>w'. CalcResult_move_assign E q r w = Done () w' \<and> tracked E w0 V w'"
proof (cases "q = r")
  case True
  with tr show ?thesis by (simp add: CalcResult_move_assign_def ret_def)
next
  case False
  from assms obtain \<sigma> v F u G where s: "accounts (obj_rep E) w0 \<sigma> w" "classes \<sigma> = V" "\<sigma> q = Some (Result v, F)"
    "\<sigma> r = Some (Result u, G)" by (auto simp: tracked_def elim!: classesE)
  from result_assign_step [OF s(1,3,4) False] obtain w' A u' where "CalcResult_move_assign E q r w = Done () w'"
    "accounts (obj_rep E) w0 (\<sigma>(q \<mapsto> (Result u, A), r \<mapsto> (Result u', {r}))) w'" by blast
  with tracked_pair [OF this(2), of Calc_result] V s(2) show ?thesis by (auto simp: fun_upd_idem)
qed

lemma tracked_destroy:
  assumes "tracked E w0 V w" "t \<in> dom V"
  shows "\<exists>w'. obj_dtor E t w = Done () w' \<and> tracked E w0 (V(t := None)) w'"
proof -
  from assms(1) obtain \<sigma> where s: "accounts (obj_rep E) w0 \<sigma> w" "classes \<sigma> = V" by (auto simp: tracked_def)
  then have "t \<in> dom \<sigma>" using assms(2) by (metis classes_simps(4))
  from obj.accounts_free [OF s(1) this] obtain w' where "obj_dtor E t w = Done () w'"
    "accounts (obj_rep E) w0 (\<sigma>(t := None)) w'" by blast
  with s(2) show ?thesis unfolding tracked_def by (intro exI [of _ w'] conjI exI [of _ "\<sigma>(t := None)"]) simp_all
qed

text \<open>Move assignment of a handle frees the one on the left.\<close>

lemma tracked_assign_handle:
  assumes "tracked E w0 V w" "V h = Some Potential_handle"
  shows "\<exists>w'. PotentialHandle_move_assign E False h k w = Done (k, null) w' \<and> tracked E w0 (V(h := None)) w'"
proof -
  from assms obtain \<sigma> i F where s: "accounts (obj_rep E) w0 \<sigma> w" "classes \<sigma> = V" "\<sigma> h = Some (Handle i, F)"
    by (auto simp: tracked_def elim: classesE)
  have "heap w h = Some (Potential_impl i)" "h \<noteq> null" using accountsD(1) [OF s(1,3)] by (simp_all add: handle_rep_def)
  then have "rgpot_potential_free E h w = obj_dtor E h w" by (simp add: obj_dtor_def PotentialHandle_dtor_def)
  moreover obtain w' where "obj_dtor E h w = Done () w'" "tracked E w0 (V(h := None)) w'"
    using tracked_destroy [OF assms(1), of h] assms(2) by blast
  ultimately show ?thesis
    using \<open>h \<noteq> null\<close> by (intro exI [of _ w']) (simp add: PotentialHandle_move_assign_def bnd_def ret_def)
qed

lemma tracked_destroy_all:
  "tracked E w0 V w \<Longrightarrow> distinct ts \<Longrightarrow> set ts = dom V \<Longrightarrow> \<exists>w'. free_all (obj_dtor E) ts w = Done () w' \<and> heap w' = heap w0"
proof (induction ts arbitrary: V w)
  case Nil
  then obtain \<sigma> where s: "accounts (obj_rep E) w0 \<sigma> w" "classes \<sigma> = V" by (auto simp: tracked_def)
  then have "dom \<sigma> = {}" using Nil by (metis classes_simps(4) empty_set)
  with s(1) obj.accounts_nothing_left [of E w0 w] show ?case by (auto simp: ret_def)
next
  case (Cons t ts)
  then have "t \<in> dom V" by (metis list.set_intros(1))
  with tracked_destroy [OF Cons.prems(1)] obtain w' where
    d: "obj_dtor E t w = Done () w'" "tracked E w0 (V(t := None)) w'" by blast
  have "set ts = dom (V(t := None))" using Cons.prems by auto
  from Cons.IH [OF d(2) _ this] Cons.prems d(1) show ?case by (auto simp: bnd_def)
qed

lemma raii_tracked: "raii E w0 V w \<Longrightarrow> tracked E w0 V w"
proof (induction rule: raii.induct)
  case start
  then have "accounts (obj_rep E) w0 Map.empty w0" by (simp add: accounts_def)
  then show ?case unfolding tracked_def by (intro exI [of _ Map.empty]) simp
next
  case (new_spec V w n p a b inp w')
  then obtain F where "grows w w' F" "spec_rep (heap w') (spec_input inp) (Some (n, p, a, b)) F"
    using InputSpec_ctor_rep [OF tracked_ok, of E w0 V w E n p a b] by auto
  then show ?case by (intro tracked_new [OF new_spec.IH, where v = "Spec (Some (n, p, a, b))"]) simp_all
next
  case (new_result V w r w')
  from CalcResult_ctor_rep [OF tracked_ok [OF new_result.IH] new_result(2)] show ?case
    by (intro tracked_new [OF new_result.IH, where F = "{r}" and v = "Result (0, 0, None)"]) simp_all
next
  case (new_handle V w f ud h w')
  from from_impl_rep [OF tracked_ok [OF new_handle.IH] new_handle(2), of E] show ?case
    by (intro tracked_new [OF new_handle.IH, where F = "{h}" and v = "Handle \<lparr>callback = f, user_data = ud, free_fn = None\<rparr>"]) simp_all
next
  case (move_spec V w inp inp' w')
  from tracked_move_spec [OF move_spec.IH move_spec(2), of "spec_n_atoms inp"] move_spec(3) show ?case
    by (cases inp) (auto simp: fun_upd_def)
next
  case (move_result V w r r' w')
  from tracked_move_result [OF move_result.IH move_result(2)] move_result(3) show ?case
    by (auto simp: fun_upd_def)
next
  case (assign_spec V w s inp s' w')
  from tracked_assign_spec [OF assign_spec.IH assign_spec(2,3), of "spec_n_atoms s" "spec_n_atoms inp"] assign_spec(4)
  show ?case by (cases s; cases inp) auto
next
  case (assign_result V w s r w')
  from tracked_assign_result [OF assign_result.IH assign_result(2,3)] assign_result(4) show ?case by auto
next
  case (calculate V w h inp r w')
  then obtain v G where "grows w w' G" "result_rep (heap w') r v G"
    using ready_calculates [OF tracked_ok [OF calculate.IH] calculate(4)] by auto
  then show ?case by (intro tracked_new [OF calculate.IH, where v = "Result v"]) simp_all
next
  case (assign_handle V w h k w')
  from tracked_assign_handle [OF assign_handle.IH assign_handle(2), of k] assign_handle(5) show ?case
    by (auto simp: fun_upd_def)
next
  case (destroy V w t c w')
  from tracked_destroy [OF destroy.IH, of t] destroy(2,3) show ?case
    by (auto simp: fun_upd_def)
qed

text \<open>
  C21: Ownership in C++ programs.  Whatever sequence of constructions, moves, assignments, successful
  calculations and destructions a program has run: destroying the live objects, in any
  order, never frees a block twice and leaves memory exactly as it was before the program; and
  every further destruction, every move of an input or a result, every move assignment of
  inputs, results and handles, also from an object that was moved from and, for inputs and
  results, of an object to itself, and every calculation of a potential that meets the contract
  on a configuration it is made for runs without undefined behaviour and keeps these
  guarantees.  Calculations that throw are not steps of these programs.
\<close>

theorem raii_safe:
  assumes run: "raii E w0 V w"
  shows "(\<forall>ts. distinct ts \<and> set ts = dom V \<longrightarrow>
        (\<exists>w'. free_all (obj_dtor E) ts w = Done () w' \<and> heap w' = heap w0)) \<and>
     (\<forall>t. V t \<noteq> None \<longrightarrow> (\<exists>w'. obj_dtor E t w = Done () w' \<and> raii E w0 (V(t := None)) w')) \<and>
     (\<forall>q n. V q = Some Input_spec \<longrightarrow> (\<exists>r w'. InputSpec_move \<lparr>spec_n_atoms = n, spec_input = q\<rparr> w =
        Done \<lparr>spec_n_atoms = n, spec_input = r\<rparr> w' \<and> raii E w0 (V(r \<mapsto> Input_spec)) w')) \<and>
     (\<forall>q r n m. V q = Some Input_spec \<and> V r = Some Input_spec \<longrightarrow>
        (\<exists>s w'. InputSpec_move_assign E \<lparr>spec_n_atoms = n, spec_input = q\<rparr> \<lparr>spec_n_atoms = m, spec_input = r\<rparr> w =
        Done s w' \<and> raii E w0 V w')) \<and>
     (\<forall>q. V q = Some Calc_result \<longrightarrow> (\<exists>r w'. CalcResult_move q w = Done r w' \<and> raii E w0 (V(r \<mapsto> Calc_result)) w')) \<and>
     (\<forall>q r. V q = Some Calc_result \<and> V r = Some Calc_result \<longrightarrow>
        (\<exists>w'. CalcResult_move_assign E q r w = Done () w' \<and> raii E w0 V w')) \<and>
     (\<forall>h inp. V h = Some Potential_handle \<and> V (spec_input inp) = Some Input_spec \<and> ready E h inp w \<longrightarrow>
        (\<exists>r w'. PotentialHandle_calculate E h inp w = Done (Inr r) w' \<and> raii E w0 (V(r \<mapsto> Calc_result)) w')) \<and>
     (\<forall>h k. V h = Some Potential_handle \<and> (k = null \<or> V k = Some Potential_handle) \<and> h \<noteq> k \<longrightarrow>
        (\<exists>w'. PotentialHandle_move_assign E False h k w = Done (k, null) w' \<and> raii E w0 (V(h := None)) w'))"
proof (intro conjI allI impI; (elim conjE)?)
  note tr = raii_tracked [OF run]
  show "\<exists>w'. free_all (obj_dtor E) ts w = Done () w' \<and> heap w' = heap w0" if "distinct ts" "set ts = dom V" for ts
    by (rule tracked_destroy_all [OF tr that])
  show "\<exists>w'. obj_dtor E t w = Done () w' \<and> raii E w0 (V(t := None)) w'" if "V t \<noteq> None" for t
    using tracked_destroy [OF tr] raii.destroy [OF run] that by blast
  show "\<exists>r w'. InputSpec_move \<lparr>spec_n_atoms = n, spec_input = q\<rparr> w = Done \<lparr>spec_n_atoms = n, spec_input = r\<rparr> w' \<and>
      raii E w0 (V(r \<mapsto> Input_spec)) w'" if "V q = Some Input_spec" for q n
    using tracked_move_spec [OF tr that, of n] raii.move_spec [OF run, of "\<lparr>spec_n_atoms = n, spec_input = q\<rparr>"] that by fastforce
  show "\<exists>s w'. InputSpec_move_assign E \<lparr>spec_n_atoms = n, spec_input = q\<rparr> \<lparr>spec_n_atoms = m, spec_input = r\<rparr> w =
      Done s w' \<and> raii E w0 V w'" if "V q = Some Input_spec" "V r = Some Input_spec" for q r n m
    using tracked_assign_spec [OF tr that, of n m] raii.assign_spec [OF run, of "\<lparr>spec_n_atoms = n, spec_input = q\<rparr>"
        "\<lparr>spec_n_atoms = m, spec_input = r\<rparr>"] that by fastforce
  show "\<exists>r w'. CalcResult_move q w = Done r w' \<and> raii E w0 (V(r \<mapsto> Calc_result)) w'" if "V q = Some Calc_result" for q
    using tracked_move_result [OF tr that] raii.move_result [OF run that] by blast
  show "\<exists>w'. CalcResult_move_assign E q r w = Done () w' \<and> raii E w0 V w'"
    if "V q = Some Calc_result" "V r = Some Calc_result" for q r
    using tracked_assign_result [OF tr that] raii.assign_result [OF run that] by blast
  show "\<exists>r w'. PotentialHandle_calculate E h inp w = Done (Inr r) w' \<and> raii E w0 (V(r \<mapsto> Calc_result)) w'"
    if "V h = Some Potential_handle" "V (spec_input inp) = Some Input_spec" "ready E h inp w" for h inp
    using ready_calculates [OF tracked_ok [OF tr] that(3)] raii.calculate [OF run that] by blast
  show "\<exists>w'. PotentialHandle_move_assign E False h k w = Done (k, null) w' \<and> raii E w0 (V(h := None)) w'"
    if "V h = Some Potential_handle" "k = null \<or> V k = Some Potential_handle" "h \<noteq> k" for h k
    using tracked_assign_handle [OF tr that(1)] raii.assign_handle [OF run that] by blast
qed


theorem raii_safe_witness:
  "\<exists>V w. raii plain_env boot_world V w \<and> V 3 = Some Calc_result \<and>
     (\<exists>w'. free_all (obj_dtor plain_env) [3, 1, 2] w = Done () w' \<and> heap w' = heap boot_world)"
proof -
  have run: "\<exists>w'. CalcResult_ctor w = Done (brk w) w' \<and> brk w' = Suc (brk w)" for w
    by (simp add: CalcResult_ctor_def rgpot_force_out_create_def exec)
  have start: "raii plain_env boot_world Map.empty boot_world" by (rule raii.start) simp
  obtain w1 where w1: "CalcResult_ctor boot_world = Done 1 w1" "brk w1 = 2"
    using run [of boot_world] by (auto simp: boot_world_def)
  from raii.new_result [OF start w1(1)] have r1: "raii plain_env boot_world [1 \<mapsto> Calc_result] w1" .
  obtain w2 where w2: "CalcResult_ctor w1 = Done 2 w2" "brk w2 = 3" using run [of w1] w1(2) by auto
  from raii.new_result [OF r1 w2(1)] have r2: "raii plain_env boot_world [1 \<mapsto> Calc_result, 2 \<mapsto> Calc_result] w2" .
  obtain w3 where w3: "CalcResult_ctor w2 = Done 3 w3" using run [of w2] w2(2) by auto
  let ?V = "[1 \<mapsto> Calc_result, 2 \<mapsto> Calc_result, 3 \<mapsto> Calc_result] :: ptr \<rightharpoonup> cls"
  from raii.new_result [OF r2 w3] have r3: "raii plain_env boot_world ?V w3" .
  obtain w4 where "CalcResult_move_assign plain_env 1 3 w3 = Done () w4" "raii plain_env boot_world ?V w4"
    using raii_safe [OF r3, THEN conjunct2, THEN conjunct2, THEN conjunct2, THEN conjunct2, THEN conjunct2,
        THEN conjunct1, rule_format, of 1 3] by auto
  moreover from this have "\<exists>w'. free_all (obj_dtor plain_env) [3, 1, 2] w4 = Done () w' \<and> heap w' = heap boot_world"
    using raii_safe [of plain_env boot_world ?V w4, THEN conjunct1, rule_format, of "[3, 1, 2]"] by auto
  ultimately show ?thesis by (intro exI [of _ ?V] exI [of _ w4]) simp
qed

end
