(* ===== verification/Rgpot_Registry.thy ===== *)
theory Rgpot_Registry
  imports Rgpot_Prelude
begin

text \<open>
  \<^verbatim>\<open>CppCore/rgpot/PotHelpers.hpp\<close>: the registry every C++ potential inherits from.  Its
  live instances form a doubly linked list through the objects themselves, with the head,
  the number of instances and the number of force calls as static members.
\<close>

section \<open>Definitions\<close>

record reg_node =
  prev :: ptr
  next_node :: ptr

record registry =
  nodes :: "ptr \<rightharpoonup> reg_node"
  count :: usize
  forceCalls :: usize
  head :: ptr

definition registry_statics :: registry where
  "registry_statics = \<lparr>nodes = Map.empty, count = 0, forceCalls = 0, head = null\<rparr>"

text \<open>
  An assignment through a pointer to an instance; \<open>None\<close> is undefined behaviour, the
  access to an object that does not exist.
\<close>

definition update_node :: "ptr \<Rightarrow> (reg_node \<Rightarrow> reg_node) \<Rightarrow> registry \<Rightarrow> registry option" where
  "update_node p f s = (case nodes s p of
      None \<Rightarrow> None
    | Some n \<Rightarrow> Some (s\<lparr>nodes := (nodes s)(p \<mapsto> f n)\<rparr>))"

definition registry_ctor :: "ptr \<Rightarrow> registry \<Rightarrow> registry option" where
  "registry_ctor self s =
     (let s = s\<lparr>count := count s + 1\<rparr>;
          nxt = head s;
          s = s\<lparr>nodes := (nodes s)(self \<mapsto> \<lparr>prev = null, next_node = nxt\<rparr>)\<rparr>;
          s = s\<lparr>head := self\<rparr>
      in if nxt \<noteq> null then update_node nxt (\<lambda>n. n\<lparr>prev := head s\<rparr>) s else Some s)"

definition registry_copy_ctor :: "ptr \<Rightarrow> ptr \<Rightarrow> registry \<Rightarrow> registry option" where
  "registry_copy_ctor self other s =
     (let s = s\<lparr>count := count s + 1\<rparr>;
          nxt = head s;
          s = s\<lparr>nodes := (nodes s)(self \<mapsto> \<lparr>prev = null, next_node = nxt\<rparr>)\<rparr>;
          s = s\<lparr>head := self\<rparr>
      in if nxt \<noteq> null then update_node nxt (\<lambda>n. n\<lparr>prev := head s\<rparr>) s else Some s)"

definition registry_dtor :: "ptr \<Rightarrow> registry \<Rightarrow> registry option" where
  "registry_dtor self s = (case nodes s self of
      None \<Rightarrow> None
    | Some this \<Rightarrow>
        let s = s\<lparr>count := count s - 1\<rparr> in
        Option.bind (if prev this \<noteq> null
              then update_node (prev this) (\<lambda>n. n\<lparr>next_node := next_node this\<rparr>) s else Some s) (\<lambda>s.
        Option.bind (if next_node this \<noteq> null
              then update_node (next_node this) (\<lambda>n. n\<lparr>prev := prev this\<rparr>) s else Some s) (\<lambda>s.
        let s = (if head s = self then s\<lparr>head := next_node this\<rparr> else s)
        in Some (s\<lparr>nodes := (nodes s)(self := None)\<rparr>))))"

definition incrementForceCalls :: "registry \<Rightarrow> registry" where
  "incrementForceCalls s = s\<lparr>forceCalls := forceCalls s + 1\<rparr>"

text \<open>
  The class declares no assignment operator, so the implicit one copies the members,
  the two links among them.
\<close>

definition registry_assign :: "ptr \<Rightarrow> ptr \<Rightarrow> registry \<Rightarrow> registry option" where
  "registry_assign self other s = (case nodes s other of
      None \<Rightarrow> None
    | Some o_node \<Rightarrow> update_node self (\<lambda>n. n\<lparr>prev := prev o_node, next_node := next_node o_node\<rparr>) s)"

section \<open>Linked segments\<close>

text \<open>
  \<open>seg ns p h e l xs\<close>: the objects \<open>xs\<close> are linked from \<open>h\<close> to \<open>e\<close>; \<open>p\<close> is what precedes
  the first, \<open>l\<close> is the last of them.
\<close>

fun seg :: "(ptr \<rightharpoonup> reg_node) \<Rightarrow> ptr \<Rightarrow> ptr \<Rightarrow> ptr \<Rightarrow> ptr \<Rightarrow> ptr list \<Rightarrow> bool" where
  "seg ns p h e l [] \<longleftrightarrow> h = e \<and> l = p"
| "seg ns p h e l (x # xs) \<longleftrightarrow> h = x \<and> x \<noteq> null \<and>
     (case ns x of None \<Rightarrow> False | Some n \<Rightarrow> prev n = p \<and> seg ns x (next_node n) e l xs)"

lemma seg_append:
  "seg ns p h e l (xs @ ys) \<longleftrightarrow> (\<exists>m k. seg ns p h m k xs \<and> seg ns k m e l ys)"
  by (induction xs arbitrary: p h) (auto split: option.split)

lemma seg_frame:
  "(\<And>x. x \<in> set xs \<Longrightarrow> ns' x = ns x) \<Longrightarrow> seg ns' p h e l xs = seg ns p h e l xs"
  by (induction xs arbitrary: p h) (auto split: option.split)

lemma seg_live: "seg ns p h e l xs \<Longrightarrow> x \<in> set xs \<Longrightarrow> x \<noteq> null \<and> ns x \<noteq> None"
  by (induction xs arbitrary: p h) (auto split: option.splits)

text \<open>Changing what follows the last object, and what precedes the first.\<close>

lemma seg_set_last:
  assumes "seg ns p h e l (xs @ [k])" "k \<notin> set xs" "ns k = Some n"
  shows "seg (ns(k \<mapsto> n\<lparr>next_node := e'\<rparr>)) p h e' k (xs @ [k]) \<and> l = k"
proof -
  from assms obtain m j where a: "seg ns p h m j xs" and b: "seg ns j m e l [k]"
    by (auto simp: seg_append)
  have "seg (ns(k \<mapsto> n\<lparr>next_node := e'\<rparr>)) p h m j xs"
    using a assms(2) by (subst seg_frame [where ns = ns]) auto
  with b assms(3) show ?thesis by (auto simp: seg_append)
qed

lemma seg_set_first:
  assumes "seg ns p h e l (x # xs)" "x \<notin> set xs" "ns x = Some n"
  shows "seg (ns(x \<mapsto> n\<lparr>prev := p'\<rparr>)) p' h e l (x # xs)"
proof -
  from assms have "seg (ns(x \<mapsto> n\<lparr>prev := p'\<rparr>)) x (next_node n) e l xs"
    by (subst seg_frame [where ns = ns]) auto
  with assms show ?thesis by simp
qed

text \<open>The links of the object at a position.\<close>

lemma seg_nth:
  assumes "seg ns p h e l xs" "i < length xs"
  shows "ns (xs ! i) = Some \<lparr>prev = (if i = 0 then p else xs ! (i - 1)),
     next_node = (if Suc i < length xs then xs ! Suc i else e)\<rparr>"
  using assms
proof (induction xs arbitrary: p h i)
  case (Cons x xs)
  then obtain n where n: "ns x = Some n" "prev n = p" "seg ns x (next_node n) e l xs" by (auto split: option.splits)
  show ?case
  proof (cases i)
    case 0
    have "next_node n = (if xs = [] then e else hd xs)" using n(3) by (cases xs) simp_all
    with n 0 show ?thesis by (cases n) (auto simp: hd_conv_nth)
  next
    case (Suc j)
    with Cons.IH [OF n(3), of j] Cons.prems(2) show ?thesis by (auto simp: nth_Cons split: nat.split)
  qed
qed simp

section \<open>The invariant\<close>

definition registered :: "ptr list \<Rightarrow> registry \<Rightarrow> bool" where
  "registered xs s \<longleftrightarrow> distinct xs \<and> dom (nodes s) = set xs \<and> count s = word_of_nat (length xs) \<and>
     (\<exists>l. seg (nodes s) null (head s) null l xs)"

lemma registered_empty: "registered [] registry_statics"
  by (simp add: registered_def registry_statics_def)

lemma ctor_registered:
  assumes inv: "registered xs s" and x: "x \<noteq> null" "x \<notin> set xs"
  shows "\<exists>s'. registry_ctor x s = Some s' \<and> registered (x # xs) s' \<and> forceCalls s' = forceCalls s"
proof (cases xs)
  case Nil
  with inv x show ?thesis by (auto simp: registered_def registry_ctor_def)
next
  case (Cons y ys)
  from inv obtain l where l: "seg (nodes s) null (head s) null l xs" by (auto simp: registered_def)
  with Cons obtain n where y: "head s = y" "y \<noteq> null" "nodes s y = Some n" by (auto split: option.splits)
  let ?ns = "(nodes s)(x \<mapsto> \<lparr>prev = null, next_node = y\<rparr>)"
  have ne: "x \<noteq> y" "y \<notin> set ys" using x inv Cons by (auto simp: registered_def)
  have "seg ?ns null y null l xs" using l x y by (subst seg_frame [where ns = "nodes s"]) auto
  then have "seg (?ns(y \<mapsto> n\<lparr>prev := x\<rparr>)) x y null l xs"
    using ne y unfolding Cons by (intro seg_set_first) auto
  then have "seg (?ns(y \<mapsto> n\<lparr>prev := x\<rparr>)) null x null l (x # xs)" using ne x by simp
  moreover have "registry_ctor x s = Some (s\<lparr>count := count s + 1, nodes := ?ns(y \<mapsto> n\<lparr>prev := x\<rparr>), head := x\<rparr>)"
    using y ne by (simp add: registry_ctor_def update_node_def Let_def)
  ultimately show ?thesis using inv x Cons by (auto simp: registered_def)
qed

text \<open>The destructor unlinks an object anywhere in the list.\<close>

definition relinked :: "(ptr \<rightharpoonup> reg_node) \<Rightarrow> ptr \<Rightarrow> ptr \<Rightarrow> ptr \<rightharpoonup> reg_node" where
  "relinked ns k m =
     (let ns = (if k \<noteq> null then ns(k := map_option (\<lambda>n. n\<lparr>next_node := m\<rparr>) (ns k)) else ns)
      in if m \<noteq> null then ns(m := map_option (\<lambda>n. n\<lparr>prev := k\<rparr>) (ns m)) else ns)"

lemma relinked_None [simp]: "relinked ns k m y = None \<longleftrightarrow> ns y = None"
  by (simp add: relinked_def Let_def)

lemma dom_relinked [simp]: "dom (relinked ns k m) = dom ns"
  by (auto simp: dom_def simp flip: not_None_eq)

lemma relinked_links:
  "c \<noteq> m \<Longrightarrow> map_option prev (relinked ns k m c) = map_option prev (ns c)"
  "c \<noteq> k \<Longrightarrow> map_option next_node (relinked ns k m c) = map_option next_node (ns c)"
  by (simp_all add: relinked_def Let_def option.map_comp comp_def)

lemma dtor_relinks:
  assumes "nodes s x = Some \<lparr>prev = k, next_node = m\<rparr>" "k \<noteq> null \<Longrightarrow> nodes s k \<noteq> None"
    "m \<noteq> null \<Longrightarrow> nodes s m \<noteq> None"
  shows "registry_dtor x s = Some (s\<lparr>count := count s - 1, nodes := (relinked (nodes s) k m)(x := None),
     head := (if head s = x then m else head s)\<rparr>)"
  using assms by (auto simp: registry_dtor_def relinked_def update_node_def Let_def)

lemma seg_ends:
  assumes "seg ns p h e l xs"
  shows "xs = [] \<Longrightarrow> h = e \<and> l = p" and "xs \<noteq> [] \<Longrightarrow> h = hd xs \<and> l = last xs"
proof -
  show "xs = [] \<Longrightarrow> h = e \<and> l = p" using assms by simp
  show "xs \<noteq> [] \<Longrightarrow> h = hd xs \<and> l = last xs"
    using assms by (induction xs arbitrary: p h) (auto split: option.splits)
qed

lemma seg_relinked_left:
  assumes "seg ns null h x k as" "distinct as" "m \<notin> set as" "x \<notin> set as"
  shows "seg ((relinked ns k m)(x := None)) null (if as = [] then m else h) m k as"
proof (cases as rule: rev_cases)
  case Nil
  with assms(1) show ?thesis by simp
next
  case (snoc bs b)
  from seg_ends(2) [OF assms(1)] snoc have k: "k = b" by simp
  from seg_live [OF assms(1), of b] snoc obtain n where n: "b \<noteq> null" "ns b = Some n" by auto
  have "seg (ns(b \<mapsto> n\<lparr>next_node := m\<rparr>)) null h m b as"
    using seg_set_last [of ns null h x k bs b n m] assms(1,2) snoc n by auto
  moreover have "((relinked ns k m)(x := None)) y = (ns(b \<mapsto> n\<lparr>next_node := m\<rparr>)) y" if "y \<in> set as" for y
    using that assms(3,4) k n by (auto simp: relinked_def Let_def)
  ultimately have "seg ((relinked ns k m)(x := None)) null h m b as"
    by (subst seg_frame [where ns = "ns(b \<mapsto> n\<lparr>next_node := m\<rparr>)"]) auto
  with snoc k show ?thesis by simp
qed

lemma seg_relinked_right:
  assumes "seg ns x m null l bs" "distinct bs" "k \<notin> set bs" "x \<notin> set bs"
  shows "\<exists>l'. seg ((relinked ns k m)(x := None)) k m null l' bs"
proof (cases bs)
  case Nil
  with assms(1) show ?thesis by simp
next
  case (Cons b cs)
  from assms(1) Cons obtain n where n: "m = b" "b \<noteq> null" "ns b = Some n" by (auto split: option.splits)
  have "seg (ns(b \<mapsto> n\<lparr>prev := k\<rparr>)) k m null l bs"
    using seg_set_first [of ns x m null l b cs n k] assms(1,2) Cons n by auto
  moreover have "((relinked ns k m)(x := None)) y = (ns(b \<mapsto> n\<lparr>prev := k\<rparr>)) y" if "y \<in> set bs" for y
    using that assms(3,4) n by (auto simp: relinked_def Let_def)
  ultimately show ?thesis
    by (intro exI [of _ l]) (subst seg_frame [where ns = "ns(b \<mapsto> n\<lparr>prev := k\<rparr>)"], auto)
qed

lemma dtor_registered:
  assumes inv: "registered (as @ x # bs) s"
  shows "\<exists>s'. registry_dtor x s = Some s' \<and> registered (as @ bs) s' \<and> forceCalls s' = forceCalls s"
proof -
  from inv have d: "distinct (as @ x # bs)" and dm: "dom (nodes s) = set (as @ x # bs)"
    and c: "count s = word_of_nat (length (as @ x # bs))" by (auto simp: registered_def)
  from inv obtain m0 k l where a: "seg (nodes s) null (head s) m0 k as"
    and b: "seg (nodes s) k m0 null l (x # bs)" by (auto simp: registered_def seg_append)
  from b obtain n where n: "m0 = x" "x \<noteq> null" "nodes s x = Some n" "prev n = k"
    and b': "seg (nodes s) x (next_node n) null l bs" by (auto split: option.splits)
  let ?m = "next_node n" and ?ns = "(relinked (nodes s) k (next_node n))(x := None)"
  have k: "k = (if as = [] then null else last as)" using seg_ends [OF a] by auto
  have m: "?m = (if bs = [] then null else hd bs)" using seg_ends [OF b'] by auto
  have notin: "?m \<notin> set as" "k \<notin> set bs" "null \<notin> set as" "null \<notin> set bs"
    using d k m seg_live [OF a] seg_live [OF b'] by (auto dest: hd_in_set last_in_set)
  have "nodes s x = Some \<lparr>prev = k, next_node = ?m\<rparr>" using n by (cases n) simp
  moreover have "k \<noteq> null \<Longrightarrow> nodes s k \<noteq> None" "?m \<noteq> null \<Longrightarrow> nodes s ?m \<noteq> None"
    using k m seg_live [OF a, of k] seg_live [OF b', of ?m] by (auto split: if_splits)
  ultimately have run: "registry_dtor x s = Some (s\<lparr>count := count s - 1, nodes := ?ns,
     head := (if head s = x then ?m else head s)\<rparr>)" by (rule dtor_relinks)
  have h: "(if head s = x then ?m else head s) = (if as = [] then ?m else head s)"
    using seg_ends [OF a] n(1) d by (auto dest: hd_in_set)
  have sa: "seg ?ns null (if as = [] then ?m else head s) ?m k as"
    using a d notin n(1) by (intro seg_relinked_left) auto
  obtain l' where sb: "seg ?ns k ?m null l' bs"
    using seg_relinked_right [OF b'] d notin by auto
  have "dom ?ns = set (as @ bs)" using d dm by auto
  then have "registered (as @ bs) (s\<lparr>count := count s - 1, nodes := ?ns,
     head := (if head s = x then ?m else head s)\<rparr>)"
    unfolding registered_def h using d c sa sb by (auto simp: seg_append)
  with run show ?thesis by simp
qed

section \<open>Lives of potentials\<close>

text \<open>
  \<open>lives xs n s\<close>: by constructing, copying and destroying potentials in any order, with \<open>n\<close>
  force calls, the statics \<open>s\<close> are reached, and the live objects are \<open>xs\<close>, the newest first.
\<close>

inductive lives :: "ptr list \<Rightarrow> nat \<Rightarrow> registry \<Rightarrow> bool" where
  program_start: "lives [] 0 registry_statics"
| construct: "lives xs n s \<Longrightarrow> x \<noteq> null \<Longrightarrow> x \<notin> set xs \<Longrightarrow> registry_ctor x s = Some s' \<Longrightarrow> lives (x # xs) n s'"
| copy: "lives xs n s \<Longrightarrow> x \<noteq> null \<Longrightarrow> x \<notin> set xs \<Longrightarrow> y \<in> set xs \<Longrightarrow>
     registry_copy_ctor x y s = Some s' \<Longrightarrow> lives (x # xs) n s'"
| destroy: "lives (xs @ x # ys) n s \<Longrightarrow> registry_dtor x s = Some s' \<Longrightarrow> lives (xs @ ys) n s'"
| force_call: "lives xs n s \<Longrightarrow> x \<in> set xs \<Longrightarrow> lives xs (Suc n) (incrementForceCalls s)"

lemma copy_ctor_eq: "registry_copy_ctor x y = registry_ctor x"
  by (rule ext) (simp add: registry_copy_ctor_def registry_ctor_def)

lemma lives_registered: "lives xs n s \<Longrightarrow> registered xs s \<and> forceCalls s = word_of_nat n"
proof (induction rule: lives.induct)
  case program_start
  show ?case using registered_empty by (simp add: registry_statics_def)
next
  case (construct xs n s x s')
  with ctor_registered [of xs s x] show ?case by auto
next
  case (copy xs n s x y s')
  with ctor_registered [of xs s x] show ?case by (auto simp: copy_ctor_eq)
next
  case (destroy xs x ys n s s')
  with dtor_registered [of xs x ys s] show ?case by auto
next
  case (force_call xs n s x)
  then show ?case by (simp add: incrementForceCalls_def registered_def)
qed

text \<open>
  C29: The registry of potentials.  However potentials are constructed, copied and destroyed,
  the doubly linked list through them holds exactly the live ones, newest first, with both
  links right; the instance and call counters are their numbers modulo \<open>2 ^ 64\<close>.  A new
  object can always be constructed and every live one destroyed, without access to an
  object that does not exist.
\<close>

theorem registry_tracks_live:
  assumes "lives xs n s"
  shows "registered xs s \<and> forceCalls s = word_of_nat n \<and>
     (\<forall>x. x \<noteq> null \<and> x \<notin> set xs \<longrightarrow> (\<exists>s'. registry_ctor x s = Some s' \<and> lives (x # xs) n s')) \<and>
     (\<forall>as x bs. xs = as @ x # bs \<longrightarrow> (\<exists>s'. registry_dtor x s = Some s' \<and> lives (as @ bs) n s'))"
proof -
  note inv = lives_registered [OF assms]
  have "\<exists>s'. registry_ctor x s = Some s' \<and> lives (x # xs) n s'" if "x \<noteq> null" "x \<notin> set xs" for x
    using ctor_registered [of xs s x] inv that lives.construct [OF assms that] by auto
  moreover have "\<exists>s'. registry_dtor x s = Some s' \<and> lives (as @ bs) n s'" if "xs = as @ x # bs" for as x bs
    using dtor_registered [of as x bs s] inv that lives.destroy [of as x bs n s] assms by auto
  ultimately show ?thesis using inv by blast
qed

lemma three_lives: "\<exists>s. lives [30, 10] 1 s \<and> head s = 30"
proof -
  obtain s1 where 1: "registry_ctor 10 registry_statics = Some s1" "registered [10] s1"
    using ctor_registered [OF registered_empty, of 10] by auto
  obtain s2 where 2: "registry_copy_ctor 20 10 s1 = Some s2" "registered [20, 10] s2"
    using ctor_registered [OF 1(2), of 20] by (auto simp: copy_ctor_eq)
  obtain s3 where 3: "registry_ctor 30 (incrementForceCalls s2) = Some s3" "registered [30, 20, 10] s3"
    using ctor_registered [of "[20, 10]" "incrementForceCalls s2" 30] 2(2)
    by (auto simp: registered_def incrementForceCalls_def)
  obtain s4 where 4: "registry_dtor 20 s3 = Some s4" "registered [30, 10] s4"
    using dtor_registered [of "[30]" 20 "[10]" s3] 3(2) by auto
  have "lives [20, 10] 0 s2"
    using lives.copy [OF lives.construct [OF lives.program_start _ _ 1(1)], of 20 10 s2] 2(1) by simp
  then have "lives [30, 20, 10] 1 s3"
    using lives.construct [OF lives.force_call [of "[20, 10]" 0 s2 20], of 30 s3] 3(1) by simp
  with lives.destroy [of "[30]" 20 "[10]" 1 s3 s4] 4(1) have "lives [30, 10] 1 s4" by simp
  moreover obtain l where "seg (nodes s4) null (head s4) null l [30, 10]"
    using 4(2) unfolding registered_def by blast
  from seg_ends(2) [OF this] have "head s4 = 30" by simp
  ultimately show ?thesis by blast
qed

theorem registry_tracks_live_witness:
  "\<exists>s s'. lives [30, 10] 1 s \<and> count s = 2 \<and> registry_dtor 10 s = Some s' \<and> lives [30] 1 s'"
proof -
  obtain s where s: "lives [30, 10] 1 s" using three_lives by blast
  note t = registry_tracks_live [OF s]
  have "[30, 10] = [30] @ 10 # ([] :: ptr list)" by simp
  with t obtain s' where "registry_dtor 10 s = Some s'" "lives ([30] @ []) 1 s'" by blast
  moreover have "count s = word_of_nat (length [30 :: ptr, 10])" using t unfolding registered_def by blast
  then have "count s = 2" by simp
  ultimately show ?thesis using s by auto
qed

section \<open>Assignment\<close>

lemma assigned_links:
  assumes inv: "registered xs s" and a: "i < length xs" and b: "j < length xs"
  shows "registry_assign (xs ! i) (xs ! j) s = Some (s\<lparr>nodes := (nodes s)(xs ! i \<mapsto>
     \<lparr>prev = (if j = 0 then null else xs ! (j - 1)), next_node = (if Suc j < length xs then xs ! Suc j else null)\<rparr>)\<rparr>)"
proof -
  obtain l where l: "seg (nodes s) null (head s) null l xs" using inv by (auto simp: registered_def)
  from seg_nth [OF l a] seg_nth [OF l b] show ?thesis by (simp add: registry_assign_def update_node_def)
qed

text \<open>No list has two objects with the same links.\<close>

lemma same_links:
  assumes inv: "registered zs s" and a: "nodes s a = Some n" and b: "nodes s b = Some n"
  shows "a = b"
proof -
  obtain l where l: "seg (nodes s) null (head s) null l zs" and d: "distinct zs" and dm: "dom (nodes s) = set zs"
    using inv by (auto simp: registered_def)
  from a b dm obtain i j where i: "i < length zs" "a = zs ! i" and j: "j < length zs" "b = zs ! j"
    by (metis domI in_set_conv_nth)
  have nn: "zs ! k \<noteq> null" if "k < length zs" for k using seg_live [OF l, of "zs ! k"] that by simp
  let ?p = "\<lambda>k. if k = 0 then null else zs ! (k - 1)"
  have pr: "map_option prev (nodes s (zs ! k)) = Some (?p k)" if "k < length zs" for k
    using seg_nth [OF l that] by simp
  have eq: "?p i = ?p j"
  proof -
    have "Some (?p i) = map_option prev (nodes s a)" using pr [OF i(1)] i(2) by (simp only:)
    also have "\<dots> = map_option prev (nodes s b)" using a b by (simp only:)
    also have "\<dots> = Some (?p j)" using pr [OF j(1)] j(2) by (simp only:)
    finally show ?thesis by (simp only: option.inject)
  qed
  have "i = j"
  proof (cases "i = 0 \<or> j = 0")
    case True
    have "zs ! (i - 1) \<noteq> null" "zs ! (j - 1) \<noteq> null" by (rule nn, use i j in simp)+
    with eq True show ?thesis by (auto split: if_splits)
  next
    case False
    with eq d i j have "i - 1 = j - 1" by (simp add: nth_eq_iff_index_eq)
    with False show ?thesis by linarith
  qed
  with i j show ?thesis by simp
qed

text \<open>
  C36: Assigning one potential to another breaks the registry.  The class copies its links when one
  live potential is assigned to another, whichever two they are: afterwards the links are no
  list of the live potentials, and when the assigned potential is destroyed, another live one
  keeps a pointer to it.
\<close>

theorem registry_assign_dangles:
  assumes lv: "lives xs n s" and ab: "a \<in> set xs" "b \<in> set xs" "a \<noteq> b"
  shows "\<exists>s' s''. registry_assign a b s = Some s' \<and> (\<forall>zs. \<not> registered zs s') \<and>
     registry_dtor a s' = Some s'' \<and> nodes s'' a = None \<and>
     (\<exists>c m. nodes s'' c = Some m \<and> (prev m = a \<or> next_node m = a))"
proof -
  have inv: "registered xs s" using lives_registered [OF lv] by blast
  obtain l where l: "seg (nodes s) null (head s) null l xs" and d: "distinct xs" using inv by (auto simp: registered_def)
  from ab obtain i j where i: "i < length xs" "a = xs ! i" and j: "j < length xs" "b = xs ! j" and ne: "i \<noteq> j"
    by (auto simp: in_set_conv_nth)
  let ?k = "if j = 0 then null else xs ! (j - 1)" and ?m = "if Suc j < length xs then xs ! Suc j else null"
  let ?s = "s\<lparr>nodes := (nodes s)(a \<mapsto> \<lparr>prev = ?k, next_node = ?m\<rparr>)\<rparr>"
  have run: "registry_assign a b s = Some ?s" using assigned_links [OF inv i(1) j(1)] i j by simp
  have "nodes ?s b = Some \<lparr>prev = ?k, next_node = ?m\<rparr>" using seg_nth [OF l j(1)] j ab(3) by simp
  with same_links [of _ ?s a _ b] ab(3) have broken: "\<not> registered zs ?s" for zs by fastforce
  have "nodes s (xs ! k) \<noteq> None" if "k < length xs" for k using seg_live [OF l, of "xs ! k"] that by simp
  from this [of "j - 1"] this [of "Suc j"] have "?k \<noteq> null \<Longrightarrow> nodes ?s ?k \<noteq> None" "?m \<noteq> null \<Longrightarrow> nodes ?s ?m \<noteq> None" using j(1) by auto
  from dtor_relinks [OF _ this] obtain s'' where del: "registry_dtor a ?s = Some s''"
    "nodes s'' = (relinked (nodes ?s) ?k ?m)(a := None)" by fastforce
  have "\<exists>c. map_option prev (nodes s'' c) = Some a \<or> map_option next_node (nodes s'' c) = Some a"
  proof (cases "Suc i < length xs")
    case True
    let ?c = "xs ! Suc i"
    have c: "map_option prev (nodes s ?c) = Some a" using seg_nth [OF l True] i by simp
    have ca: "?c \<noteq> a" and "?c \<noteq> ?m" using d True i ne seg_live [OF l, of ?c] by (auto simp: nth_eq_iff_index_eq)
    from relinked_links(1) [OF this(2), of "nodes ?s" ?k] c ca have "map_option prev (nodes s'' ?c) = Some a" by (simp add: del(2))
    then show ?thesis by blast
  next
    case False
    with i j ne have i0: "0 < i" by simp
    let ?c = "xs ! (i - 1)"
    have c: "map_option next_node (nodes s ?c) = Some a" using seg_nth [OF l, of "i - 1"] i i0 by simp
    have ca: "?c \<noteq> a" using d i i0 by (simp add: nth_eq_iff_index_eq)
    have "?c \<noteq> ?k" using d i i0 ne j seg_live [OF l, of ?c] by (auto simp: nth_eq_iff_index_eq)
    from relinked_links(2) [OF this, of "nodes ?s" ?m] c ca have "map_option next_node (nodes s'' ?c) = Some a" by (simp add: del(2))
    then show ?thesis by blast
  qed
  then have "\<exists>c m. nodes s'' c = Some m \<and> (prev m = a \<or> next_node m = a)" by auto
  with run broken del show ?thesis by auto
qed

theorem registry_assign_dangles_witness:
  "\<exists>s s' s'' m. lives [30, 10] 1 s \<and> registry_assign 10 30 s = Some s' \<and> registry_dtor 10 s' = Some s'' \<and>
     nodes s'' 10 = None \<and> (\<exists>c. nodes s'' c = Some m \<and> (prev m = 10 \<or> next_node m = 10))"
proof -
  obtain s where s: "lives [30, 10] 1 s" using three_lives by blast
  from registry_assign_dangles [OF this, of 10 30] obtain s' s'' c m where
    "registry_assign 10 30 s = Some s'" "registry_dtor 10 s' = Some s''" "nodes s'' 10 = None"
    "nodes s'' c = Some m" "prev m = 10 \<or> next_node m = 10" by auto
  with s show ?thesis by blast
qed

end
