(* ===== verification/Rgpot_Cache.thy ===== *)
theory Rgpot_Cache
  imports Rgpot_Matrix Rgpot_Registry
begin

text \<open>
  The result cache of the C++ potentials: \<^verbatim>\<open>CppCore/rgpot/PotentialCache.{hpp,cc}\<close>, which keeps
  serialised energies and forces in a RocksDB database, and \<^verbatim>\<open>Potential::operator()\<close> of
  \<^verbatim>\<open>Potential.hpp\<close>, which consults it.  RocksDB and the XXH3 hash are third-party code: their
  functions are arguments.
\<close>

unbundle bit_operations_syntax

section \<open>Bytes\<close>

type_synonym byte = "8 word"

text \<open>The bytes of an integer in memory, least significant first.\<close>

fun le_bytes :: "nat \<Rightarrow> ('a :: len) word \<Rightarrow> byte list" where
  "le_bytes 0 x = []"
| "le_bytes (Suc n) x = ucast x # le_bytes n (drop_bit 8 x)"

fun of_le_bytes :: "byte list \<Rightarrow> ('a :: len) word" where
  "of_le_bytes [] = 0"
| "of_le_bytes (b # bs) = ucast b OR push_bit 8 (of_le_bytes bs)"

definition f64s_bytes :: "f64 list \<Rightarrow> byte list" where
  "f64s_bytes xs = concat (map (le_bytes 8) xs)"

fun bytes_f64s :: "byte list \<Rightarrow> f64 list" where
  "bytes_f64s bs = (if length bs < 8 then [] else of_le_bytes (take 8 bs) # bytes_f64s (drop 8 bs))"

declare bytes_f64s.simps [simp del]

definition ints_bytes :: "i32 list \<Rightarrow> byte list" where
  "ints_bytes zs = concat (map (le_bytes 4) zs)"

text \<open>\<open>n\<close> bytes read from an offset of an object.\<close>

definition mem_read :: "byte list \<Rightarrow> nat \<Rightarrow> nat \<Rightarrow> byte list cpp" where
  "mem_read bs off n = (if off + n \<le> length bs then Returned (take n (drop off bs)) else Undef)"

section \<open>The cache\<close>

text \<open>The functions of the libraries: \<open>None\<close> is a status other than OK.\<close>

record 'db libs =
  XXH3_64bits :: "byte list \<Rightarrow> usize"
  db_Get :: "'db \<Rightarrow> string \<Rightarrow> byte list option"
  db_Put :: "'db \<Rightarrow> string \<Rightarrow> byte list \<Rightarrow> 'db"

record KeyHash =
  hash :: usize
  key :: string

definition KeyHash_ctor :: "usize \<Rightarrow> KeyHash" where
  "KeyHash_ctor h = \<lparr>hash = h, key = show_nat (unat h)\<rparr>"

record PotentialCache =
  db_ptr :: ptr
  own_db :: bool

text \<open>The databases and caches that exist, and the registry of the potential.\<close>

record 'db core =
  dbs :: "ptr \<rightharpoonup> 'db"
  caches :: "ptr \<rightharpoonup> PotentialCache"
  stats :: registry

definition PotentialCache_default :: "ptr \<Rightarrow> 'db core \<Rightarrow> 'db core" where
  "PotentialCache_default self s = s\<lparr>caches := (caches s)(self \<mapsto> \<lparr>db_ptr = null, own_db = False\<rparr>)\<rparr>"

text \<open>
  \<open>opened\<close> is the outcome of \<^verbatim>\<open>DB::Open\<close>: the database and the address of the object, or a
  failure.
\<close>

definition PotentialCache_open :: "(ptr \<times> 'db) option \<Rightarrow> ptr \<Rightarrow> 'db core \<Rightarrow> 'db core" where
  "PotentialCache_open opened self s = (case opened of
      None \<Rightarrow> s\<lparr>caches := (caches s)(self \<mapsto> \<lparr>db_ptr = null, own_db = False\<rparr>)\<rparr>
    | Some (p, d) \<Rightarrow> s\<lparr>dbs := (dbs s)(p \<mapsto> d), caches := (caches s)(self \<mapsto> \<lparr>db_ptr = p, own_db = True\<rparr>)\<rparr>)"

definition delete_db :: "ptr \<Rightarrow> 'db core \<Rightarrow> 'db core cpp" where
  "delete_db p s = (if dbs s p = None then Undef else Returned (s\<lparr>dbs := (dbs s)(p := None)\<rparr>))"

definition PotentialCache_dtor :: "ptr \<Rightarrow> 'db core \<Rightarrow> 'db core cpp" where
  "PotentialCache_dtor self s = (case caches s self of
      None \<Rightarrow> Undef
    | Some this \<Rightarrow>
        cpp_bind (if own_db this \<and> db_ptr this \<noteq> null then delete_db (db_ptr this) s else Returned s) (\<lambda>s.
        Returned (s\<lparr>caches := (caches s)(self := None)\<rparr>)))"

definition PotentialCache_set_db :: "ptr \<Rightarrow> ptr \<Rightarrow> 'db core \<Rightarrow> 'db core cpp" where
  "PotentialCache_set_db self db s = (case caches s self of
      None \<Rightarrow> Undef
    | Some this \<Rightarrow>
        cpp_bind (if own_db this \<and> db_ptr this \<noteq> null then delete_db (db_ptr this) s else Returned s) (\<lambda>s.
        Returned (s\<lparr>caches := (caches s)(self \<mapsto> \<lparr>db_ptr = db, own_db = False\<rparr>)\<rparr>)))"

text \<open>The class declares no copy constructor, so the implicit one copies both members.\<close>

definition PotentialCache_copy :: "ptr \<Rightarrow> ptr \<Rightarrow> 'db core \<Rightarrow> 'db core cpp" where
  "PotentialCache_copy self other s = (case caches s other of
      None \<Rightarrow> Undef
    | Some c \<Rightarrow> Returned (s\<lparr>caches := (caches s)(self \<mapsto> c)\<rparr>))"

definition deserialize_hit :: "byte list \<Rightarrow> f64 AtomMatrix \<Rightarrow> (f64 \<times> f64 AtomMatrix) cpp" where
  "deserialize_hit hit forces =
     cpp_bind (mem_read hit 0 8) (\<lambda>e.
     let n = unat (AtomMatrix_size forces * 8) in
     cpp_bind (mem_read hit 8 n) (\<lambda>bs.
     cpp_bind (copy_to bs 0 (f64s_bytes (m_data forces))) (\<lambda>dat.
     Returned (of_le_bytes e, forces\<lparr>m_data := bytes_f64s dat\<rparr>))))"

definition serialized :: "f64 \<Rightarrow> f64 AtomMatrix \<Rightarrow> byte list cpp" where
  "serialized energy forces =
     (let value_size = 8 + AtomMatrix_size forces * 8;
          buffer = replicate (unat value_size) 0
      in cpp_bind (copy_to (le_bytes 8 energy) 0 buffer) (\<lambda>buffer.
         cpp_bind (mem_read (f64s_bytes (m_data forces)) 0 (unat (AtomMatrix_size forces * 8))) (\<lambda>bs.
         copy_to bs 8 buffer)))"

definition add_serialized ::
    "'db libs \<Rightarrow> ptr \<Rightarrow> KeyHash \<Rightarrow> f64 \<Rightarrow> f64 AtomMatrix \<Rightarrow> 'db core \<Rightarrow> 'db core cpp" where
  "add_serialized L self kv energy forces s = (case caches s self of
      None \<Rightarrow> Undef
    | Some this \<Rightarrow>
        if db_ptr this = null then Returned s
        else cpp_bind (serialized energy forces) (\<lambda>value.
          case dbs s (db_ptr this) of
            None \<Rightarrow> Undef
          | Some d \<Rightarrow> Returned (s\<lparr>dbs := (dbs s)(db_ptr this \<mapsto> db_Put L d (key kv) value)\<rparr>)))"

definition cache_find :: "'db libs \<Rightarrow> ptr \<Rightarrow> KeyHash \<Rightarrow> 'db core \<Rightarrow> byte list option cpp" where
  "cache_find L self kv s = (case caches s self of
      None \<Rightarrow> Undef
    | Some this \<Rightarrow>
        if db_ptr this = null then Returned None
        else (case dbs s (db_ptr this) of
            None \<Rightarrow> Undef
          | Some d \<Rightarrow> Returned (db_Get L d (key kv))))"

section \<open>The potential\<close>

datatype PotType = UNKNOWN | CuH2 | LJ

fun PotType_value :: "PotType \<Rightarrow> usize" where
  "PotType_value UNKNOWN = 0"
| "PotType_value CuH2 = 1"
| "PotType_value LJ = 2"

type_synonym row3 = "f64 \<times> f64 \<times> f64"
type_synonym box3 = "row3 \<times> row3 \<times> row3"

fun flatBox :: "box3 \<Rightarrow> f64 list" where
  "flatBox ((a, b, c), (d, e, f), (g, h, i)) = [a, b, c, d, e, f, g, h, i]"

text \<open>The arguments of a call, and the implementation of the derived class.\<close>

type_synonym config = "f64 AtomMatrix \<times> i32 list \<times> box3"
type_synonym force_impl = "f64 ForceInput \<Rightarrow> f64 ForceOut \<Rightarrow> f64 ForceOut cpp"

fun call_input :: "config \<Rightarrow> f64 ForceInput" where
  "call_input (positions, atmtypes, bx) =
     \<lparr>nAtoms = m_rows positions, in_pos = m_data positions, in_atmnrs = atmtypes, in_box = flatBox bx\<rparr>"

definition hash_range :: "'db libs \<Rightarrow> byte list \<Rightarrow> usize \<Rightarrow> usize cpp" where
  "hash_range L bs n = cpp_bind (mem_read bs 0 (unat n)) (\<lambda>bs. Returned (XXH3_64bits L bs))"

definition config_hash :: "'db libs \<Rightarrow> PotType \<Rightarrow> f64 ForceInput \<Rightarrow> usize cpp" where
  "config_hash L m_type fi =
     cpp_bind (hash_range L (f64s_bytes (in_pos fi)) (nAtoms fi * 3 * 8)) (\<lambda>h1.
     cpp_bind (hash_range L (ints_bytes (in_atmnrs fi)) (nAtoms fi * 4)) (\<lambda>h2.
     cpp_bind (hash_range L (f64s_bytes (in_box fi)) (9 * 8)) (\<lambda>h3.
     cpp_bind (hash_range L (le_bytes 8 (PotType_value m_type)) 8) (\<lambda>h4.
     Returned (0 XOR h1 XOR h2 XOR h3 XOR h4)))))"

text \<open>
  The forces the implementation writes are the data of the matrix \<^verbatim>\<open>forces\<close>.  The
  state at a throw is the state before the call.
\<close>

definition Potential_compute ::
    "force_impl \<Rightarrow> config \<Rightarrow> 'db core \<Rightarrow> (f64 \<times> f64 AtomMatrix) cpp \<times> 'db core" where
  "Potential_compute forceImpl c s =
     (let fi = call_input c;
          forces = AtomMatrix_Zero (nAtoms fi) 3
      in case forceImpl fi \<lparr>out_F = m_data forces, out_energy = 0, out_variance = 0\<rparr> of
           Returned fo \<Rightarrow> (Returned (out_energy fo, forces\<lparr>m_data := out_F fo\<rparr>),
                           s\<lparr>stats := incrementForceCalls (stats s)\<rparr>)
         | Thrown e \<Rightarrow> (Thrown e, s)
         | Undef \<Rightarrow> (Undef, s))"

text \<open>\<^verbatim>\<open>operator()\<close> in a build with the cache; \<open>Potential_compute\<close> is the one without.\<close>

definition Potential_call ::
    "'db libs \<Rightarrow> force_impl \<Rightarrow> PotType \<Rightarrow> ptr \<Rightarrow> config \<Rightarrow> 'db core \<Rightarrow> (f64 \<times> f64 AtomMatrix) cpp \<times> 'db core" where
  "Potential_call L forceImpl m_type cache c s =
     (case config_hash L m_type (call_input c) of
        Thrown e \<Rightarrow> (Thrown e, s)
      | Undef \<Rightarrow> (Undef, s)
      | Returned hash_val \<Rightarrow>
          let kv = KeyHash_ctor hash_val in
          (case (if cache \<noteq> null then cache_find L cache kv s else Returned None) of
             Thrown e \<Rightarrow> (Thrown e, s)
           | Undef \<Rightarrow> (Undef, s)
           | Returned (Some hit) \<Rightarrow> (deserialize_hit hit (AtomMatrix_Zero (nAtoms (call_input c)) 3), s)
           | Returned None \<Rightarrow>
               (case Potential_compute forceImpl c s of
                  (Returned (e, forces), s) \<Rightarrow>
                    (if cache \<noteq> null then
                       (case add_serialized L cache kv e forces s of
                          Returned s' \<Rightarrow> (Returned (e, forces), s')
                        | Thrown m \<Rightarrow> (Thrown m, s)
                        | Undef \<Rightarrow> (Undef, s))
                     else (Returned (e, forces), s))
                | (r, s) \<Rightarrow> (r, s))))"

section \<open>Serialisation\<close>

lemma length_le_bytes [simp]: "length (le_bytes n x) = n"
  by (induction n arbitrary: x) simp_all

lemma of_le_bytes_le_bytes: "of_le_bytes (le_bytes n x) = take_bit (8 * n) x"
proof (induction n arbitrary: x)
  case (Suc n)
  show ?case by (simp add: Suc) (rule bit_word_eqI, auto simp: bit_simps)
qed simp

lemma of_le_bytes_f64 [simp]: "of_le_bytes (le_bytes 8 x) = (x :: 64 word)"
  by (simp only: of_le_bytes_le_bytes) (simp add: take_bit_word_eq_self)

lemma length_f64s_bytes [simp]: "length (f64s_bytes xs) = 8 * length xs"
  by (induction xs) (simp_all add: f64s_bytes_def)

lemma length_ints_bytes [simp]: "length (ints_bytes zs) = 4 * length zs"
  by (induction zs) (simp_all add: ints_bytes_def)

lemma bytes_f64s_f64s_bytes [simp]: "bytes_f64s (f64s_bytes xs) = xs"
proof (induction xs)
  case Nil
  show ?case by (simp add: f64s_bytes_def bytes_f64s.simps)
next
  case (Cons x xs)
  then show ?case by (subst bytes_f64s.simps) (simp add: f64s_bytes_def)
qed

lemma serialized_ok:
  assumes "matrix_ok F" "length (m_data F) < 2 ^ 60"
  shows "serialized e F = Returned (le_bytes 8 e @ f64s_bytes (m_data F))"
proof -
  have sz: "unat (AtomMatrix_size F) = length (m_data F)"
    using assms(1) by (simp add: AtomMatrix_size_def matrix_ok_def unat_times_64)
  have "unat (AtomMatrix_size F * 8) = length (m_data F) * 8"
    using unat_times_64 [of "AtomMatrix_size F" 8] assms(2) by (simp add: sz)
  moreover from this have "unat (8 + AtomMatrix_size F * 8) = 8 + length (m_data F) * 8"
    using unat_add_64 [of 8 "AtomMatrix_size F * 8"] assms(2) by simp
  ultimately show ?thesis by (simp add: serialized_def copy_to_def mem_read_def Let_def)
qed

lemma deserialize_ok:
  assumes "matrix_ok G" "length (m_data G) = length xs" "length xs < 2 ^ 60"
  shows "deserialize_hit (le_bytes 8 e @ f64s_bytes xs) G = Returned (e, G\<lparr>m_data := xs\<rparr>)"
proof -
  have "unat (AtomMatrix_size G) = length xs"
    using assms by (simp add: AtomMatrix_size_def matrix_ok_def unat_times_64)
  then have "unat (AtomMatrix_size G * 8) = length xs * 8"
    using unat_times_64 [of "AtomMatrix_size G" 8] assms(3) by simp
  with assms(2) show ?thesis by (simp add: deserialize_hit_def copy_to_def mem_read_def Let_def)
qed

text \<open>
  Cached results survive serialisation.  What \<^verbatim>\<open>add_serialized\<close> writes for an energy and a force
  matrix, \<^verbatim>\<open>deserialize_hit\<close> reads back bit for bit into a matrix of the same dimensions; into a
  matrix with more elements it reads past the end of the stored value.
\<close>

theorem cache_roundtrip:
  assumes F: "matrix_ok F" "length (m_data F) < 2 ^ 60" and G: "matrix_ok G" "length (m_data G) < 2 ^ 60"
  shows "\<exists>v. serialized e F = Returned v \<and>
     (m_rows G = m_rows F \<and> m_cols G = m_cols F \<longrightarrow> deserialize_hit v G = Returned (e, F)) \<and>
     (length (m_data F) < length (m_data G) \<longrightarrow> deserialize_hit v G = Undef)"
proof -
  let ?v = "le_bytes 8 e @ f64s_bytes (m_data F)"
  have "deserialize_hit ?v G = Returned (e, F)" if "m_rows G = m_rows F" "m_cols G = m_cols F"
  proof -
    have "length (m_data G) = length (m_data F)" using that F G by (simp add: matrix_ok_def)
    with deserialize_ok [OF G(1) this F(2)] that show ?thesis by (cases F; cases G) simp
  qed
  moreover have "deserialize_hit ?v G = Undef" if "length (m_data F) < length (m_data G)"
  proof -
    have "unat (AtomMatrix_size G) = length (m_data G)"
      using G by (simp add: AtomMatrix_size_def matrix_ok_def unat_times_64)
    then have "unat (AtomMatrix_size G * 8) = length (m_data G) * 8"
      using unat_times_64 [of "AtomMatrix_size G" 8] G(2) by simp
    with that show ?thesis by (simp add: deserialize_hit_def mem_read_def Let_def)
  qed
  ultimately show ?thesis using serialized_ok [OF F] by blast
qed

theorem cache_roundtrip_witness:
  "\<exists>v. serialized 7 \<lparr>m_rows = 1, m_cols = 2, m_data = [0x3FF0000000000000, 5]\<rparr> = Returned v \<and>
     deserialize_hit v (AtomMatrix_Zero 1 2) = Returned (7, \<lparr>m_rows = 1, m_cols = 2, m_data = [0x3FF0000000000000, 5]\<rparr>)"
  using cache_roundtrip [of "\<lparr>m_rows = 1, m_cols = 2, m_data = [0x3FF0000000000000, 5]\<rparr>" "AtomMatrix_Zero 1 2" 7]
  by (simp add: matrix_ok_def AtomMatrix_Zero_def AtomMatrix_new_def)

section \<open>Keys\<close>

text \<open>Calls whose arrays have the sizes their use requires.\<close>

fun config_ok :: "config \<Rightarrow> bool" where
  "config_ok (positions, atmtypes, bx) \<longleftrightarrow> matrix_ok positions \<and> m_cols positions = 3 \<and>
     length (m_data positions) < 2 ^ 60 \<and> length atmtypes = unat (m_rows positions)"

fun config_key :: "'db libs \<Rightarrow> PotType \<Rightarrow> config \<Rightarrow> KeyHash" where
  "config_key L m_type (positions, atmtypes, bx) = KeyHash_ctor
     (XXH3_64bits L (f64s_bytes (m_data positions)) XOR XXH3_64bits L (ints_bytes atmtypes) XOR
      XXH3_64bits L (f64s_bytes (flatBox bx)) XOR XXH3_64bits L (le_bytes 8 (PotType_value m_type)))"

lemma length_flatBox [simp]: "length (flatBox bx) = 9"
  by (cases bx rule: flatBox.cases) simp

lemma config_hash_ok:
  assumes "config_ok c"
  shows "\<exists>h. config_hash L m_type (call_input c) = Returned h \<and> KeyHash_ctor h = config_key L m_type c"
proof -
  obtain P zs bx where c: "c = (P, zs, bx)" by (cases c)
  have len: "length (m_data P) = 3 * unat (m_rows P)" "length (m_data P) < 2 ^ 60" "length zs = unat (m_rows P)"
    using assms by (auto simp: c matrix_ok_def)
  have "unat (m_rows P * 3) = 3 * unat (m_rows P)" using unat_times_64 [of "m_rows P" 3] len by simp
  then have "unat (m_rows P * 3 * 8) = 8 * length (m_data P)"
    using unat_times_64 [of "m_rows P * 3" 8] len by simp
  moreover have "unat (m_rows P * 4) = 4 * length zs" using unat_times_64 [of "m_rows P" 4] len by simp
  ultimately show ?thesis by (simp add: c config_hash_def hash_range_def mem_read_def)
qed

declare config_key.simps [simp del] config_ok.simps [simp del]

section \<open>Memoisation\<close>

definition computed_result :: "force_impl \<Rightarrow> config \<Rightarrow> (f64 \<times> f64 AtomMatrix) cpp" where
  "computed_result forceImpl c =
     cpp_bind (forceImpl (call_input c)
        \<lparr>out_F = m_data (AtomMatrix_Zero (nAtoms (call_input c)) 3 :: f64 AtomMatrix), out_energy = 0, out_variance = 0\<rparr>)
       (\<lambda>fo. Returned (out_energy fo, (AtomMatrix_Zero (nAtoms (call_input c)) 3)\<lparr>m_data := out_F fo\<rparr>))"

fun is_returned :: "'a cpp \<Rightarrow> bool" where
  "is_returned (Returned x) = True"
| "is_returned _ = False"

lemma compute_result:
  "Potential_compute forceImpl c s = (computed_result forceImpl c,
     if is_returned (computed_result forceImpl c) then s\<lparr>stats := incrementForceCalls (stats s)\<rparr> else s)"
  by (simp add: Potential_compute_def computed_result_def Let_def split: cpp.split)

text \<open>An implementation writes into the force array, it does not resize it.\<close>

definition fills :: "force_impl \<Rightarrow> config set \<Rightarrow> bool" where
  "fills forceImpl C \<longleftrightarrow> (\<forall>c\<in>C. \<forall>out fo. forceImpl (call_input c) out = Returned fo \<longrightarrow>
     length (out_F fo) = length (out_F out))"

lemma computed_matrix:
  assumes "computed_result forceImpl c = Returned (e, F)" "fills forceImpl C" "c \<in> C" "config_ok c"
  defines "Z \<equiv> AtomMatrix_Zero (nAtoms (call_input c)) 3 :: f64 AtomMatrix"
  shows "matrix_ok F" "length (m_data F) < 2 ^ 60" "serialized e F = Returned (le_bytes 8 e @ f64s_bytes (m_data F))"
    "deserialize_hit (le_bytes 8 e @ f64s_bytes (m_data F)) Z = Returned (e, F)"
proof -
  obtain P zs bx where c: "c = (P, zs, bx)" by (cases c)
  have n: "nAtoms (call_input c) = m_rows P" by (simp add: c)
  have b: "unat (m_rows P) * 3 < 2 ^ 60" using assms(4) by (auto simp: c matrix_ok_def config_ok.simps)
  have Z: "matrix_ok Z" "length (m_data Z) = 3 * unat (m_rows P)" "m_rows Z = m_rows P" "m_cols Z = 3"
    using Zero_ok [of "m_rows P" 3] b by (simp_all add: Z_def n AtomMatrix_Zero_def AtomMatrix_new_def)
  obtain fo where fo: "forceImpl (call_input c) \<lparr>out_F = m_data Z, out_energy = 0, out_variance = 0\<rparr> = Returned fo"
    and F: "F = Z\<lparr>m_data := out_F fo\<rparr>"
    using assms(1) by (auto simp: computed_result_def cpp_bind_Returned Z_def)
  have len: "length (out_F fo) = 3 * unat (m_rows P)"
    using assms(2,3) fo Z(2) unfolding fills_def by fastforce
  show 1: "matrix_ok F" using Z len by (simp add: F matrix_ok_def)
  show 2: "length (m_data F) < 2 ^ 60" using b len by (simp add: F)
  show "serialized e F = Returned (le_bytes 8 e @ f64s_bytes (m_data F))" using 1 2 by (rule serialized_ok)
  show "deserialize_hit (le_bytes 8 e @ f64s_bytes (m_data F)) Z = Returned (e, F)"
    using deserialize_ok [OF Z(1), of "m_data F"] 2 Z len by (simp add: F)
qed

text \<open>The cache at \<open>cp\<close> uses the database \<open>d\<close>.\<close>

definition attached :: "ptr \<Rightarrow> 'db \<Rightarrow> 'db core \<Rightarrow> bool" where
  "attached cp d s \<longleftrightarrow> cp \<noteq> null \<and>
     (\<exists>this. caches s cp = Some this \<and> db_ptr this \<noteq> null \<and> dbs s (db_ptr this) = Some d)"

lemma call_hit:
  assumes "attached cp d s" "config_ok c" "db_Get L d (key (config_key L mt c)) = Some v"
  shows "Potential_call L forceImpl mt cp c s = (deserialize_hit v (AtomMatrix_Zero (nAtoms (call_input c)) 3), s)"
proof -
  from config_hash_ok [OF assms(2), of L mt] obtain h where
    "config_hash L mt (call_input c) = Returned h" "KeyHash_ctor h = config_key L mt c" by blast
  with assms(1,3) show ?thesis by (auto simp: attached_def Potential_call_def cache_find_def Let_def)
qed

text \<open>Everything stored under the key of a configuration is its computed result.\<close>

definition memo_ok :: "'db libs \<Rightarrow> force_impl \<Rightarrow> PotType \<Rightarrow> config set \<Rightarrow> 'db \<Rightarrow> bool" where
  "memo_ok L forceImpl mt C d \<longleftrightarrow> (\<forall>c\<in>C. \<forall>v. db_Get L d (key (config_key L mt c)) = Some v \<longrightarrow>
     (\<exists>e F. computed_result forceImpl c = Returned (e, F) \<and> v = le_bytes 8 e @ f64s_bytes (m_data F)))"

text \<open>
  What RocksDB promises.  A value that is read was put there under that key, even when
  some writes fail; the status of a write is ignored by the cache.
\<close>

locale rocksdb_store =
  fixes L :: "'db libs"
  assumes put_sound: "db_Get L (db_Put L d k v) k' = Some u \<Longrightarrow> k' = k \<and> u = v \<or> db_Get L d k' = Some u"
begin

lemma put_memo:
  assumes memo: "memo_ok L forceImpl mt C d" and c: "c \<in> C" "computed_result forceImpl c = Returned (e, F)"
    and inj: "inj_on (\<lambda>c. key (config_key L mt c)) C"
  shows "memo_ok L forceImpl mt C (db_Put L d (key (config_key L mt c)) (le_bytes 8 e @ f64s_bytes (m_data F)))"
  unfolding memo_ok_def
proof (intro ballI allI impI)
  fix c' u
  assume c': "c' \<in> C" and "db_Get L (db_Put L d (key (config_key L mt c)) (le_bytes 8 e @ f64s_bytes (m_data F)))
    (key (config_key L mt c')) = Some u"
  from put_sound [OF this(2)] consider
      "key (config_key L mt c') = key (config_key L mt c)" "u = le_bytes 8 e @ f64s_bytes (m_data F)"
    | "db_Get L d (key (config_key L mt c')) = Some u" by blast
  then show "\<exists>e F. computed_result forceImpl c' = Returned (e, F) \<and> u = le_bytes 8 e @ f64s_bytes (m_data F)"
  proof cases
    case 1
    with inj c c' have "c' = c" by (auto dest: inj_onD)
    with 1 c show ?thesis by blast
  next
    case 2
    with memo c' show ?thesis by (auto simp: memo_ok_def)
  qed
qed

text \<open>One call: the computed result, the database with or without a new entry, and the counter.\<close>

lemma call_memo:
  assumes at: "attached cp d s" and memo: "memo_ok L forceImpl mt C d" and c: "c \<in> C" "config_ok c"
    and fills: "fills forceImpl C" and inj: "inj_on (\<lambda>c. key (config_key L mt c)) C"
  defines "k \<equiv> key (config_key L mt c)"
  shows "\<exists>s' d'. Potential_call L forceImpl mt cp c s = (computed_result forceImpl c, s') \<and>
     attached cp d' s' \<and> memo_ok L forceImpl mt C d' \<and>
     d' = (case computed_result forceImpl c of
             Returned (e, F) \<Rightarrow> if db_Get L d k = None then db_Put L d k (le_bytes 8 e @ f64s_bytes (m_data F)) else d
           | _ \<Rightarrow> d) \<and>
     forceCalls (stats s') = forceCalls (stats s) +
       (if db_Get L d k = None \<and> is_returned (computed_result forceImpl c) then 1 else 0)"
proof -
  from at obtain this where me: "cp \<noteq> null" "caches s cp = Some this" "db_ptr this \<noteq> null" "dbs s (db_ptr this) = Some d"
    by (auto simp: attached_def)
  from config_hash_ok [OF c(2), of L mt] obtain h where
    h: "config_hash L mt (call_input c) = Returned h" "KeyHash_ctor h = config_key L mt c" by blast
  have find: "cache_find L cp (config_key L mt c) s = Returned (db_Get L d k)"
    using me by (simp add: cache_find_def k_def)
  show ?thesis
  proof (cases "db_Get L d k")
    case (Some v)
    with memo c obtain e F where a: "computed_result forceImpl c = Returned (e, F)" "v = le_bytes 8 e @ f64s_bytes (m_data F)"
      unfolding memo_ok_def k_def by blast
    have "Potential_call L forceImpl mt cp c s = (computed_result forceImpl c, s)"
      using call_hit [OF at c(2)] Some a computed_matrix(4) [OF a(1) fills c] by (simp add: k_def)
    with at memo Some a(1) show ?thesis by auto
  next
    case None
    show ?thesis
    proof (cases "computed_result forceImpl c")
      case (Returned r)
      then obtain e F where a: "computed_result forceImpl c = Returned (e, F)" by (cases r) simp
      let ?v = "le_bytes 8 e @ f64s_bytes (m_data F)"
      let ?s = "s\<lparr>stats := incrementForceCalls (stats s)\<rparr>"
      have "add_serialized L cp (config_key L mt c) e F ?s = Returned (?s\<lparr>dbs := (dbs s)(db_ptr this \<mapsto> db_Put L d k ?v)\<rparr>)"
        using me computed_matrix(3) [OF a fills c] by (simp add: add_serialized_def k_def)
      then have "Potential_call L forceImpl mt cp c s =
          (computed_result forceImpl c, ?s\<lparr>dbs := (dbs s)(db_ptr this \<mapsto> db_Put L d k ?v)\<rparr>)"
        using h me(1) find None a by (simp add: Potential_call_def compute_result Let_def)
      moreover have "attached cp (db_Put L d k ?v) (?s\<lparr>dbs := (dbs s)(db_ptr this \<mapsto> db_Put L d k ?v)\<rparr>)"
        using me by (auto simp: attached_def)
      moreover have "memo_ok L forceImpl mt C (db_Put L d k ?v)"
        unfolding k_def using memo c(1) a inj by (rule put_memo)
      ultimately show ?thesis using None a by (auto simp: incrementForceCalls_def)
    qed (use h me(1) find None at memo in \<open>simp_all add: Potential_call_def compute_result Let_def\<close>)
  qed
qed

end

text \<open>A sequence of calls on one potential.\<close>

fun Potential_calls ::
    "'db libs \<Rightarrow> force_impl \<Rightarrow> PotType \<Rightarrow> ptr \<Rightarrow> config list \<Rightarrow> 'db core \<Rightarrow> (f64 \<times> f64 AtomMatrix) cpp list \<times> 'db core" where
  "Potential_calls L forceImpl mt cp [] s = ([], s)"
| "Potential_calls L forceImpl mt cp (c # cs) s =
     (case Potential_call L forceImpl mt cp c s of (r, s) \<Rightarrow>
      case Potential_calls L forceImpl mt cp cs s of (rs, s) \<Rightarrow> (r # rs, s))"

text \<open>
  C19: The cache is transparent.  Over any sequence of calls, starting from a database whose
  entries are right, every call returns or throws exactly what the potential without a cache
  would, provided the keys of the configurations in use differ; the database may lose
  writes.
\<close>

theorem cache_transparent:
  assumes store: "rocksdb_store L" and at: "attached cp d s" and memo: "memo_ok L forceImpl mt C d"
    and C: "\<And>c. c \<in> C \<Longrightarrow> config_ok c" and fills: "fills forceImpl C"
    and inj: "inj_on (\<lambda>c. key (config_key L mt c)) C" and cs: "set cs \<subseteq> C"
  shows "fst (Potential_calls L forceImpl mt cp cs s) = map (\<lambda>c. fst (Potential_compute forceImpl c s)) cs"
  using at memo cs
proof (induction cs arbitrary: s d)
  case (Cons c cs)
  have c: "c \<in> C" "config_ok c" using Cons.prems(3) C by auto
  obtain s' d' where "Potential_call L forceImpl mt cp c s = (computed_result forceImpl c, s')" "attached cp d' s'"
    "memo_ok L forceImpl mt C d'"
    using rocksdb_store.call_memo [OF store Cons.prems(1,2) c fills inj] by blast
  with Cons.IH [of d' s'] Cons.prems(3) show ?case by (simp add: compute_result case_prod_unfold)
qed simp

subsection \<open>A reliable store\<close>

text \<open>A database whose writes all succeed.\<close>

locale reliable_store = rocksdb_store +
  assumes put_get: "db_Get L (db_Put L d k v) k = Some v"
    and put_other: "k' \<noteq> k \<Longrightarrow> db_Get L (db_Put L d k v) k' = db_Get L d k'"

text \<open>A database in memory, and a hash function.\<close>

definition memory_libs :: "(string \<rightharpoonup> byte list) libs" where
  "memory_libs = \<lparr>XXH3_64bits = (\<lambda>bs. fold (\<lambda>b h. h * 31 + ucast b + 1) bs 0),
     db_Get = (\<lambda>d k. d k), db_Put = (\<lambda>d k v. d(k \<mapsto> v))\<rparr>"

interpretation memory: reliable_store memory_libs
  by unfold_locales (auto simp: memory_libs_def split: if_splits)

context reliable_store
begin

text \<open>The configurations that are not in the database yet.\<close>

lemma calls_counted:
  assumes C: "\<And>c. c \<in> C \<Longrightarrow> config_ok c" "\<And>c. c \<in> C \<Longrightarrow> is_returned (computed_result forceImpl c)" and fills: "fills forceImpl C"
    and inj: "inj_on (\<lambda>c. key (config_key L mt c)) C"
    and "attached cp d s" "memo_ok L forceImpl mt C d" "set cs \<subseteq> C"
  shows "forceCalls (stats (snd (Potential_calls L forceImpl mt cp cs s))) =
     forceCalls (stats s) + word_of_nat (card {c \<in> set cs. db_Get L d (key (config_key L mt c)) = None})"
  using assms(5,6,7)
proof (induction cs arbitrary: s d)
  case (Cons c cs)
  let ?k = "\<lambda>c. key (config_key L mt c)"
  let ?new = "\<lambda>d xs. {c \<in> set xs. db_Get L d (?k c) = None}"
  have c: "c \<in> C" "config_ok c" using Cons.prems(3) C by auto
  obtain e F where a: "computed_result forceImpl c = Returned (e, F)"
    using C(2) [OF c(1)] by (cases "computed_result forceImpl c") auto
  obtain s' d' where s': "Potential_call L forceImpl mt cp c s = (computed_result forceImpl c, s')" "attached cp d' s'"
    "memo_ok L forceImpl mt C d'"
    and d': "d' = (if db_Get L d (?k c) = None then db_Put L d (?k c) (le_bytes 8 e @ f64s_bytes (m_data F)) else d)"
    and n: "forceCalls (stats s') = forceCalls (stats s) + (if db_Get L d (?k c) = None then 1 else 0)"
    using call_memo [OF Cons.prems(1,2) c fills inj] unfolding a by auto
  have IH: "forceCalls (stats (snd (Potential_calls L forceImpl mt cp cs s'))) =
      forceCalls (stats s') + word_of_nat (card (?new d' cs))"
    using Cons.IH [OF s'(2,3)] Cons.prems(3) by simp
  have "word_of_nat (card (?new d (c # cs))) = (if db_Get L d (?k c) = None then 1 else 0) + (word_of_nat (card (?new d' cs)) :: usize)"
  proof (cases "db_Get L d (?k c)")
    case None
    have "db_Get L d' (?k c') = None \<longleftrightarrow> c' \<noteq> c \<and> db_Get L d (?k c') = None" if "c' \<in> set cs" for c'
    proof (cases "c' = c")
      case False
      with that inj c(1) Cons.prems(3) have "?k c' \<noteq> ?k c" by (auto simp: inj_on_def)
      with False None show ?thesis by (simp add: d' put_other)
    qed (simp add: d' None put_get)
    then have "?new d' cs = ?new d cs - {c}" by blast
    then have "?new d (c # cs) = insert c (?new d' cs)" "c \<notin> ?new d' cs" using None by auto
    with None show ?thesis by simp
  next
    case (Some v)
    then have "?new d (c # cs) = ?new d' cs" by (auto simp: d')
    with Some show ?thesis by simp
  qed
  with IH n s'(1) show ?case by (simp add: case_prod_unfold)
qed simp

end

text \<open>
  C20: Nothing is computed twice.  With a reliable, empty database and a potential that does not
  throw, a sequence of calls runs the implementation once for each different configuration,
  however often and in whatever order they are repeated.
\<close>

theorem cache_computes_once:
  assumes store: "reliable_store L" and at: "attached cp d s" and empty: "\<And>k. db_Get L d k = None"
    and C: "\<And>c. c \<in> set cs \<Longrightarrow> config_ok c" "\<And>c. c \<in> set cs \<Longrightarrow> is_returned (fst (Potential_compute forceImpl c s))"
    and fills: "fills forceImpl (set cs)" and inj: "inj_on (\<lambda>c. key (config_key L mt c)) (set cs)"
  shows "forceCalls (stats (snd (Potential_calls L forceImpl mt cp cs s))) =
     forceCalls (stats s) + word_of_nat (card (set cs))"
proof -
  have "memo_ok L forceImpl mt (set cs) d" by (simp add: memo_ok_def empty)
  then show ?thesis
    using reliable_store.calls_counted [OF store _ _ fills inj at, of cs] C empty by (simp add: compute_result)
qed

subsection \<open>Concrete calls\<close>

definition empty_core :: "(string \<rightharpoonup> byte list) core" where
  "empty_core = \<lparr>dbs = [2 \<mapsto> Map.empty], caches = [1 \<mapsto> \<lparr>db_ptr = 2, own_db = True\<rparr>], stats = registry_statics\<rparr>"

text \<open>A potential whose energy is the first coordinate.\<close>

definition first_coordinate :: force_impl where
  "first_coordinate fi fo = Returned (fo\<lparr>out_energy := hd (in_pos fi)\<rparr>)"

definition cell :: "f64 \<Rightarrow> box3" where
  "cell x = ((x, 1, 2), (3, 4, 5), (6, 7, 8))"

definition triangle :: "f64 \<Rightarrow> f64 AtomMatrix" where
  "triangle x = \<lparr>m_rows = 3, m_cols = 3, m_data = flatBox (cell x)\<rparr>"

lemma triangle_ok: "config_ok (triangle x, [1, 1, 1], bx)"
  by (simp add: triangle_def cell_def matrix_ok_def config_ok.simps)

lemma triangle_data: "m_data (triangle x) = flatBox (cell x)"
  by (simp add: triangle_def)

lemma empty_attached: "attached 1 Map.empty empty_core"
  by (simp add: attached_def empty_core_def)

lemma memory_Get: "db_Get memory_libs d k = d k"
  by (simp add: memory_libs_def)

lemma first_coordinate_fills: "fills first_coordinate C"
  by (auto simp: fills_def first_coordinate_def)

lemma first_coordinate_answer:
  "computed_result first_coordinate (triangle x, zs, bx) = Returned (x, AtomMatrix_Zero 3 3)"
  by (simp add: computed_result_def first_coordinate_def triangle_def cell_def)

theorem cache_transparent_witness:
  "fst (Potential_calls memory_libs first_coordinate LJ 1
      [(triangle 7, [1, 1, 1], cell 9), (triangle 7, [1, 1, 1], cell 9)] empty_core) =
   [Returned (7, AtomMatrix_Zero 3 3), Returned (7, AtomMatrix_Zero 3 3)]"
proof -
  have "fst (Potential_calls memory_libs first_coordinate LJ 1
      [(triangle 7, [1, 1, 1], cell 9), (triangle 7, [1, 1, 1], cell 9)] empty_core) =
    map (\<lambda>c. fst (Potential_compute first_coordinate c empty_core))
      [(triangle 7, [1, 1, 1], cell 9), (triangle 7, [1, 1, 1], cell 9)]"
    by (rule cache_transparent [where C = "{(triangle 7, [1, 1, 1], cell 9)}", OF memory.rocksdb_store_axioms empty_attached])
      (auto simp: memo_ok_def memory_Get first_coordinate_fills triangle_ok)
  then show ?thesis by (simp add: compute_result first_coordinate_answer)
qed

theorem cache_computes_once_witness:
  "forceCalls (stats (snd (Potential_calls memory_libs first_coordinate LJ 1
      [(triangle 7, [1, 1, 1], cell 9), (triangle 7, [1, 1, 1], cell 9)] empty_core))) = 1"
proof -
  have "forceCalls (stats (snd (Potential_calls memory_libs first_coordinate LJ 1
      [(triangle 7, [1, 1, 1], cell 9), (triangle 7, [1, 1, 1], cell 9)] empty_core))) =
    forceCalls (stats empty_core) + word_of_nat (card (set [(triangle 7, [1, 1, 1 :: i32], cell 9), (triangle 7, [1, 1, 1], cell 9)]))"
    by (rule cache_computes_once [OF memory.reliable_store_axioms empty_attached])
      (auto simp: memory_Get first_coordinate_fills triangle_ok compute_result first_coordinate_answer)
  then show ?thesis by (simp add: empty_core_def registry_statics_def)
qed

section \<open>Colliding keys\<close>

text \<open>
  C35: The cache confuses configurations.  The key is the exclusive or of the hashes of the
  positions, the atomic numbers, the box and the type, which does not depend on their
  order: with three atoms, positions and box have the same size, and exchanging them gives
  the same key whatever the hash function.  After one of the two configurations has been
  computed, a call with the other returns the first one's energy and forces.
\<close>

theorem cache_confuses_box:
  assumes store: "reliable_store L" and at: "attached cp d s" and c: "config_ok (P, zs, bx)" "config_ok (P', zs, bx')"
    and swapped: "m_data P' = flatBox bx" "flatBox bx' = m_data P"
    and miss: "db_Get L d (key (config_key L mt (P, zs, bx))) = None"
    and a: "fst (Potential_compute forceImpl (P, zs, bx) s) = Returned (e, F)"
    and fills: "fills forceImpl {(P, zs, bx)}"
  shows "fst (Potential_calls L forceImpl mt cp [(P, zs, bx), (P', zs, bx')] s) = [Returned (e, F), Returned (e, F)]"
proof -
  let ?c = "(P, zs, bx)" and ?c' = "(P', zs, bx')"
  let ?k = "key (config_key L mt ?c)" and ?v = "le_bytes 8 e @ f64s_bytes (m_data F)"
  have a': "computed_result forceImpl ?c = Returned (e, F)" using a by (simp add: compute_result)
  have "memo_ok L forceImpl mt {?c} d" by (simp add: memo_ok_def miss)
  from rocksdb_store.call_memo [OF reliable_store.axioms(1) [OF store] at this _ c(1) fills] obtain s' d' where
    1: "Potential_call L forceImpl mt cp ?c s = (Returned (e, F), s')" "attached cp d' s'" and "d' = db_Put L d ?k ?v"
    by (auto simp: a' miss)
  then have hit: "db_Get L d' ?k = Some ?v" by (simp add: reliable_store.put_get [OF store])
  have "length (m_data P) = 9" "length (m_data P') = 9" using swapped by (simp_all flip: swapped(2))
  with c have "unat (m_rows P) = unat (m_rows P')" by (simp add: config_ok.simps matrix_ok_def)
  then have rows: "m_rows P' = m_rows P" by (simp add: word_unat_eq_iff)
  have "config_key L mt ?c' = config_key L mt ?c"
    using swapped by (simp add: config_key.simps xor.commute xor.left_commute)
  with call_hit [OF 1(2) c(2), of L mt ?v] hit
  have "Potential_call L forceImpl mt cp ?c' s' = (deserialize_hit ?v (AtomMatrix_Zero (m_rows P) 3), s')"
    by (simp add: rows)
  also have "deserialize_hit ?v (AtomMatrix_Zero (m_rows P) 3) = Returned (e, F)"
    using computed_matrix(4) [OF a' fills _ c(1)] by simp
  finally show ?thesis using 1(1) by simp
qed

theorem cache_confuses_box_witness:
  "fst (Potential_calls memory_libs first_coordinate LJ 1
      [(triangle 7, [1, 1, 1], cell 9), (triangle 9, [1, 1, 1], cell 7)] empty_core) =
     [Returned (7, AtomMatrix_Zero 3 3), Returned (7, AtomMatrix_Zero 3 3)] \<and>
   fst (Potential_compute first_coordinate (triangle 9, [1, 1, 1], cell 7) empty_core) = Returned (9, AtomMatrix_Zero 3 3)"
proof -
  have "fst (Potential_calls memory_libs first_coordinate LJ 1
      [(triangle 7, [1, 1, 1], cell 9), (triangle 9, [1, 1, 1], cell 7)] empty_core) =
     [Returned (7, AtomMatrix_Zero 3 3), Returned (7, AtomMatrix_Zero 3 3)]"
    by (rule cache_confuses_box [OF memory.reliable_store_axioms empty_attached triangle_ok triangle_ok])
      (simp_all add: memory_Get first_coordinate_fills compute_result first_coordinate_answer triangle_data)
  then show ?thesis by (simp add: compute_result first_coordinate_answer)
qed

section \<open>Without a database\<close>

text \<open>
  Calls without a database.  With no cache, with a cache that was never given a database and
  with one whose database could not be opened, a call does exactly what the potential
  without a cache does.
\<close>

theorem cache_without_database:
  assumes c: "config_ok c" and self: "self \<noteq> null"
  shows "Potential_call L forceImpl mt null c s = Potential_compute forceImpl c s"
    and "Potential_call L forceImpl mt self c (PotentialCache_default self s) =
      Potential_compute forceImpl c (PotentialCache_default self s)"
    and "Potential_call L forceImpl mt self c (PotentialCache_open None self s) =
      Potential_compute forceImpl c (PotentialCache_open None self s)"
proof -
  from config_hash_ok [OF c, of L mt] obtain h where
    h: "config_hash L mt (call_input c) = Returned h" "KeyHash_ctor h = config_key L mt c" by blast
  show "Potential_call L forceImpl mt null c s = Potential_compute forceImpl c s"
    by (simp add: Potential_call_def h Let_def split: prod.split cpp.split)
  have "Potential_call L forceImpl mt self c s = Potential_compute forceImpl c s"
    if "caches s self = Some \<lparr>db_ptr = null, own_db = False\<rparr>" for s :: "'a core"
    using that self
    by (simp add: Potential_call_def h Let_def cache_find_def add_serialized_def compute_result split: prod.split cpp.split)
  then show "Potential_call L forceImpl mt self c (PotentialCache_default self s) =
      Potential_compute forceImpl c (PotentialCache_default self s)"
    "Potential_call L forceImpl mt self c (PotentialCache_open None self s) =
      Potential_compute forceImpl c (PotentialCache_open None self s)"
    by (simp_all add: PotentialCache_default_def PotentialCache_open_def)
qed

theorem cache_without_database_witness:
  "Potential_call memory_libs first_coordinate LJ 1 (triangle 7, [1, 1, 1], cell 9) (PotentialCache_default 1 empty_core) =
     Potential_compute first_coordinate (triangle 7, [1, 1, 1], cell 9) (PotentialCache_default 1 empty_core)"
  by (rule cache_without_database(2) [OF triangle_ok]) simp

section \<open>Who deletes the database\<close>

text \<open>
  \<open>cache_life B s\<close>: \<open>s\<close> is reached by opening, closing and using caches in any order, while the
  caller opens databases of its own, lends them to caches and deletes them; \<open>B\<close> are those the
  caller has not deleted yet.
\<close>

inductive cache_life :: "ptr set \<Rightarrow> 'db core \<Rightarrow> bool" where
  life_start: "dbs s = Map.empty \<Longrightarrow> caches s = Map.empty \<Longrightarrow> cache_life {} s"
| caller_open: "cache_life B s \<Longrightarrow> p \<noteq> null \<Longrightarrow> dbs s p = None \<Longrightarrow> cache_life (insert p B) (s\<lparr>dbs := (dbs s)(p \<mapsto> d)\<rparr>)"
| caller_delete: "cache_life B s \<Longrightarrow> p \<in> B \<Longrightarrow> delete_db p s = Returned s' \<Longrightarrow> cache_life (B - {p}) s'"
| life_default: "cache_life B s \<Longrightarrow> caches s self = None \<Longrightarrow> cache_life B (PotentialCache_default self s)"
| life_open: "cache_life B s \<Longrightarrow> caches s self = None \<Longrightarrow>
     (\<And>p d. opened = Some (p, d) \<Longrightarrow> p \<noteq> null \<and> dbs s p = None) \<Longrightarrow> cache_life B (PotentialCache_open opened self s)"
| life_set_db: "cache_life B s \<Longrightarrow> PotentialCache_set_db self p s = Returned s' \<Longrightarrow> cache_life B s'"
| life_destroy: "cache_life B s \<Longrightarrow> PotentialCache_dtor self s = Returned s' \<Longrightarrow> cache_life B s'"
| life_put: "cache_life B s \<Longrightarrow> add_serialized L self kv e F s = Returned s' \<Longrightarrow> cache_life B s'"

text \<open>Which cache owns which database.\<close>

definition owners :: "'db core \<Rightarrow> (ptr \<times> ptr) set" where
  "owners s = {(cp, p). \<exists>c. caches s cp = Some c \<and> own_db c \<and> db_ptr c = p}"

text \<open>Every database in \<open>D\<close> has exactly one owner: the caller, or a cache according to \<open>W\<close>.\<close>

definition one_owner :: "ptr set \<Rightarrow> ptr set \<Rightarrow> (ptr \<times> ptr) set \<Rightarrow> bool" where
  "one_owner B D W \<longleftrightarrow> null \<notin> D \<and> B \<inter> snd ` W = {} \<and> inj_on snd W \<and> D = B \<union> snd ` W"

abbreviation owned_once :: "ptr set \<Rightarrow> 'db core \<Rightarrow> bool" where
  "owned_once B s \<equiv> one_owner B (dom (dbs s)) (owners s)"

lemma one_owner_lend: "one_owner B D W \<Longrightarrow> p \<notin> D \<Longrightarrow> p \<noteq> null \<Longrightarrow> one_owner (insert p B) (insert p D) W"
  by (auto simp: one_owner_def)

lemma one_owner_take: "one_owner B D W \<Longrightarrow> p \<in> B \<Longrightarrow> one_owner (B - {p}) (D - {p}) W"
  unfolding one_owner_def by blast

lemma one_owner_give: "one_owner B D W \<Longrightarrow> p \<notin> D \<Longrightarrow> p \<noteq> null \<Longrightarrow> one_owner B (insert p D) (insert (cp, p) W)"
  by (auto simp: one_owner_def inj_on_def)

lemma one_owner_drop:
  assumes "one_owner B D W"
  shows "one_owner B (D - {p. (cp, p) \<in> W}) {w \<in> W. fst w \<noteq> cp}"
proof -
  have inj: "inj_on snd W" and D: "D = B \<union> snd ` W" "B \<inter> snd ` W = {}" "null \<notin> D"
    using assms by (auto simp: one_owner_def)
  have "snd ` {w \<in> W. fst w \<noteq> cp} = snd ` W - {p. (cp, p) \<in> W}"
    using inj by (force simp: inj_on_def)
  then have "D - {p. (cp, p) \<in> W} = B \<union> snd ` {w \<in> W. fst w \<noteq> cp}" using D by force
  moreover have "inj_on snd {w \<in> W. fst w \<noteq> cp}" using inj by (rule inj_on_subset) auto
  ultimately show ?thesis using D unfolding one_owner_def by blast
qed

text \<open>What the destructor and \<^verbatim>\<open>set_db\<close> do first.\<close>

lemma release_owned:
  assumes inv: "owned_once B s" and self: "caches s self = Some this"
  shows "(if own_db this \<and> db_ptr this \<noteq> null then delete_db (db_ptr this) s else Returned s) =
     Returned (s\<lparr>dbs := if own_db this then (dbs s)(db_ptr this := None) else dbs s\<rparr>)"
proof (cases "own_db this")
  case True
  with self have "db_ptr this \<in> snd ` owners s" by (force simp: owners_def)
  with inv have "db_ptr this \<in> dom (dbs s)" "null \<notin> dom (dbs s)" unfolding one_owner_def by blast+
  with True show ?thesis by (auto simp: delete_db_def)
qed simp

lemma disowned:
  assumes inv: "owned_once B s" and self: "caches s self = Some this"
    and dbs: "dbs s' = (if own_db this then (dbs s)(db_ptr this := None) else dbs s)"
    and own: "owners s' = {w \<in> owners s. fst w \<noteq> self}"
  shows "owned_once B s'"
proof -
  have "dom (dbs s') = dom (dbs s) - {p. (self, p) \<in> owners s}"
    using self by (auto simp: dbs owners_def split: if_splits)
  with one_owner_drop [OF inv, of self] show ?thesis by (simp add: own)
qed

lemma owners_upd:
  "owners (s\<lparr>dbs := D, caches := (caches s)(self := None)\<rparr>) = {w \<in> owners s. fst w \<noteq> self}"
  "owners (s\<lparr>dbs := D, caches := (caches s)(self \<mapsto> \<lparr>db_ptr = p, own_db = False\<rparr>)\<rparr>) = {w \<in> owners s. fst w \<noteq> self}"
  by (auto simp: owners_def split: if_splits)

lemma cache_life_owned_once: "cache_life B s \<Longrightarrow> owned_once B s"
proof (induction rule: cache_life.induct)
  case (life_start s)
  then show ?case by (simp add: one_owner_def owners_def)
next
  case (caller_open B s p d)
  then have "p \<notin> dom (dbs s)" by auto
  note one_owner_lend [OF caller_open(4) this caller_open(2)]
  moreover have "dom (dbs (s\<lparr>dbs := (dbs s)(p \<mapsto> d)\<rparr>)) = insert p (dom (dbs s))" by auto
  moreover have "owners (s\<lparr>dbs := (dbs s)(p \<mapsto> d)\<rparr>) = owners s" by (simp add: owners_def)
  ultimately show ?case by (simp only:)
next
  case (caller_delete B s p s')
  then have "s' = s\<lparr>dbs := (dbs s)(p := None)\<rparr>" by (auto simp: delete_db_def split: if_splits)
  then have "dom (dbs s') = dom (dbs s) - {p}" "owners s' = owners s" by (auto simp: owners_def split: if_splits)
  with one_owner_take [OF caller_delete(4,2)] show ?case by (simp only:)
next
  case (life_default B s self)
  then have "owners (PotentialCache_default self s) = owners s"
    by (auto simp: owners_def PotentialCache_default_def split: if_splits)
  with life_default show ?case by (simp add: PotentialCache_default_def)
next
  case (life_open B s self opened)
  show ?case
  proof (cases opened)
    case None
    with life_open have "owners (PotentialCache_open opened self s) = owners s"
      by (auto simp: owners_def PotentialCache_open_def split: if_splits)
    with life_open None show ?thesis by (simp add: PotentialCache_open_def)
  next
    case (Some pd)
    then obtain p d where pd: "opened = Some (p, d)" by (cases pd) simp
    with life_open have p: "p \<noteq> null" "p \<notin> dom (dbs s)" by auto
    have own: "owners (PotentialCache_open opened self s) = insert (self, p) (owners s)"
      using pd life_open(2) by (auto simp: owners_def PotentialCache_open_def split: if_splits)
    moreover have "dom (dbs (PotentialCache_open opened self s)) = insert p (dom (dbs s))"
      by (auto simp: pd PotentialCache_open_def)
    moreover note one_owner_give [OF life_open(4) p(2,1), of self]
    ultimately show ?thesis by (simp only:)
  qed
next
  case (life_set_db B s self p s')
  then obtain this where c: "caches s self = Some this"
    by (auto simp: PotentialCache_set_db_def split: option.splits)
  have "s' = s\<lparr>dbs := if own_db this then (dbs s)(db_ptr this := None) else dbs s,
      caches := (caches s)(self \<mapsto> \<lparr>db_ptr = p, own_db = False\<rparr>)\<rparr>"
    using life_set_db(2) c release_owned [OF life_set_db(3) c] by (simp add: PotentialCache_set_db_def)
  then show ?case by (intro disowned [OF life_set_db(3) c]) (simp_all only: owners_upd, simp)
next
  case (life_destroy B s self s')
  then obtain this where c: "caches s self = Some this"
    by (auto simp: PotentialCache_dtor_def split: option.splits)
  have "s' = s\<lparr>dbs := if own_db this then (dbs s)(db_ptr this := None) else dbs s,
      caches := (caches s)(self := None)\<rparr>"
    using life_destroy(2) c release_owned [OF life_destroy(3) c] by (simp add: PotentialCache_dtor_def)
  then show ?case by (intro disowned [OF life_destroy(3) c]) (simp_all only: owners_upd, simp)
next
  case (life_put B s L self kv e F s')
  from life_put(2) have "owners s' = owners s" "dom (dbs s') = dom (dbs s)"
    by (auto simp: add_serialized_def cpp_bind_Returned owners_def split: option.splits if_splits)
  with life_put(3) show ?case by simp
qed

text \<open>
  C30: Databases are deleted exactly once.  However caches are created, given databases by
  \<^verbatim>\<open>set_db\<close>, written through and destroyed, every live database belongs to exactly one owner, a
  cache that opened it or the caller; destroying a live cache and giving it another
  database are always defined, and delete the database it owns and no other.  The implicit copy
  constructor of the class is not among these operations; what it does is shown below.
\<close>

theorem cache_deletes_once:
  assumes "cache_life B s"
  shows "owned_once B s \<and>
     (\<forall>self this. caches s self = Some this \<longrightarrow>
        (\<exists>s'. PotentialCache_dtor self s = Returned s' \<and> cache_life B s' \<and>
           dom (dbs s') = dom (dbs s) - {p. (self, p) \<in> owners s}) \<and>
        (\<forall>p. \<exists>s'. PotentialCache_set_db self p s = Returned s' \<and> cache_life B s' \<and>
           dom (dbs s') = dom (dbs s) - {q. (self, q) \<in> owners s}))"
proof -
  note inv = cache_life_owned_once [OF assms]
  have "\<exists>s'. PotentialCache_dtor self s = Returned s' \<and> cache_life B s' \<and>
      dom (dbs s') = dom (dbs s) - {p. (self, p) \<in> owners s}" if c: "caches s self = Some this" for self this
  proof -
    have "PotentialCache_dtor self s = Returned (s\<lparr>dbs := if own_db this then (dbs s)(db_ptr this := None) else dbs s,
        caches := (caches s)(self := None)\<rparr>)" (is "_ = Returned ?s")
      using c release_owned [OF inv c] by (simp add: PotentialCache_dtor_def)
    moreover from this have "cache_life B ?s" by (rule life_destroy [OF assms])
    moreover have "dom (dbs ?s) = dom (dbs s) - {p. (self, p) \<in> owners s}" using c by (auto simp: owners_def)
    ultimately show ?thesis by blast
  qed
  moreover have "\<exists>s'. PotentialCache_set_db self p s = Returned s' \<and> cache_life B s' \<and>
      dom (dbs s') = dom (dbs s) - {q. (self, q) \<in> owners s}" if c: "caches s self = Some this" for self this p
  proof -
    have "PotentialCache_set_db self p s = Returned (s\<lparr>dbs := if own_db this then (dbs s)(db_ptr this := None) else dbs s,
        caches := (caches s)(self \<mapsto> \<lparr>db_ptr = p, own_db = False\<rparr>)\<rparr>)" (is "_ = Returned ?s")
      using c release_owned [OF inv c] by (simp add: PotentialCache_set_db_def)
    moreover from this have "cache_life B ?s" by (rule life_set_db [OF assms])
    moreover have "dom (dbs ?s) = dom (dbs s) - {q. (self, q) \<in> owners s}" using c by (auto simp: owners_def)
    ultimately show ?thesis by blast
  qed
  ultimately show ?thesis using inv by blast
qed

definition one_cache :: "nat core" where
  "one_cache = PotentialCache_open (Some (2, 5)) 1 \<lparr>dbs = Map.empty, caches = Map.empty, stats = registry_statics\<rparr>"

lemma one_cache_life: "cache_life {} one_cache"
  unfolding one_cache_def by (rule life_open [OF life_start]) auto

lemma one_cache_simps: "caches one_cache 1 = Some \<lparr>db_ptr = 2, own_db = True\<rparr>" "dbs one_cache = [2 \<mapsto> 5]"
  "owners one_cache = {(1, 2)}"
  by (auto simp: one_cache_def PotentialCache_open_def owners_def split: if_splits)

theorem cache_deletes_once_witness: "\<exists>s'. PotentialCache_dtor 1 one_cache = Returned s' \<and> dom (dbs s') = {}"
proof -
  obtain s' where "PotentialCache_dtor 1 one_cache = Returned s'"
    "dom (dbs s') = dom (dbs one_cache) - {p. (1, p) \<in> owners one_cache}"
    using cache_deletes_once [OF one_cache_life] one_cache_simps(1) by blast
  then show ?thesis by (auto simp: one_cache_simps)
qed

text \<open>
  A copied cache is deleted twice.  The implicit copy constructor copies the ownership flag
  with the pointer; when a cache that owns its database is copied, destroying the original
  and then the copy deletes the database a second time, which is undefined.
\<close>

theorem cache_copy_deletes_twice:
  assumes "cache_life B s" "(self, p) \<in> owners s" "other \<noteq> self"
  shows "\<exists>s1 s2. PotentialCache_copy other self s = Returned s1 \<and> PotentialCache_dtor self s1 = Returned s2 \<and>
     PotentialCache_dtor other s2 = Undef"
proof -
  from assms(2) obtain c where c: "caches s self = Some c" "own_db c" "db_ptr c = p" by (auto simp: owners_def)
  have "p \<in> dom (dbs s)" "null \<notin> dom (dbs s)"
    using cache_life_owned_once [OF assms(1)] assms(2) unfolding one_owner_def by force+
  then obtain d where d: "dbs s p = Some d" "p \<noteq> null" by auto
  let ?s1 = "s\<lparr>caches := (caches s)(other \<mapsto> c)\<rparr>"
  have "PotentialCache_copy other self s = Returned ?s1" using c by (simp add: PotentialCache_copy_def)
  moreover have "PotentialCache_dtor self ?s1 =
      Returned (?s1\<lparr>dbs := (dbs s)(p := None), caches := (caches ?s1)(self := None)\<rparr>)" (is "_ = Returned ?s2")
    using c d assms(3) by (simp add: PotentialCache_dtor_def delete_db_def)
  moreover have "PotentialCache_dtor other ?s2 = Undef"
    using c d assms(3) by (simp add: PotentialCache_dtor_def delete_db_def)
  ultimately show ?thesis by blast
qed

theorem cache_copy_deletes_twice_witness:
  "\<exists>s1 s2. PotentialCache_copy 3 1 one_cache = Returned s1 \<and> PotentialCache_dtor 1 s1 = Returned s2 \<and>
     PotentialCache_dtor 3 s2 = Undef"
  by (rule cache_copy_deletes_twice [OF one_cache_life, of _ 2]) (simp_all add: one_cache_simps)

end
