(* ===== verification/Rgpot_Bridge.thy ===== *)
theory Rgpot_Bridge
  imports Rgpot_Wire Rgpot_Cache Rgpot_Cpp
begin

text \<open>
  The RPC client and server of the C++ core: the conversions of
  \<^verbatim>\<open>types/adapters/capnp/capnp_adapter.hpp\<close>, the server of \<^verbatim>\<open>rpc/server.cpp\<close> and the C functions of
  \<^verbatim>\<open>rpc/pot_bridge.cc\<close>.
\<close>

section \<open>Definitions\<close>

subsection \<open>Conversions\<close>

text \<open>
  The elements of a Cap'n Proto list.  The index parameter has 32 bits, and outside a debug
  build of the library the bounds are not checked.
\<close>

definition list_at :: "'a list \<Rightarrow> nat \<Rightarrow> 'a cpp" where
  "list_at xs i = peek xs (i mod 2 ^ 32)"

definition list_set :: "'a list \<Rightarrow> nat \<Rightarrow> 'a \<Rightarrow> 'a list cpp" where
  "list_set xs i x = poke xs (i mod 2 ^ 32) x"

definition convertPositionsFromCapnp :: "f64 list \<Rightarrow> usize \<Rightarrow> f64 AtomMatrix cpp" where
  "convertPositionsFromCapnp capnpPos numAtoms =
     (let nativePositions = AtomMatrix_new numAtoms 3 in
      cpp_bind (loop_over [0..<unat (numAtoms * 3)] (\<lambda>i dat. cpp_bind (list_at capnpPos i) (\<lambda>x. poke dat i x))
        (m_data nativePositions)) (\<lambda>dat.
      Returned (nativePositions\<lparr>m_data := dat\<rparr>)))"

definition convertAtomNumbersFromCapnp :: "i32 list \<Rightarrow> i32 list cpp" where
  "convertAtomNumbersFromCapnp capnpAtmnrs =
     loop_over [0..<length capnpAtmnrs] (\<lambda>i v. cpp_bind (list_at capnpAtmnrs i) (\<lambda>x. poke v i x))
       (replicate (length capnpAtmnrs) 0)"

definition box_row :: "f64 list \<Rightarrow> nat \<Rightarrow> row3 cpp" where
  "box_row capnpBox i =
     cpp_bind (list_at capnpBox (i * 3)) (\<lambda>a.
     cpp_bind (list_at capnpBox (i * 3 + 1)) (\<lambda>b.
     cpp_bind (list_at capnpBox (i * 3 + 2)) (\<lambda>c.
     Returned (a, b, c))))"

definition convertBoxMatrixFromCapnp :: "f64 list \<Rightarrow> box3 cpp" where
  "convertBoxMatrixFromCapnp capnpBox =
     cpp_bind (box_row capnpBox 0) (\<lambda>r0.
     cpp_bind (box_row capnpBox 1) (\<lambda>r1.
     cpp_bind (box_row capnpBox 2) (\<lambda>r2.
     Returned (r0, r1, r2))))"

definition populatePositionsToCapnp :: "f64 list \<Rightarrow> f64 AtomMatrix \<Rightarrow> f64 list cpp" where
  "populatePositionsToCapnp capnpPos pmat =
     loop_over [0..<unat (m_rows pmat * m_cols pmat)]
       (\<lambda>i b. cpp_bind (peek (m_data pmat) i) (\<lambda>x. list_set b i x)) capnpPos"

definition populateForcesToCapnp :: "f64 list \<Rightarrow> f64 AtomMatrix \<Rightarrow> f64 list cpp" where
  "populateForcesToCapnp capnpForces fmat =
     loop_over [0..<unat (m_rows fmat * m_cols fmat)]
       (\<lambda>i b. cpp_bind (peek (m_data fmat) i) (\<lambda>x. list_set b i x)) capnpForces"

definition populateAtomNumbersToCapnp :: "i32 list \<Rightarrow> i32 list \<Rightarrow> i32 list cpp" where
  "populateAtomNumbersToCapnp capnpAtmnrs atomNumbers =
     loop_over [0..<length atomNumbers] (\<lambda>i b. cpp_bind (peek atomNumbers i) (\<lambda>x. list_set b i x)) capnpAtmnrs"

definition populateBoxMatrixToCapnp :: "f64 list \<Rightarrow> box3 \<Rightarrow> f64 list cpp" where
  "populateBoxMatrixToCapnp capnpBox boxMatrix =
     loop_over [0..<3] (\<lambda>i. loop_over [0..<3] (\<lambda>j b. list_set b (i * 3 + j) (flatBox boxMatrix ! (i * 3 + j)))) capnpBox"

subsection \<open>The server\<close>

text \<open>
  Accessors throw on a malformed message; \<open>what\<close> is the text of the exception.  The potential is
  called through the virtual \<^verbatim>\<open>operator()\<close>, which may change the state \<open>'s\<close> of the process.
\<close>

definition got :: "(capnp_error \<Rightarrow> string) \<Rightarrow> capnp_error + 'a \<Rightarrow> 'a cpp" where
  "got what x = (case x of Inl e \<Rightarrow> Thrown (what e) | Inr a \<Rightarrow> Returned a)"

definition request_config :: "(capnp_error \<Rightarrow> string) \<Rightarrow> capnp_error + fip_reader \<Rightarrow> (usize \<times> config) cpp" where
  "request_config what params =
     cpp_bind (got what params) (\<lambda>fip.
     cpp_bind (got what (fr_pos fip)) (\<lambda>pos.
     let numAtoms = ucast (list_len pos) div 3 :: usize in
     cpp_bind (got what (fr_atmnrs fip)) (\<lambda>atmnrs.
     if ucast (list_len atmnrs) \<noteq> numAtoms then Thrown ''AtomNumbers size mismatch''
     else
       cpp_bind (convertPositionsFromCapnp pos numAtoms) (\<lambda>nativePositions.
       cpp_bind (convertAtomNumbersFromCapnp atmnrs) (\<lambda>nativeAtomTypes.
       cpp_bind (got what (fr_box fip)) (\<lambda>bx.
       cpp_bind (convertBoxMatrixFromCapnp bx) (\<lambda>nativeBoxMatrix.
       Returned (numAtoms, nativePositions, nativeAtomTypes, nativeBoxMatrix))))))))"

definition build_reply :: "usize \<Rightarrow> f64 \<Rightarrow> f64 AtomMatrix \<Rightarrow> result_builder cpp" where
  "build_reply numAtoms e fmat =
     cpp_bind (populateForcesToCapnp (replicate (unat (ucast (numAtoms * 3) :: u32)) 0) fmat) (\<lambda>forcesList.
     Returned \<lparr>rb_energy = e, rb_forces = forcesList\<rparr>)"

definition GenericPotImpl_calculate ::
    "(capnp_error \<Rightarrow> string) \<Rightarrow> (config \<Rightarrow> 's \<Rightarrow> (f64 \<times> f64 AtomMatrix) cpp \<times> 's)
      \<Rightarrow> capnp_error + fip_reader \<Rightarrow> 's \<Rightarrow> result_builder cpp \<times> 's" where
  "GenericPotImpl_calculate what m_potential params s =
     (case request_config what params of
        Thrown e \<Rightarrow> (Thrown e, s)
      | Undef \<Rightarrow> (Undef, s)
      | Returned (numAtoms, c) \<Rightarrow>
          (case m_potential c s of
             (Returned (e, fmat), s') \<Rightarrow> (build_reply numAtoms e fmat, s')
           | (Thrown m, s') \<Rightarrow> (Thrown m, s')
           | (Undef, s') \<Rightarrow> (Undef, s')))"

text \<open>
  \<^verbatim>\<open>std::stoi\<close>: white space, a sign and digits, what follows is ignored; \<open>None\<close> is one of its exceptions.
\<close>

definition digits_value :: "string \<Rightarrow> int" where
  "digits_value ds = int (read_nat ds)"

definition is_digit :: "char \<Rightarrow> bool" where
  "is_digit c \<longleftrightarrow> 48 \<le> (of_char c :: nat) \<and> (of_char c :: nat) \<le> 57"

definition is_space :: "char \<Rightarrow> bool" where
  "is_space c \<longleftrightarrow> (of_char c :: nat) \<in> {9, 10, 11, 12, 13, 32}"

definition signed_digits :: "string \<Rightarrow> bool \<times> string" where
  "signed_digits t = (case t of
      [] \<Rightarrow> (False, [])
    | c # cs \<Rightarrow> if c = CHR ''-'' then (True, takeWhile is_digit cs)
               else if c = CHR ''+'' then (False, takeWhile is_digit cs)
               else (False, takeWhile is_digit t))"

definition stoi :: "string \<Rightarrow> int option" where
  "stoi t = (let (neg, ds) = signed_digits (dropWhile is_space t);
                 k = (if neg then - digits_value ds else digits_value ds)
             in if ds = [] \<or> \<not> fits_int k then None else Some k)"

text \<open>
  \<^verbatim>\<open>main\<close>: the exit code, or the potential that is served and where; with what was printed to
  \<^verbatim>\<open>cerr\<close>.  The port parameter of the library is an unsigned int.
\<close>

datatype server_run = Exit int | Serve PotType string u32

definition server_main :: "string \<Rightarrow> string list \<Rightarrow> server_run \<times> string list" where
  "server_main prog args =
     (case args of
        port_arg # pot_type # _ \<Rightarrow>
          let (port, err) = (case stoi port_arg of
                  Some k \<Rightarrow> (k, [])
                | None \<Rightarrow> (12345, [''Invalid port argument '' @ [CHR 0x27] @ port_arg @ [CHR 0x27] @ ''. Using default 12345.'']))
          in if pot_type = ''CuH2'' then (Serve CuH2 ''localhost'' (word_of_int port), err)
             else if pot_type = ''LJ'' then (Serve LJ ''localhost'' (word_of_int port), err)
             else (Exit 1, err @ [''Error: Unknown potential type '' @ [CHR 0x27] @ pot_type @ [CHR 0x27]])
      | _ \<Rightarrow> (Exit 1, [''Usage: '' @ prog @ '' <port> <PotentialType>'', ''  Available PotentialTypes: CuH2, LJ'']))"

subsection \<open>The bridge\<close>

text \<open>
  The library: connecting gives a capability or throws (\<open>None\<close>); a call gives a response whose
  accessors may throw, or throws itself, a standard exception with its text or another one.  The
  exception of a setter, for a list longer than the format allows, counts as one of the call.
\<close>

record ez_rpc =
  ez_connect :: "string \<Rightarrow> nat option"
  ez_call :: "nat \<Rightarrow> fip_builder \<Rightarrow> string option + (capnp_error + result_reader)"
  ez_what :: "capnp_error \<Rightarrow> string"

record PotClient =
  capability :: nat
  client_error :: string

record bridge =
  pot_clients :: "ptr \<rightharpoonup> PotClient"
  next_client :: ptr

definition pot_client_init :: "ez_rpc \<Rightarrow> string option \<Rightarrow> i32 \<Rightarrow> bridge \<Rightarrow> ptr \<times> bridge" where
  "pot_client_init L host port s =
     (case host of
        None \<Rightarrow> (null, s)
      | Some h \<Rightarrow>
          (case ez_connect L (h @ '':'' @ show_int (sint port)) of
             None \<Rightarrow> (null, s)
           | Some cap \<Rightarrow>
               (next_client s,
                s\<lparr>pot_clients := (pot_clients s)(next_client s \<mapsto> \<lparr>capability = cap, client_error = []\<rparr>),
                  next_client := Suc (next_client s)\<rparr>)))"

definition pot_client_free :: "ptr \<Rightarrow> bridge \<Rightarrow> bridge cpp" where
  "pot_client_free client s =
     (if client = null then Returned s
      else if pot_clients s client = None then Undef
      else Returned (s\<lparr>pot_clients := (pot_clients s)(client := None)\<rparr>))"

text \<open>A view of the first elements of an array, which the setter copies.\<close>

definition array_view :: "'a list \<Rightarrow> int \<Rightarrow> 'a list cpp" where
  "array_view xs n = (if 0 \<le> n \<and> n \<le> int (length xs) then Returned (take (nat n) xs) else Undef)"

definition set_error :: "ptr \<Rightarrow> PotClient \<Rightarrow> string \<Rightarrow> bridge \<Rightarrow> bridge" where
  "set_error client c msg s = s\<lparr>pot_clients := (pot_clients s)(client \<mapsto> c\<lparr>client_error := msg\<rparr>)\<rparr>"

definition wrong_size :: string where
  "wrong_size = ''Server returned force array of incorrect size''"

text \<open>The status, the state, and what the two output pointers hold afterwards.\<close>

definition pot_calculate ::
    "ez_rpc \<Rightarrow> ptr \<Rightarrow> i32 \<Rightarrow> f64 list \<Rightarrow> i32 list \<Rightarrow> f64 list \<Rightarrow> f64 \<Rightarrow> f64 list \<Rightarrow> bridge
      \<Rightarrow> (int \<times> bridge \<times> f64 \<times> f64 list) cpp" where
  "pot_calculate L client natoms pos atmnrs bx energy_out forces_out s =
     (if client = null then Returned (- 1, s, energy_out, forces_out)
      else case pot_clients s client of
        None \<Rightarrow> Undef
      | Some c \<Rightarrow>
          let n3 = sint natoms * 3 in
          if \<not> fits_int n3 then Undef
          else
            cpp_bind (array_view pos n3) (\<lambda>pos_view.
            cpp_bind (array_view atmnrs (sint natoms)) (\<lambda>atm_view.
            cpp_bind (array_view bx 9) (\<lambda>box_view.
            case ez_call L (capability c) \<lparr>fb_pos = pos_view, fb_atmnrs = atm_view, fb_box = box_view\<rparr> of
              Inl (Some e) \<Rightarrow> Returned (- 1, set_error client c e s, energy_out, forces_out)
            | Inl None \<Rightarrow> Returned (- 1, set_error client c ''Unknown C++ exception'' s, energy_out, forces_out)
            | Inr (Inl e) \<Rightarrow> Returned (- 1, set_error client c (ez_what L e) s, energy_out, forces_out)
            | Inr (Inr result) \<Rightarrow>
                (case rr_forces result of
                   Inl e \<Rightarrow> Returned (- 1, set_error client c (ez_what L e) s, rr_energy result, forces_out)
                 | Inr res_forces \<Rightarrow>
                     if (ucast (list_len res_forces) :: usize) \<noteq> word_of_int n3
                     then Returned (- 2, set_error client c wrong_size s, rr_energy result, forces_out)
                     else
                       cpp_bind (loop_over [0..<unat (list_len res_forces)]
                         (\<lambda>i F. cpp_bind (list_at res_forces i) (\<lambda>x. poke F i x)) forces_out) (\<lambda>F.
                       Returned (0, set_error client c [] s, rr_energy result, F)))))))"

definition pot_get_last_error :: "ptr \<Rightarrow> bridge \<Rightarrow> string cpp" where
  "pot_get_last_error client s =
     (if client = null then Returned []
      else case pot_clients s client of None \<Rightarrow> Undef | Some c \<Rightarrow> Returned (client_error c))"

section \<open>The conversions\<close>

text \<open>A loop that copies the first \<open>n\<close> elements of one array over those of another.\<close>

lemma copy_loop:
  assumes "n \<le> length src" "n \<le> length dst"
    and "\<And>i. i < n \<Longrightarrow> rd src i = Returned (src ! i)"
    and "\<And>i d x. i < n \<Longrightarrow> length d = length dst \<Longrightarrow> wr d i x = Returned (d[i := x])"
  shows "loop_over [0..<n] (\<lambda>i d. cpp_bind (rd src i) (\<lambda>x. wr d i x)) dst = Returned (take n src @ drop n dst)"
proof -
  let ?f = "\<lambda>i d. d[i := src ! i]"
  have "loop_over [0..<n] (\<lambda>i d. cpp_bind (rd src i) (\<lambda>x. wr d i x)) dst = Returned (fold ?f [0..<n] dst) \<and>
      length (fold ?f [0..<n] dst) = length dst"
    by (rule loop_over_fold [where I = "\<lambda>d. length d = length dst"]) (use assms in auto)
  moreover have "fold ?f [0..<m] dst = take m src @ drop m dst" if "m \<le> n" for m
    using that
  proof (induction m)
    case (Suc m)
    then have "m < length src" "m < length dst" using assms by simp_all
    with Suc show ?case by (simp add: list_update_append take_Suc_conv_app_nth Cons_nth_drop_Suc [symmetric])
  qed simp
  ultimately show ?thesis by simp
qed

lemma list_access:
  "i < length xs \<Longrightarrow> length xs \<le> 2 ^ 32 \<Longrightarrow> list_at xs i = Returned (xs ! i)"
  "i < length xs \<Longrightarrow> length xs \<le> 2 ^ 32 \<Longrightarrow> list_set xs i x = Returned (xs[i := x])"
  by (simp_all add: list_at_def list_set_def)

lemma positions_converted:
  assumes "3 * unat n \<le> length xs" "length xs < 2 ^ 32"
  shows "convertPositionsFromCapnp xs n = Returned \<lparr>m_rows = n, m_cols = 3, m_data = take (3 * unat n) xs\<rparr>"
proof -
  have n: "unat (n * 3) = 3 * unat n" using unat_times_64 [of n 3] assms by simp
  have "loop_over [0..<3 * unat n] (\<lambda>i d. cpp_bind (list_at xs i) (\<lambda>x. poke d i x)) (replicate (3 * unat n) 0) =
      Returned (take (3 * unat n) xs @ drop (3 * unat n) (replicate (3 * unat n) 0))"
    by (rule copy_loop) (use assms in \<open>auto simp: list_access\<close>)
  then show ?thesis by (simp add: convertPositionsFromCapnp_def AtomMatrix_new_def n)
qed

lemma numbers_converted:
  assumes "length zs < 2 ^ 32"
  shows "convertAtomNumbersFromCapnp zs = Returned zs"
proof -
  have "loop_over [0..<length zs] (\<lambda>i d. cpp_bind (list_at zs i) (\<lambda>x. poke d i x)) (replicate (length zs) 0) =
      Returned (take (length zs) zs @ drop (length zs) (replicate (length zs) 0))"
    by (rule copy_loop) (use assms in \<open>auto simp: list_access\<close>)
  then show ?thesis by (simp add: convertAtomNumbersFromCapnp_def)
qed

lemma box_converted:
  assumes "length bs = 9"
  shows "\<exists>bx. convertBoxMatrixFromCapnp bs = Returned bx \<and> flatBox bx = bs"
proof -
  have bs: "bs = map (\<lambda>i. bs ! i) [0..<9]" using assms by (simp flip: assms add: map_nth)
  also have "[0..<9] = [0, 1, 2, 3, 4, 5, 6, 7, 8 :: nat]" by (simp add: upt_conv_Cons)
  finally have "flatBox ((bs ! 0, bs ! 1, bs ! 2), (bs ! 3, bs ! 4, bs ! 5), (bs ! 6, bs ! 7, bs ! 8)) = bs" by simp
  moreover have "convertBoxMatrixFromCapnp bs =
      Returned ((bs ! 0, bs ! 1, bs ! 2), (bs ! 3, bs ! 4, bs ! 5), (bs ! 6, bs ! 7, bs ! 8))"
    using assms by (simp add: convertBoxMatrixFromCapnp_def box_row_def list_access) (simp add: numeral_2_eq_2)
  ultimately show ?thesis by blast
qed

lemma short_box_read: "length bs < 9 \<Longrightarrow> convertBoxMatrixFromCapnp bs = Undef"
  by (auto simp: convertBoxMatrixFromCapnp_def box_row_def list_at_def peek_def)

lemma matrix_populated:
  assumes "matrix_ok m" "length l = length (m_data m)" "length l \<le> 2 ^ 32"
  shows "populatePositionsToCapnp l m = Returned (m_data m)" "populateForcesToCapnp l m = Returned (m_data m)"
proof -
  have n: "unat (m_rows m * m_cols m) = length (m_data m)"
    using assms(1) by (simp add: matrix_ok_def unat_times_64)
  have "loop_over [0..<length (m_data m)] (\<lambda>i b. cpp_bind (peek (m_data m) i) (\<lambda>x. list_set b i x)) l =
      Returned (take (length (m_data m)) (m_data m) @ drop (length (m_data m)) l)"
    by (rule copy_loop) (use assms in \<open>auto simp: list_access\<close>)
  then show "populatePositionsToCapnp l m = Returned (m_data m)" "populateForcesToCapnp l m = Returned (m_data m)"
    using assms(2) by (simp_all add: populatePositionsToCapnp_def populateForcesToCapnp_def n)
qed

lemma loop_over_unroll:
  "loop_over (i # is) body = (\<lambda>s. cpp_bind (body i s) (loop_over is body))" "loop_over [] body = Returned"
  by (simp_all add: fun_eq_iff)

lemma box_populated: "populateBoxMatrixToCapnp (replicate 9 0) bx = Returned (flatBox bx)"
proof -
  have u3: "[0..<3] = [0, 1, 2 :: nat]" and u9: "[0..<9] = [0, 1, 2, 3, 4, 5, 6, 7, 8 :: nat]"
    by (simp_all add: upt_conv_Cons)
  have "populateBoxMatrixToCapnp (replicate 9 0) bx =
      loop_over [0..<9] (\<lambda>i b. cpp_bind (peek (flatBox bx) i) (\<lambda>x. list_set b i x)) (replicate 9 0)"
    unfolding populateBoxMatrixToCapnp_def u3 u9 by (simp add: cpp_bind_assoc loop_over_unroll) (simp add: numeral_2_eq_2)
  also have "\<dots> = Returned (take 9 (flatBox bx) @ drop 9 (replicate 9 0))"
    by (rule copy_loop) (auto simp: list_access)
  finally show ?thesis by simp
qed

text \<open>
  Conversion to a message and back gives the same positions, numbers and cell.
\<close>

theorem adapter_roundtrip:
  assumes "matrix_ok m" "m_cols m = 3" "length (m_data m) < 2 ^ 32" "length zs < 2 ^ 32"
  shows "cpp_bind (populatePositionsToCapnp (replicate (length (m_data m)) 0) m)
       (\<lambda>l. convertPositionsFromCapnp l (m_rows m)) = Returned m \<and>
     cpp_bind (populateAtomNumbersToCapnp (replicate (length zs) 0) zs) convertAtomNumbersFromCapnp = Returned zs \<and>
     cpp_bind (populateBoxMatrixToCapnp (replicate 9 0) bx) convertBoxMatrixFromCapnp = Returned bx"
proof (intro conjI)
  have "3 * unat (m_rows m) = length (m_data m)" using assms(1,2) by (simp add: matrix_ok_def)
  with positions_converted [of "m_rows m" "m_data m"] matrix_populated(1) [of m "replicate (length (m_data m)) 0"] assms
  show "cpp_bind (populatePositionsToCapnp (replicate (length (m_data m)) 0) m) (\<lambda>l. convertPositionsFromCapnp l (m_rows m)) = Returned m"
    by (cases m) simp
  have "loop_over [0..<length zs] (\<lambda>i b. cpp_bind (peek zs i) (\<lambda>x. list_set b i x)) (replicate (length zs) 0) =
      Returned (take (length zs) zs @ drop (length zs) (replicate (length zs) 0))"
    by (rule copy_loop) (use assms(4) in \<open>auto simp: list_access\<close>)
  with numbers_converted [OF assms(4)]
  show "cpp_bind (populateAtomNumbersToCapnp (replicate (length zs) 0) zs) convertAtomNumbersFromCapnp = Returned zs"
    by (simp add: populateAtomNumbersToCapnp_def)
  have "populateBoxMatrixToCapnp (replicate 9 0) bx = Returned (flatBox bx)" by (rule box_populated)
  moreover have "convertBoxMatrixFromCapnp (flatBox bx) = Returned bx"
    by (cases bx rule: flatBox.cases) (simp add: convertBoxMatrixFromCapnp_def box_row_def list_at_def peek_def)
  ultimately show "cpp_bind (populateBoxMatrixToCapnp (replicate 9 0) bx) convertBoxMatrixFromCapnp = Returned bx" by simp
qed

section \<open>The server\<close>

text \<open>A request whose lists have the sizes of one configuration and fit a message.\<close>

definition fair_request :: "f64 list \<Rightarrow> i32 list \<Rightarrow> f64 list \<Rightarrow> bool" where
  "fair_request xs zs bs \<longleftrightarrow> length xs = 3 * length zs \<and> length xs < max_list \<and> length bs = 9"

definition received :: "fip_builder \<Rightarrow> capnp_error + fip_reader" where
  "received q = Inr \<lparr>fr_pos = Inr (fb_pos q), fr_atmnrs = Inr (fb_atmnrs q), fr_box = Inr (fb_box q)\<rparr>"

lemma list_len_64: "length xs < 2 ^ 32 \<Longrightarrow> (ucast (list_len xs) :: usize) = word_of_nat (length xs)"
  by (simp add: list_len_def word_unat_eq_iff unsigned_ucast_eq take_bit_nat_eq_self)

lemma atom_count: "3 * k < 2 ^ 32 \<Longrightarrow> (word_of_nat (3 * k) :: usize) div 3 = word_of_nat k"
  using unat_times_64 [of 3 "word_of_nat k"] by (simp add: word_unat_eq_iff unat_div)

lemma request_understood:
  assumes "fair_request xs zs bs"
  defines "n \<equiv> word_of_nat (length zs)"
  shows "\<exists>bx. request_config what (received \<lparr>fb_pos = xs, fb_atmnrs = zs, fb_box = bs\<rparr>) =
       Returned (n, \<lparr>m_rows = n, m_cols = 3, m_data = xs\<rparr>, zs, bx) \<and> flatBox bx = bs \<and>
     config_ok (\<lparr>m_rows = n, m_cols = 3, m_data = xs\<rparr>, zs, bx)"
proof -
  have len: "length xs = 3 * length zs" "length xs < 2 ^ 32" "length bs = 9"
    using assms(1) by (simp_all add: fair_request_def max_list_def)
  have n: "unat n = length zs" "(ucast (list_len zs) :: usize) = n" "(ucast (list_len xs) :: usize) div 3 = n"
    using len list_len_64 [of xs] list_len_64 [of zs] atom_count [of "length zs"] by (simp_all add: n_def)
  obtain bx where bx: "convertBoxMatrixFromCapnp bs = Returned bx" "flatBox bx = bs" using box_converted [OF len(3)] by blast
  have "convertPositionsFromCapnp xs n = Returned \<lparr>m_rows = n, m_cols = 3, m_data = xs\<rparr>"
    using positions_converted [of n xs] len n(1) by simp
  moreover have "convertAtomNumbersFromCapnp zs = Returned zs" using numbers_converted [of zs] len by simp
  ultimately have "request_config what (received \<lparr>fb_pos = xs, fb_atmnrs = zs, fb_box = bs\<rparr>) =
      Returned (n, \<lparr>m_rows = n, m_cols = 3, m_data = xs\<rparr>, zs, bx)"
    using n bx by (simp add: request_config_def received_def got_def)
  moreover have "config_ok (\<lparr>m_rows = n, m_cols = 3, m_data = xs\<rparr>, zs, bx)"
    using len n(1) by (simp add: config_ok.simps matrix_ok_def)
  ultimately show ?thesis using bx(2) by blast
qed

lemma reply_built:
  assumes "matrix_ok M" "m_rows M = n" "m_cols M = 3" "length (m_data M) < 2 ^ 32"
  shows "build_reply n e M = Returned \<lparr>rb_energy = e, rb_forces = m_data M\<rparr>"
proof -
  have len: "length (m_data M) = 3 * unat n" using assms by (simp add: matrix_ok_def)
  have "unat (n * 3) = 3 * unat n" using unat_times_64 [of n 3] assms(4) len by simp
  then have "unat (ucast (n * 3) :: u32) = length (m_data M)" using assms(4) len by (simp add: unsigned_ucast_eq take_bit_nat_eq_self)
  with matrix_populated(2) [of M "replicate (length (m_data M)) 0"] assms show ?thesis by (simp add: build_reply_def)
qed

text \<open>
  The method of the server over the call operator of a potential without a cache, by what the
  implementation does with the configuration of the request.
\<close>

lemma operator_serves:
  assumes fair: "fair_request xs zs bs"
  defines "n \<equiv> word_of_nat (length zs) :: usize" and "q \<equiv> received \<lparr>fb_pos = xs, fb_atmnrs = zs, fb_box = bs\<rparr>"
  shows "unat n = length zs"
    and "impl (legacy_input n xs zs bs) (zeroed_out n) = Returned fo \<Longrightarrow> length (out_F fo) = length xs \<Longrightarrow>
      GenericPotImpl_calculate what (Potential_call Ldb impl mt null) q s =
        (Returned \<lparr>rb_energy = out_energy fo, rb_forces = out_F fo\<rparr>, s\<lparr>stats := incrementForceCalls (stats s)\<rparr>)"
    and "impl (legacy_input n xs zs bs) (zeroed_out n) = Thrown m \<Longrightarrow>
      GenericPotImpl_calculate what (Potential_call Ldb impl mt null) q s = (Thrown m, s)"
    and "impl (legacy_input n xs zs bs) (zeroed_out n) = Undef \<Longrightarrow>
      GenericPotImpl_calculate what (Potential_call Ldb impl mt null) q s = (Undef, s)"
proof -
  let ?P = "\<lparr>m_rows = n, m_cols = 3, m_data = xs\<rparr>" and ?Z = "AtomMatrix_Zero n 3 :: f64 AtomMatrix"
  have len: "length xs = 3 * length zs" "length xs < 2 ^ 29" "length bs = 9"
    using fair by (simp_all add: fair_request_def max_list_def)
  show n: "unat n = length zs" using len by (simp add: n_def)
  obtain bx where req: "request_config what q = Returned (n, ?P, zs, bx)"
    and bx: "flatBox bx = bs" and ok: "config_ok (?P, zs, bx)"
    using request_understood [OF fair, of what] unfolding n_def q_def by blast
  have Z: "m_data ?Z = replicate (3 * unat n) 0" "m_rows ?Z = n" "m_cols ?Z = 3"
    using Zero_ok(2) [of n 3, where 'r = f64] len n by (simp_all add: mult.commute) (simp_all add: AtomMatrix_Zero_def AtomMatrix_new_def)
  have M: "build_reply n e (?Z\<lparr>m_data := F\<rparr>) = Returned \<lparr>rb_energy = e, rb_forces = F\<rparr>" if "length F = length xs" for e F
    using len n Z that by (subst reply_built) (simp_all add: matrix_ok_def)
  note call = cache_without_database(1) [OF ok, of 1 Ldb impl mt s]
  show "GenericPotImpl_calculate what (Potential_call Ldb impl mt null) q s =
      (Returned \<lparr>rb_energy = out_energy fo, rb_forces = out_F fo\<rparr>, s\<lparr>stats := incrementForceCalls (stats s)\<rparr>)"
    if "impl (legacy_input n xs zs bs) (zeroed_out n) = Returned fo" "length (out_F fo) = length xs"
    using call req bx Z that M [OF that(2)] by (simp add: GenericPotImpl_calculate_def Potential_compute_def Let_def)
  show "GenericPotImpl_calculate what (Potential_call Ldb impl mt null) q s = (Thrown m, s)"
    if "impl (legacy_input n xs zs bs) (zeroed_out n) = Thrown m"
    using call req bx Z that by (simp add: GenericPotImpl_calculate_def Potential_compute_def Let_def)
  show "GenericPotImpl_calculate what (Potential_call Ldb impl mt null) q s = (Undef, s)"
    if "impl (legacy_input n xs zs bs) (zeroed_out n) = Undef"
    using call req bx Z that by (simp add: GenericPotImpl_calculate_def Potential_compute_def Let_def)
qed

text \<open>The server started for the copper-hydrogen potential, which has no cache.\<close>

definition cuh2_service :: "'db libs \<Rightarrow> f64 eam \<Rightarrow> (capnp_error \<Rightarrow> string) \<Rightarrow> 'db core
    \<Rightarrow> capnp_error + fip_reader \<Rightarrow> result_builder cpp" where
  "cuh2_service Ldb eam what srv params =
     fst (GenericPotImpl_calculate what (Potential_call Ldb (CuH2Pot_forceImpl eam) CuH2 null) params srv)"

lemma cuh2_service_cases:
  assumes fair: "fair_request xs zs bs" and q: "q = received \<lparr>fb_pos = xs, fb_atmnrs = zs, fb_box = bs\<rparr>"
  shows "cuh2_good eam xs zs bs \<Longrightarrow>
      cuh2_service Ldb eam what srv q = Returned \<lparr>rb_energy = eam_energy eam xs zs bs, rb_forces = eam_forces eam xs zs bs\<rparr>"
    and "set zs \<noteq> {29, 1} \<Longrightarrow> \<exists>m. cuh2_service Ldb eam what srv q = Thrown m"
proof -
  let ?n = "word_of_nat (length zs) :: usize"
  have n: "unat ?n = length zs" by (rule operator_serves(1) [OF fair])
  have len: "length xs = 3 * unat ?n" "length zs = unat ?n" "length bs = 9" "unat ?n \<le> 715827882"
    using fair n by (simp_all add: fair_request_def max_list_def)
  show "cuh2_service Ldb eam what srv q = Returned \<lparr>rb_energy = eam_energy eam xs zs bs, rb_forces = eam_forces eam xs zs bs\<rparr>"
    if "cuh2_good eam xs zs bs"
    using operator_serves(2) [where impl = "CuH2Pot_forceImpl eam" and Ldb = Ldb, OF fair cuh2.runs [OF that len(1-3)]] cuh2.forces_length [OF that]
    by (simp add: cuh2_service_def q)
  show "\<exists>m. cuh2_service Ldb eam what srv q = Thrown m" if "set zs \<noteq> {29, 1}"
    using cuh2_refuses [OF len that, of eam] operator_serves(3) [where impl = "CuH2Pot_forceImpl eam" and Ldb = Ldb, OF fair] by (fastforce simp: cuh2_service_def q)
qed

text \<open>
  C39: The box is not checked.  The server compares the number of atomic numbers with the
  number of positions, but reads nine elements of the box whatever its length: a request
  with a shorter box is an access outside the list, before the potential is called.
\<close>

theorem short_box_undefined:
  assumes "length xs = 3 * length zs" "length xs < max_list" "length bs < 9"
  shows "GenericPotImpl_calculate what m_potential (received \<lparr>fb_pos = xs, fb_atmnrs = zs, fb_box = bs\<rparr>) s = (Undef, s)"
proof -
  let ?n = "word_of_nat (length zs) :: usize"
  have len: "length xs < 2 ^ 32" using assms by (simp add: max_list_def)
  have n: "unat ?n = length zs" "(ucast (list_len zs) :: usize) = ?n" "(ucast (list_len xs) :: usize) div 3 = ?n"
    using assms(1) len list_len_64 [of xs] list_len_64 [of zs] atom_count [of "length zs"] by simp_all
  have "convertPositionsFromCapnp xs ?n = Returned \<lparr>m_rows = ?n, m_cols = 3, m_data = xs\<rparr>"
    using positions_converted [of ?n xs] assms(1) len n(1) by simp
  moreover have "convertAtomNumbersFromCapnp zs = Returned zs" using numbers_converted [of zs] assms(1) len by simp
  ultimately show ?thesis
    using n short_box_read [OF assms(3)] by (simp add: GenericPotImpl_calculate_def request_config_def received_def got_def)
qed

theorem short_box_undefined_witness:
  "GenericPotImpl_calculate (\<lambda>_. []) (\<lambda>c n. (Returned (0, fst c), Suc n))
     (received \<lparr>fb_pos = [1, 2, 3], fb_atmnrs = [29], fb_box = [10, 10, 10]\<rparr>) 0 = (Undef, 0)"
  by (rule short_box_undefined) (simp_all add: max_list_def)

section \<open>The bridge\<close>

lemma size_check:
  assumes "length fs < 2 ^ 32" "k < 2 ^ 32"
  shows "(ucast (list_len fs) :: usize) = word_of_int (int k) \<longleftrightarrow> length fs = k"
proof -
  have "(word_of_int (int k) :: usize) = word_of_nat k" by simp
  then show ?thesis using assms by (simp add: list_len_64 word_unat_eq_iff)
qed

text \<open>What a call does with the answer of the library, when the arrays have the right sizes.\<close>

lemma call_answered:
  assumes cl: "client \<noteq> null" "pot_clients s client = Some c" and n: "sint natoms = int (length zs)"
    and fair: "fair_request xs zs bs" and buf: "length xs \<le> length F"
    and ans: "\<And>r fs. ez_call L (capability c) \<lparr>fb_pos = xs, fb_atmnrs = zs, fb_box = bs\<rparr> = Inr (Inr r) \<Longrightarrow>
      rr_forces r = Inr fs \<Longrightarrow> length fs < max_list"
  shows "pot_calculate L client natoms xs zs bs e F s =
    (case ez_call L (capability c) \<lparr>fb_pos = xs, fb_atmnrs = zs, fb_box = bs\<rparr> of
       Inl (Some m) \<Rightarrow> Returned (- 1, set_error client c m s, e, F)
     | Inl None \<Rightarrow> Returned (- 1, set_error client c ''Unknown C++ exception'' s, e, F)
     | Inr (Inl m) \<Rightarrow> Returned (- 1, set_error client c (ez_what L m) s, e, F)
     | Inr (Inr r) \<Rightarrow> (case rr_forces r of
          Inl m \<Rightarrow> Returned (- 1, set_error client c (ez_what L m) s, rr_energy r, F)
        | Inr fs \<Rightarrow> if length fs = length xs
                   then Returned (0, set_error client c [] s, rr_energy r, fs @ drop (length xs) F)
                   else Returned (- 2, set_error client c wrong_size s, rr_energy r, F)))"
proof -
  let ?q = "\<lparr>fb_pos = xs, fb_atmnrs = zs, fb_box = bs\<rparr>"
  have len: "length xs = 3 * length zs" "length xs < 2 ^ 29" "length bs = 9"
    using fair by (simp_all add: fair_request_def max_list_def)
  have n3: "sint natoms * 3 = int (length xs)" using n len(1) by simp
  have views: "fits_int (int (length xs))" "array_view xs (int (length xs)) = Returned xs"
    "array_view zs (int (length zs)) = Returned zs" "array_view bs 9 = Returned bs"
    using len by (simp_all add: fits_int_def array_view_def)
  have chk: "(ucast (list_len fs) :: usize) \<noteq> word_of_int (int (length xs)) \<longleftrightarrow> length fs \<noteq> length xs"
    and cpy: "length fs = length xs \<Longrightarrow>
      loop_over [0..<unat (list_len fs)] (\<lambda>i F. cpp_bind (list_at fs i) (\<lambda>x. poke F i x)) F = Returned (fs @ drop (length xs) F)"
    if "ez_call L (capability c) ?q = Inr (Inr r)" "rr_forces r = Inr fs" for r fs
  proof -
    have l: "length fs < 2 ^ 32" using ans [OF that] by (simp add: max_list_def)
    then show "(ucast (list_len fs) :: usize) \<noteq> word_of_int (int (length xs)) \<longleftrightarrow> length fs \<noteq> length xs"
      using size_check [OF l, of "length xs"] len by simp
    assume eq: "length fs = length xs"
    have "loop_over [0..<length fs] (\<lambda>i F. cpp_bind (list_at fs i) (\<lambda>x. poke F i x)) F = Returned (take (length fs) fs @ drop (length fs) F)"
      by (rule copy_loop) (use l buf eq in \<open>auto simp: list_access\<close>)
    moreover have "unat (list_len fs) = length fs" using l by (simp add: list_len_def)
    ultimately show "loop_over [0..<unat (list_len fs)] (\<lambda>i F. cpp_bind (list_at fs i) (\<lambda>x. poke F i x)) F =
        Returned (fs @ drop (length xs) F)" using eq by simp
  qed
  show ?thesis
    using cl views chk cpy unfolding pot_calculate_def Let_def n3 unfolding n
    by (simp split: sum.split option.split)
qed

text \<open>A list of forces in a response is a list of the format.\<close>

definition legal_results :: "ez_rpc \<Rightarrow> bool" where
  "legal_results L \<longleftrightarrow> (\<forall>cap q r fs. ez_call L cap q = Inr (Inr r) \<and> rr_forces r = Inr fs \<longrightarrow> length fs < max_list)"

lemma legal_resultsD: "legal_results L \<Longrightarrow> ez_call L cap q = Inr (Inr r) \<Longrightarrow> rr_forces r = Inr fs \<Longrightarrow> length fs < max_list"
  by (auto simp: legal_results_def)

text \<open>
  C28: Failures through the bridge.  For a live client and arrays of the right sizes, whatever
  the server and the network answer, \<^verbatim>\<open>pot_calculate\<close> returns: 0 exactly when a response with one
  force per coordinate came back, then the energy and the forces are stored, the rest of the
  buffer is untouched and the error text is empty; -2 with the fixed text when the number of
  forces is wrong, and -1 with the text of the exception otherwise, and then the force buffer
  is as it was.  An error of an earlier call never survives, and no other client is affected.
\<close>

theorem bridge_reports:
  assumes cl: "client \<noteq> null" "pot_clients s client = Some c" and n: "sint natoms = int (length zs)"
    and fair: "fair_request xs zs bs" and buf: "length xs \<le> length F"
    and ans: "legal_results L"
  shows "\<exists>code s' e' F' msg. pot_calculate L client natoms xs zs bs e F s = Returned (code, s', e', F') \<and>
     pot_get_last_error client s' = Returned msg \<and> (\<forall>p. p \<noteq> client \<longrightarrow> pot_clients s' p = pot_clients s p) \<and>
     (case ez_call L (capability c) \<lparr>fb_pos = xs, fb_atmnrs = zs, fb_box = bs\<rparr> of
        Inr (Inr r) \<Rightarrow> e' = rr_energy r \<and> (case rr_forces r of
            Inr fs \<Rightarrow> if length fs = length xs then code = 0 \<and> F' = fs @ drop (length xs) F \<and> msg = []
                      else code = - 2 \<and> F' = F \<and> msg = wrong_size
          | Inl m \<Rightarrow> code = - 1 \<and> F' = F \<and> msg = ez_what L m)
      | Inr (Inl m) \<Rightarrow> code = - 1 \<and> e' = e \<and> F' = F \<and> msg = ez_what L m
      | Inl (Some m) \<Rightarrow> code = - 1 \<and> e' = e \<and> F' = F \<and> msg = m
      | Inl None \<Rightarrow> code = - 1 \<and> e' = e \<and> F' = F \<and> msg = ''Unknown C++ exception'')"
  using call_answered [OF cl n fair buf legal_resultsD [OF ans], where e = e] cl
  by (auto simp: pot_get_last_error_def set_error_def split: sum.split option.split)


text \<open>
  What the transport between the bridge and a server promises: a request of legal size reaches the
  method, its result comes back, and an exception of the method is an exception of the call.
\<close>

definition ez_serves :: "ez_rpc \<Rightarrow> nat \<Rightarrow> (capnp_error + fip_reader \<Rightarrow> result_builder cpp) \<Rightarrow> bool" where
  "ez_serves L cap serve \<longleftrightarrow> (\<forall>q. length (fb_pos q) < max_list \<and> length (fb_atmnrs q) < max_list \<longrightarrow>
     (case serve (received q) of
        Returned rb \<Rightarrow> ez_call L cap q = Inr (Inr \<lparr>rr_energy = rb_energy rb, rr_forces = Inr (rb_forces rb)\<rparr>)
      | Thrown e \<Rightarrow> (\<exists>m. ez_call L cap q = Inl (Some m))
      | Undef \<Rightarrow> True))"

text \<open>
  C27: A remote calculation through the C++ bridge and server.  A client made for a server of the
  copper-hydrogen potential, called on any configuration that fits a message.  When the elements
  present are copper and hydrogen, the status is 0, the energy and the forces in the caller's
  buffer are those of the Fortran routine on the configuration, whatever the conversions, the
  matrix, the call operator and the lists in between, the rest of the buffer is untouched
  and no error text is left.  For any other system the status is -1 and the energy and the
  buffer are as they were.  Freeing the client leaves the clients as they were.
\<close>

theorem bridge_computes:
  assumes conn: "ez_connect L (h @ '':'' @ show_int (sint port)) = Some cap"
    and link: "ez_serves L cap (cuh2_service Ldb eam what srv)"
    and n: "sint natoms = int (length zs)" and fair: "fair_request xs zs bs" and buf: "length xs \<le> length F"
    and fresh: "next_client s \<noteq> null" "pot_clients s (next_client s) = None"
    and eam: "set zs = {29, 1} \<Longrightarrow> eam_call eam xs zs bs = Returned (fs, u) \<and> length fs = length xs"
  shows "\<exists>client s1 code s2 e' F' msg s3. pot_client_init L (Some h) port s = (client, s1) \<and> client \<noteq> null \<and>
     pot_calculate L client natoms xs zs bs e F s1 = Returned (code, s2, e', F') \<and>
     pot_get_last_error client s2 = Returned msg \<and>
     (if set zs = {29, 1} then code = 0 \<and> e' = u \<and> F' = fs @ drop (length xs) F \<and> msg = []
      else code = - 1 \<and> e' = e \<and> F' = F) \<and>
     pot_client_free client s2 = Returned s3 \<and> pot_clients s3 = pot_clients s"
proof -
  let ?q = "\<lparr>fb_pos = xs, fb_atmnrs = zs, fb_box = bs\<rparr>" and ?p = "next_client s"
  let ?c = "\<lparr>capability = cap, client_error = []\<rparr>"
  let ?s1 = "s\<lparr>pot_clients := (pot_clients s)(?p \<mapsto> ?c), next_client := Suc ?p\<rparr>"
  have init: "pot_client_init L (Some h) port s = (?p, ?s1)" using conn by (simp add: pot_client_init_def)
  have len: "length (fb_pos ?q) < max_list \<and> length (fb_atmnrs ?q) < max_list" "length zs \<le> 715827882"
    using fair by (simp_all add: fair_request_def max_list_def)
  note serve = link [unfolded ez_serves_def, rule_format, OF len(1)]
  have live: "pot_clients ?s1 ?p = Some ?c" by simp
  show ?thesis
  proof (cases "set zs = {29, 1}")
    case True
    with eam len have good: "cuh2_good eam xs zs bs" and v: "eam_energy eam xs zs bs = u" "eam_forces eam xs zs bs = fs" "length fs = length xs"
      by (auto simp: cuh2_good_def eam_energy_def eam_forces_def)
    have call: "ez_call L cap ?q = Inr (Inr \<lparr>rr_energy = u, rr_forces = Inr fs\<rparr>)"
      using serve cuh2_service_cases(1) [OF fair refl good, of Ldb what srv] v by simp
    have "pot_calculate L ?p natoms xs zs bs e F ?s1 = Returned (0, set_error ?p ?c [] ?s1, u, fs @ drop (length xs) F)"
      using call len v(3) by (subst call_answered [where c = ?c, OF fresh(1) live n fair buf]) auto
    with init True fresh show ?thesis
      by (auto simp: pot_get_last_error_def pot_client_free_def set_error_def fun_upd_idem)
  next
    case False
    from cuh2_service_cases(2) [OF fair refl this, of Ldb eam what srv] serve obtain m where call: "ez_call L cap ?q = Inl (Some m)" by auto
    have "pot_calculate L ?p natoms xs zs bs e F ?s1 = Returned (- 1, set_error ?p ?c m ?s1, e, F)"
      using call by (subst call_answered [where c = ?c, OF fresh(1) live n fair buf]) auto
    with init False fresh show ?thesis
      by (auto simp: pot_get_last_error_def pot_client_free_def set_error_def fun_upd_idem)
  qed
qed

text \<open>A server in the same process, and one that answers with too few forces.\<close>

definition loop_rpc :: ez_rpc where
  "loop_rpc = \<lparr>ez_connect = (\<lambda>_. Some 0),
     ez_call = (\<lambda>_ q. case cuh2_service memory_libs sample_eam (\<lambda>_. []) empty_core (received q) of
        Returned rb \<Rightarrow> Inr (Inr \<lparr>rr_energy = rb_energy rb, rr_forces = Inr (rb_forces rb)\<rparr>)
      | Thrown e \<Rightarrow> Inl (Some e)
      | Undef \<Rightarrow> Inl None),
     ez_what = (\<lambda>_. [])\<rparr>"

definition short_rpc :: ez_rpc where
  "short_rpc = \<lparr>ez_connect = (\<lambda>_. Some 0), ez_call = (\<lambda>_ _. Inr (Inr \<lparr>rr_energy = 7, rr_forces = Inr [1, 2]\<rparr>)),
     ez_what = (\<lambda>_. [])\<rparr>"

theorem bridge_computes_witness:
  "\<exists>client s1 s2. pot_client_init loop_rpc (Some ''localhost'') 12345 \<lparr>pot_clients = Map.empty, next_client = 1\<rparr> = (client, s1) \<and>
     pot_calculate loop_rpc client 2 sample_positions [29, 1] sample_box 5 (replicate 7 9) s1 =
       Returned (0, s2, 7, sample_positions @ [9]) \<and>
     pot_get_last_error client s2 = Returned []"
proof -
  let ?s = "\<lparr>pot_clients = Map.empty, next_client = 1\<rparr>"
  have link: "ez_serves loop_rpc 0 (cuh2_service memory_libs sample_eam (\<lambda>_. []) empty_core)"
    by (simp add: ez_serves_def loop_rpc_def split: cpp.split)
  have conn: "ez_connect loop_rpc (''localhost'' @ '':'' @ show_int (sint (12345 :: i32))) = Some 0"
    by (simp add: loop_rpc_def)
  have n: "sint (2 :: i32) = int (length [29, 1 :: i32])" and "1 \<noteq> null" "set [29, 1 :: i32] = {29, 1}" by simp_all
  have fair: "fair_request sample_positions [29, 1] sample_box"
    by (simp add: fair_request_def sample_positions_def sample_box_def max_list_def)
  have "length sample_positions \<le> length (replicate 7 (9 :: f64))" by (simp add: sample_positions_def)
  moreover have "eam_call sample_eam sample_positions [29, 1] sample_box = Returned (sample_positions, 7) \<and>
      length sample_positions = length sample_positions" by (simp add: eam_call_def sample_eam_def)
  moreover have "drop (length sample_positions) (replicate 7 9) = [9 :: f64]" by (simp add: sample_positions_def)
  ultimately show ?thesis
    using bridge_computes [OF conn link n fair, of "replicate 7 9" ?s sample_positions 7 5] by auto
qed

theorem bridge_reports_witness:
  "\<exists>s' F'. pot_calculate short_rpc 1 2 sample_positions [29, 1] sample_box 5 (replicate 7 9)
       \<lparr>pot_clients = [1 \<mapsto> \<lparr>capability = 0, client_error = ''old''\<rparr>], next_client = 2\<rparr> = Returned (- 2, s', 7, F') \<and>
     pot_get_last_error 1 s' = Returned wrong_size"
proof -
  let ?s = "\<lparr>pot_clients = [1 \<mapsto> \<lparr>capability = 0, client_error = ''old''\<rparr>], next_client = 2\<rparr>"
  let ?c = "\<lparr>capability = 0, client_error = ''old''\<rparr>"
  have fair: "fair_request sample_positions [29, 1] sample_box"
    by (simp add: fair_request_def sample_positions_def sample_box_def max_list_def)
  have n: "sint (2 :: i32) = int (length [29, 1 :: i32])" and live: "pot_clients ?s 1 = Some ?c"
    and buf: "length sample_positions \<le> length (replicate 7 (9 :: f64))" by (simp_all add: sample_positions_def)
  have ans: "legal_results short_rpc" by (auto simp: legal_results_def short_rpc_def max_list_def)
  have "(1 :: ptr) \<noteq> null" by simp
  from bridge_reports [where L = short_rpc and e = 5, OF this live n fair buf ans] show ?thesis
    by (auto simp: short_rpc_def sample_positions_def)
qed

section \<open>The command line of the server\<close>

lemma digit_takes: "takeWhile is_digit (show_nat n) = show_nat n"
  unfolding takeWhile_eq_all_conv is_digit_def using show_nat_digits by fastforce

lemma show_nat_start: "\<exists>c cs. show_nat n = c # cs \<and> 48 \<le> (of_char c :: nat) \<and> (of_char c :: nat) < 58"
proof -
  have "show_nat n \<noteq> []" by (subst show_nat.simps) simp
  then obtain c cs where "show_nat n = c # cs" by (cases "show_nat n") auto
  with show_nat_digits [of c n] show ?thesis by simp
qed

lemma stoi_show_int: "fits_int k \<Longrightarrow> stoi (show_int k) = Some k"
proof -
  assume k: "fits_int k"
  obtain c cs where c: "show_nat (nat k) = c # cs" "48 \<le> (of_char c :: nat)" "(of_char c :: nat) < 58"
    using show_nat_start by blast
  then have ne: "c \<noteq> CHR ''-''" "c \<noteq> CHR ''+''" "\<not> is_space c" by (auto simp: is_space_def)
  obtain d ds where d: "show_nat (nat (- k)) = d # ds" using show_nat_start by blast
  show ?thesis
  proof (cases "k < 0")
    case True
    then have "signed_digits (dropWhile is_space (show_int k)) = (True, show_nat (nat (- k)))"
      by (simp add: show_int_def signed_digits_def is_space_def digit_takes)
    with True k d show ?thesis using read_show_nat [of "nat (- k)"] by (simp add: stoi_def digits_value_def del: read_nat.simps)
  next
    case False
    then have "signed_digits (dropWhile is_space (show_int k)) = (False, show_nat (nat k))"
      using c ne digit_takes [of "nat k"] by (simp add: show_int_def signed_digits_def)
    with False k c show ?thesis using read_show_nat [of "nat k"] by (simp add: stoi_def digits_value_def del: read_nat.simps)
  qed
qed

text \<open>
  The command line: a port and the name of a potential start the server for it, an
  argument that is no number gives the default port and a message, and an unknown potential or a
  missing argument ends the program with code 1.
\<close>

theorem server_main_cases:
  assumes "fits_int port"
  shows "server_main prog (show_int port # ''LJ'' # rest) = (Serve LJ ''localhost'' (word_of_int port), [])"
    and "server_main prog (show_int port # ''CuH2'' # rest) = (Serve CuH2 ''localhost'' (word_of_int port), [])"
    and "stoi arg = None \<Longrightarrow> \<exists>m. server_main prog (arg # ''LJ'' # rest) = (Serve LJ ''localhost'' 12345, [m])"
    and "pot_type \<noteq> ''LJ'' \<Longrightarrow> pot_type \<noteq> ''CuH2'' \<Longrightarrow> fst (server_main prog (arg # pot_type # rest)) = Exit 1"
    and "length args < 2 \<Longrightarrow> fst (server_main prog args) = Exit 1"
proof -
  show "length args < 2 \<Longrightarrow> fst (server_main prog args) = Exit 1"
    by (auto simp: server_main_def split: list.split)
qed (use stoi_show_int [OF assms] in \<open>simp_all add: server_main_def split: option.split\<close>)

end
