(* ===== verification/Rgpot_Geometry.thy ===== *)
theory Rgpot_Geometry
  imports Rgpot_LJ
begin

text \<open>
  The geometry helpers of \<^verbatim>\<open>CppCore/rgpot/CuH2/cuh2Utils.{hpp,cc}\<close>: they place the two hydrogen atoms of
  a copper slab at a given distance of each other and of the slab, and measure the two
  distances.  The code is written in expressions of xtensor, which are an argument.
\<close>

section \<open>Definitions\<close>

text \<open>The other operations on doubles the helpers use.\<close>

record 'r arith_cmp = "'r arith" +
  f_eq :: "'r \<Rightarrow> 'r \<Rightarrow> bool"
  f_abs :: "'r \<Rightarrow> 'r"
  f_lowest :: 'r

text \<open>
  What the helpers use of xtensor: elementwise operations on rows, the norm, and whether an
  expression declared with \<^verbatim>\<open>auto\<close> is evaluated anew at each use, as the library documents, or once at
  its declaration.  A tensor of rank two is the list of its rows; its accessors do not check
  their indices.
\<close>

record 'r xt_lib =
  xt_add :: "'r list \<Rightarrow> 'r list \<Rightarrow> 'r list"
  xt_sub :: "'r list \<Rightarrow> 'r list \<Rightarrow> 'r list"
  xt_scale :: "'r \<Rightarrow> 'r list \<Rightarrow> 'r list"
  xt_div :: "'r list \<Rightarrow> 'r \<Rightarrow> 'r list"
  xt_norm :: "'r list \<Rightarrow> 'r"
  xt_lazy :: bool

definition xt_at :: "'r list list \<Rightarrow> nat \<Rightarrow> nat \<Rightarrow> 'r cpp" where
  "xt_at t i k = cpp_bind (peek t i) (\<lambda>r. peek r k)"

definition xt_put :: "nat \<Rightarrow> nat \<Rightarrow> 'r \<Rightarrow> 'r list list \<Rightarrow> 'r list list cpp" where
  "xt_put i k x t = cpp_bind (peek t i) (\<lambda>r. cpp_bind (poke r k x) (poke t i))"

definition ensure_normalized :: "'r arith_cmp \<Rightarrow> 'r xt_lib \<Rightarrow> 'r list \<Rightarrow> bool \<Rightarrow> 'r \<Rightarrow> 'r list cpp" where
  "ensure_normalized A X vector is_normalized tol =
     (if \<not> is_normalized
      then let norm = xt_norm X vector;
               dev = f_abs A (f_sub A norm (f_lit A 1))
           in if f_eq A norm (f_lit A 0) then Thrown ''Cannot normalize a vector whose norm is smaller than tol''
              else if f_less A tol dev \<or> f_eq A dev tol then Returned (xt_div X vector norm)
              else Returned vector
      else Returned vector)"

text \<open>The indices of the hydrogen and of the copper atoms, as both functions collect them.\<close>

definition species :: "i32 list \<Rightarrow> (nat list \<times> nat list) cpp" where
  "species atmNumVec =
     loop_over [0..<length atmNumVec] (\<lambda>i (hIndices, cuIndices).
       cpp_bind (peek atmNumVec i) (\<lambda>z.
       if z = 1 then Returned (hIndices @ [i], cuIndices)
       else if z = 29 then Returned (hIndices, cuIndices @ [i])
       else Thrown ''Unexpected atomic number'')) ([], [])"

text \<open>The height of the topmost copper layer.\<close>

definition max_cu_z :: "'r arith_cmp \<Rightarrow> 'r list list \<Rightarrow> nat list \<Rightarrow> 'r cpp" where
  "max_cu_z A positions cuIndices =
     loop_over cuIndices (\<lambda>cuIndex maxCuZ.
       cpp_bind (xt_at positions cuIndex 2) (\<lambda>z. Returned (if f_less A maxCuZ z then z else maxCuZ))) (f_lowest A)"

definition h_midpoint :: "'r arith_cmp \<Rightarrow> 'r xt_lib \<Rightarrow> nat list \<Rightarrow> 'r list list \<Rightarrow> 'r list cpp" where
  "h_midpoint A X hIndices positions =
     cpp_bind (peek positions (hIndices ! 0)) (\<lambda>r0.
     cpp_bind (peek positions (hIndices ! 1)) (\<lambda>r1.
     Returned (xt_div X (xt_add X r0 r1) (f_lit A 2))))"

text \<open>
  The midpoint is declared with \<^verbatim>\<open>auto\<close>; it is used twice, and between the two uses the first
  of the rows it refers to is overwritten.
\<close>

definition perturb_positions ::
    "'r arith_cmp \<Rightarrow> 'r xt_lib \<Rightarrow> 'r list list \<Rightarrow> i32 list \<Rightarrow> 'r \<Rightarrow> 'r \<Rightarrow> 'r list list cpp" where
  "perturb_positions A X base_positions atmNumVec hcu_dist hh_dist =
     cpp_bind (species atmNumVec) (\<lambda>(hIndices, cuIndices).
     if length hIndices \<noteq> 2 then Thrown ''Expected exactly two hydrogen atoms''
     else
       let hMidpoint = (\<lambda>positions. h_midpoint A X hIndices (if xt_lazy X then positions else base_positions)) in
       cpp_bind (xt_at base_positions (hIndices ! 0) 0) (\<lambda>x0.
       cpp_bind (xt_at base_positions (hIndices ! 1) 0) (\<lambda>x1.
       let (h1_idx, h2_idx) = (if f_less A x0 x1 then (hIndices ! 0, hIndices ! 1) else (hIndices ! 1, hIndices ! 0)) in
       cpp_bind (peek base_positions h2_idx) (\<lambda>r2.
       cpp_bind (peek base_positions h1_idx) (\<lambda>r1.
       cpp_bind (ensure_normalized A X (xt_sub X r2 r1) False (f_lit A (1 / 1000000))) (\<lambda>hh_direction.
       let half = xt_scale X (f_mul A (f_lit A (1 / 2)) hh_dist) hh_direction in
       cpp_bind (hMidpoint base_positions) (\<lambda>mid.
       cpp_bind (poke base_positions h1_idx (xt_sub X mid half)) (\<lambda>positions.
       cpp_bind (hMidpoint positions) (\<lambda>mid.
       cpp_bind (poke positions h2_idx (xt_add X mid half)) (\<lambda>positions.
       cpp_bind (max_cu_z A positions cuIndices) (\<lambda>maxCuZ.
       let new_z = f_add A maxCuZ hcu_dist in
       loop_over hIndices (\<lambda>hIndex. xt_put hIndex 2 new_z) positions)))))))))))"

definition calculateDistances ::
    "'r arith_cmp \<Rightarrow> 'r xt_lib \<Rightarrow> 'r list list \<Rightarrow> i32 list \<Rightarrow> ('r \<times> 'r) cpp" where
  "calculateDistances A X positions atmNumVec =
     cpp_bind (species atmNumVec) (\<lambda>(hIndices, cuIndices).
     if length hIndices \<noteq> 2 then Thrown ''Expected exactly two hydrogen atoms''
     else
       cpp_bind (peek positions (hIndices ! 0)) (\<lambda>r0.
       cpp_bind (peek positions (hIndices ! 1)) (\<lambda>r1.
       let hDistance = xt_norm X (xt_sub X r0 r1) in
       cpp_bind (h_midpoint A X hIndices positions) (\<lambda>hMidpoint.
       cpp_bind (max_cu_z A positions cuIndices) (\<lambda>maxCuZ.
       cpp_bind (xt_at positions (hIndices ! 0) 2) (\<lambda>z.
       Returned (hDistance, f_sub A z maxCuZ)))))))"

section \<open>The species\<close>

abbreviation hydrogens :: "i32 list \<Rightarrow> nat list" where
  "hydrogens zs \<equiv> filter (\<lambda>i. zs ! i = 1) [0..<length zs]"

abbreviation coppers :: "i32 list \<Rightarrow> nat list" where
  "coppers zs \<equiv> filter (\<lambda>i. zs ! i = 29) [0..<length zs]"

lemma species_loop:
  fixes zs :: "i32 list"
  assumes "\<And>i. i \<in> set is \<Longrightarrow> i < length zs"
  shows "loop_over is (\<lambda>i (hs, cs). cpp_bind (peek zs i) (\<lambda>z.
       if z = 1 then Returned (hs @ [i], cs) else if z = 29 then Returned (hs, cs @ [i])
       else Thrown ''Unexpected atomic number'')) (hs, cs) =
    (if \<forall>i \<in> set is. zs ! i = 1 \<or> zs ! i = 29
     then Returned (hs @ filter (\<lambda>i. zs ! i = 1) is, cs @ filter (\<lambda>i. zs ! i = 29) is)
     else Thrown ''Unexpected atomic number'')"
  using assms
proof (induction "is" arbitrary: hs cs)
  case (Cons i "is")
  from Cons.IH [of "hs @ [i]" cs] Cons.IH [of hs "cs @ [i]"] Cons.prems show ?case by simp
qed simp

lemma species_split:
  "species zs = (if set zs \<subseteq> {1, 29} then Returned (hydrogens zs, coppers zs) else Thrown ''Unexpected atomic number'')"
proof -
  have "set zs \<subseteq> {1, 29} \<longleftrightarrow> (\<forall>i \<in> set [0..<length zs]. zs ! i = 1 \<or> zs ! i = 29)"
    by (auto simp: set_conv_nth)
  with species_loop [of "[0..<length zs]" zs "[]" "[]"] show ?thesis by (simp add: species_def)
qed

lemma hydrogen_pair:
  assumes "hydrogens zs = [i, j]"
  shows "i < length zs" "j < length zs" "i \<noteq> j" "i \<notin> set (coppers zs)" "j \<notin> set (coppers zs)"
proof -
  have "i \<in> set (hydrogens zs)" "j \<in> set (hydrogens zs)" unfolding assms by simp_all
  then show "i < length zs" "j < length zs" "i \<notin> set (coppers zs)" "j \<notin> set (coppers zs)" by auto
  have "distinct (hydrogens zs)" by simp
  then show "i \<noteq> j" unfolding assms by simp
qed

section \<open>Exact arithmetic\<close>

text \<open>The helpers over the reals, for any number in place of the lowest double.\<close>

definition real_cmp :: "real \<Rightarrow> real arith_cmp" where
  "real_cmp L = \<lparr>f_add = (+), f_sub = (-), f_mul = (*), f_div = (/), f_floor = (\<lambda>x. of_int \<lfloor>x\<rfloor>), f_sqrt = sqrt,
     f_pow = (\<lambda>x y. x powr y), f_less = (<), f_lit = of_rat, f_eq = (=), f_abs = abs, f_lowest = L\<rparr>"

definition real_xt :: "bool \<Rightarrow> real xt_lib" where
  "real_xt lazy = \<lparr>xt_add = map2 (+), xt_sub = map2 (-), xt_scale = (\<lambda>c. map ((*) c)), xt_div = (\<lambda>v c. map (\<lambda>x. x / c) v),
     xt_norm = (\<lambda>v. sqrt (\<Sum>x\<leftarrow>v. x\<^sup>2)), xt_lazy = lazy\<rparr>"

lemma real_geometry_ops [simp]:
  "f_add (real_cmp L) = (+)" "f_sub (real_cmp L) = (-)" "f_mul (real_cmp L) = (*)" "f_less (real_cmp L) = (<)"
  "f_lit (real_cmp L) = of_rat" "f_eq (real_cmp L) = (=)" "f_abs (real_cmp L) = abs" "f_lowest (real_cmp L) = L"
  "xt_add (real_xt lazy) = map2 (+)" "xt_sub (real_xt lazy) = map2 (-)" "xt_scale (real_xt lazy) c = map ((*) c)"
  "xt_div (real_xt lazy) v c = map (\<lambda>x. x / c) v" "xt_norm (real_xt lazy) v = sqrt (\<Sum>x\<leftarrow>v. x\<^sup>2)"
  "xt_lazy (real_xt lazy) = lazy"
  by (simp_all add: real_cmp_def real_xt_def)

text \<open>A height over the slab.\<close>

definition slab_top :: "real \<Rightarrow> real list list \<Rightarrow> nat list \<Rightarrow> real" where
  "slab_top L pos cs = Max (insert L ((\<lambda>c. pos ! c ! 2) ` set cs))"

lemma max_cu_z_real:
  assumes "\<And>c. c \<in> set cs \<Longrightarrow> c < length pos \<and> 2 < length (pos ! c)"
  shows "max_cu_z (real_cmp L) pos cs = Returned (slab_top L pos cs)"
proof -
  have "loop_over cs (\<lambda>c m. cpp_bind (xt_at pos c 2) (\<lambda>z. Returned (if m < z then z else m))) M =
      Returned (Max (insert M ((\<lambda>c. pos ! c ! 2) ` set cs)))" for M
    using assms
  proof (induction cs arbitrary: M)
    case (Cons c cs)
    let ?z = "pos ! c ! 2" and ?S = "(\<lambda>c. pos ! c ! 2) ` set cs"
    have "Max (insert (max M ?z) ?S) = Max (insert M (insert ?z ?S))"
      by (cases "?S = {}") (simp_all add: Max_insert max.assoc [symmetric])
    moreover have "(if M < ?z then ?z else M) = max M ?z" by (simp add: max_def)
    ultimately show ?case using Cons by (simp add: xt_at_def)
  qed simp
  then show ?thesis by (simp add: max_cu_z_def slab_top_def)
qed

lemma slab_top_frame: "(\<And>c. c \<in> set cs \<Longrightarrow> pos' ! c = pos ! c) \<Longrightarrow> slab_top L pos' cs = slab_top L pos cs"
  by (simp add: slab_top_def cong: image_cong)

lemma max_cu_z_frame:
  assumes "\<And>c. c \<in> set cs \<Longrightarrow> c < length pos' \<and> pos' ! c = pos ! c \<and> length (pos ! c) = 3"
  shows "max_cu_z (real_cmp L) pos' cs = Returned (slab_top L pos cs)"
  using max_cu_z_real [of cs pos' L] slab_top_frame [of cs pos' pos L] assms by simp

text \<open>
  The factor by which the vector between the hydrogen atoms is stretched along the slab.  A
  vector whose length is within \<open>1 / 1000000\<close> of one counts as normalized.
\<close>

definition stretch :: "bool \<Rightarrow> real \<Rightarrow> real \<Rightarrow> real" where
  "stretch lazy D d =
     (let k = (if \<bar>D - 1\<bar> < 1 / 1000000 then d else d / D) in if lazy then (1 + 3 * k) / 4 else k)"

lemma normalized_real:
  fixes d :: real
  assumes D: "sqrt (x\<^sup>2 + y\<^sup>2 + z\<^sup>2) = D" "D \<noteq> 0"
  defines "k \<equiv> stretch False D d / 2"
  shows "\<exists>u. ensure_normalized (real_cmp L) (real_xt lazy) [x, y, z] False (1 / 1000000) = Returned u \<and>
     map ((*) (1 / 2 * d)) u = [k * x, k * y, k * z]"
proof -
  have "sqrt (\<Sum>t\<leftarrow>[x, y, z]. t\<^sup>2) = D" using D(1) by (simp add: add.assoc)
  then show ?thesis
    using D(2) unfolding ensure_normalized_def real_geometry_ops k_def by (auto simp: stretch_def Let_def)
qed

lemma list_of_three: "length r = 3 \<Longrightarrow> \<exists>x y z. r = [x, y, z]"
  by (auto simp: eval_nat_numeral length_Suc_conv)

lemma perturb_real:
  assumes zs: "set zs \<subseteq> {1, 29}" "hydrogens zs = [i, j]" and len: "length pos = length zs"
    and rows: "\<And>r. r \<in> set pos \<Longrightarrow> length r = 3" and a: "pos ! i = [a0, a1, a2]" and b: "pos ! j = [b0, b1, b2]"
    and D: "sqrt ((b0 - a0)\<^sup>2 + (b1 - a1)\<^sup>2 + (b2 - a2)\<^sup>2) = D" "D \<noteq> 0"
  shows "\<exists>x y x' y'. perturb_positions (real_cmp L) (real_xt lazy) pos zs hcu d =
       Returned (pos[i := [x, y, slab_top L pos (coppers zs) + hcu], j := [x', y', slab_top L pos (coppers zs) + hcu]]) \<and>
     x' - x = stretch lazy D d * (b0 - a0) \<and> y' - y = stretch lazy D d * (b1 - a1)"
proof -
  note ij = hydrogen_pair [OF zs(2)]
  let ?k = "stretch False D d" and ?top = "slab_top L pos (coppers zs)"
  have D': "sqrt ((a0 - b0)\<^sup>2 + (a1 - b1)\<^sup>2 + (a2 - b2)\<^sup>2) = D" using D(1) by (simp add: power2_commute)
  let ?h0 = "?k / 2 * (b0 - a0)" and ?h1 = "?k / 2 * (b1 - a1)" and ?h2 = "?k / 2 * (b2 - a2)"
  obtain u where u: "ensure_normalized (real_cmp L) (real_xt lazy) [b0 - a0, b1 - a1, b2 - a2] False (1 / 1000000) = Returned u"
    "map ((*) (1 / 2 * d)) u = [?h0, ?h1, ?h2]"
    using normalized_real [OF D, where L = L and lazy = lazy and d = d] by (elim exE conjE) (rule that)
  obtain v where v: "ensure_normalized (real_cmp L) (real_xt lazy) [a0 - b0, a1 - b1, a2 - b2] False (1 / 1000000) = Returned v"
    "map ((*) (1 / 2 * d)) v = [?k / 2 * (a0 - b0), ?k / 2 * (a1 - b1), ?k / 2 * (a2 - b2)]"
    using normalized_real [OF D' D(2), where L = L and lazy = lazy and d = d] by (elim exE conjE) (rule that)
  have cu: "c < length pos" "i \<noteq> c" "j \<noteq> c" "length (pos ! c) = 3" if "c \<in> set (coppers zs)" for c
    using that ij(4,5) rows len by auto
  have top: "max_cu_z (real_cmp L) (pos[i := r, j := s]) (coppers zs) = Returned ?top"
    "max_cu_z (real_cmp L) (pos[j := s, i := r]) (coppers zs) = Returned ?top" for r s
    by (rule max_cu_z_frame; use cu in simp)+
  have lit: "of_rat (1 / 1000000) = (1 / 1000000 :: real)" "of_rat (1 / 2) = (1 / 2 :: real)" "of_rat 2 = (2 :: real)"
    by (simp_all add: of_rat_divide)
  have sp: "species zs = Returned ([i, j], coppers zs)" using zs by (simp add: species_split)
  have neg: "xs[j := s, i := r] = xs[i := r, j := s]" for xs :: "real list list" and r s
    using ij(3) by (simp add: list_update_swap)
  have k: "stretch lazy D d = (if lazy then (1 + 3 * ?k) / 4 else ?k)" by (simp add: stretch_def Let_def)
  let ?Z = "?top + hcu" and ?m0 = "(a0 + b0) / 2" and ?m1 = "(a1 + b1) / 2"
  show ?thesis
  proof (cases "a0 < b0")
    case True
    let ?n0 = "if lazy then (?m0 - ?h0 + b0) / 2 else ?m0" and ?n1 = "if lazy then (?m1 - ?h1 + b1) / 2 else ?m1"
    have "perturb_positions (real_cmp L) (real_xt lazy) pos zs hcu d =
        Returned (pos[i := [?m0 - ?h0, ?m1 - ?h1, ?Z], j := [?n0 + ?h0, ?n1 + ?h1, ?Z]])"
      using True ij len a b u(1) top
      by (simp add: perturb_positions_def sp Let_def xt_at_def xt_put_def h_midpoint_def lit u(2) neg del: times_divide_eq_left)
    then show ?thesis by (intro exI conjI) (assumption, simp_all add: k field_simps)
  next
    case False
    let ?g0 = "?k / 2 * (a0 - b0)" and ?g1 = "?k / 2 * (a1 - b1)"
    let ?n0 = "if lazy then (a0 + (?m0 - ?g0)) / 2 else ?m0" and ?n1 = "if lazy then (a1 + (?m1 - ?g1)) / 2 else ?m1"
    have "perturb_positions (real_cmp L) (real_xt lazy) pos zs hcu d =
        Returned (pos[i := [?n0 + ?g0, ?n1 + ?g1, ?Z], j := [?m0 - ?g0, ?m1 - ?g1, ?Z]])"
      using False ij len a b v(1) top
      by (simp add: perturb_positions_def sp Let_def xt_at_def xt_put_def h_midpoint_def lit v(2) neg del: times_divide_eq_left)
    then show ?thesis by (intro exI conjI) (assumption, simp_all add: k field_simps)
  qed
qed

text \<open>What the second helper measures on the result of the first.\<close>

lemma calculateDistances_real:
  assumes zs: "set zs \<subseteq> {1, 29}" "hydrogens zs = [i, j]" and len: "length pos = length zs"
    and a: "pos ! i = [a0, a1, a2]" and b: "pos ! j = [b0, b1, b2]"
    and cu: "\<And>c. c \<in> set (coppers zs) \<Longrightarrow> length (pos ! c) = 3"
  shows "calculateDistances (real_cmp L) (real_xt lazy) pos zs =
     Returned (sqrt ((b0 - a0)\<^sup>2 + (b1 - a1)\<^sup>2 + (b2 - a2)\<^sup>2), a2 - slab_top L pos (coppers zs))"
proof -
  have "max_cu_z (real_cmp L) pos (coppers zs) = Returned (slab_top L pos (coppers zs))"
    using cu len by (intro max_cu_z_real) auto
  moreover have "species zs = Returned ([i, j], coppers zs)" using zs by (simp add: species_split)
  ultimately show ?thesis
    using hydrogen_pair [OF zs(2)] len a b
    by (simp add: calculateDistances_def Let_def h_midpoint_def xt_at_def add.assoc power2_commute)
qed

lemma stretch_nonneg: "0 \<le> d \<Longrightarrow> 0 < D \<Longrightarrow> 0 \<le> stretch lazy D d"
  by (simp add: stretch_def Let_def)

lemma stretched:
  assumes "0 \<le> c"
  shows "sqrt ((c * x)\<^sup>2 + (c * y)\<^sup>2 + (0 :: real)\<^sup>2) = c * sqrt (x\<^sup>2 + y\<^sup>2)"
proof -
  have "(c * x)\<^sup>2 + (c * y)\<^sup>2 + 0\<^sup>2 = c\<^sup>2 * (x\<^sup>2 + y\<^sup>2)" by (simp add: algebra_simps power_mult_distrib)
  with assms show ?thesis by (simp add: real_sqrt_mult)
qed

text \<open>
  C34: Placing the hydrogen atoms, in exact arithmetic.  On a slab of copper with two hydrogen atoms at
  different places, a distance \<open>D\<close> apart, and a requested distance \<open>0 \<le> d\<close>, \<^verbatim>\<open>perturb_positions\<close> moves
  no other atom and puts both at the requested height over the slab.  Their distance within
  the plane, which is all of it afterwards, is multiplied: by \<open>d / D\<close> (by \<open>d\<close> when \<open>D\<close> is closer to one than
  \<open>1 / 1000000\<close>, where the vector counts as normalized) if the midpoint is evaluated once, and with
  the lazy evaluation of xtensor, where the midpoint used for the second atom is that of the
  first atom's new position, by a quarter of one plus three times that factor.  So two atoms that
  start at the same height and not that close to one apart end at the requested distance \<open>d\<close>, or at
  \<open>(D + 3 * d) / 4\<close>; atoms that start at different heights end nearer than that.  The distance and the height
  are those that \<^verbatim>\<open>calculateDistances\<close> measures.
\<close>

theorem perturb_distances:
  assumes zs: "set zs \<subseteq> {1, 29}" "hydrogens zs = [i, j]" and len: "length pos = length zs"
    and rows: "\<forall>r \<in> set pos. length r = 3" and a: "pos ! i = [a0, a1, a2]" and b: "pos ! j = [b0, b1, b2]"
    and D: "sqrt ((b0 - a0)\<^sup>2 + (b1 - a1)\<^sup>2 + (b2 - a2)\<^sup>2) = D" "D \<noteq> 0" and d: "0 \<le> d"
  shows "\<exists>pos' r. perturb_positions (real_cmp L) (real_xt lazy) pos zs hcu d = Returned pos' \<and>
     length pos' = length pos \<and> (\<forall>k. k \<noteq> i \<and> k \<noteq> j \<longrightarrow> pos' ! k = pos ! k) \<and>
     (\<forall>k \<in> {i, j}. pos' ! k ! 2 = slab_top L pos (coppers zs) + hcu) \<and>
     calculateDistances (real_cmp L) (real_xt lazy) pos' zs = Returned (r, hcu) \<and>
     r = stretch lazy D d * sqrt ((b0 - a0)\<^sup>2 + (b1 - a1)\<^sup>2) \<and>
     (a2 = b2 \<and> 1 / 1000000 \<le> \<bar>D - 1\<bar> \<longrightarrow> r = (if lazy then (D + 3 * d) / 4 else d))"
proof -
  note ij = hydrogen_pair [OF zs(2)]
  let ?Z = "slab_top L pos (coppers zs) + hcu" and ?s = "stretch lazy D d"
  from perturb_real [OF zs len _ a b D, of L lazy hcu d] rows obtain x y x' y' where
    run: "perturb_positions (real_cmp L) (real_xt lazy) pos zs hcu d = Returned (pos[i := [x, y, ?Z], j := [x', y', ?Z]])"
    and diff: "x' - x = ?s * (b0 - a0)" "y' - y = ?s * (b1 - a1)" by blast
  let ?pos = "pos[i := [x, y, ?Z], j := [x', y', ?Z]]" and ?r = "?s * sqrt ((b0 - a0)\<^sup>2 + (b1 - a1)\<^sup>2)"
  have cu: "i \<noteq> c" "j \<noteq> c" "length (pos ! c) = 3" if "c \<in> set (coppers zs)" for c
    using that ij(4,5) rows len by auto
  have top: "slab_top L ?pos (coppers zs) = slab_top L pos (coppers zs)"
    by (rule slab_top_frame) (use cu in simp)
  have "0 \<le> D" unfolding D(1) [symmetric] by simp
  then have "0 \<le> ?s" using d D(2) by (intro stretch_nonneg) simp_all
  then have dist: "sqrt ((x' - x)\<^sup>2 + (y' - y)\<^sup>2 + (?Z - ?Z)\<^sup>2) = ?r" using stretched [of ?s] by (simp add: diff)
  have "calculateDistances (real_cmp L) (real_xt lazy) ?pos zs =
      Returned (sqrt ((x' - x)\<^sup>2 + (y' - y)\<^sup>2 + (?Z - ?Z)\<^sup>2), ?Z - slab_top L ?pos (coppers zs))"
    by (rule calculateDistances_real [OF zs]) (use len ij cu in simp_all)
  then have "calculateDistances (real_cmp L) (real_xt lazy) ?pos zs = Returned (?r, hcu)"
    unfolding dist top by simp
  moreover have "?r = (if lazy then (D + 3 * d) / 4 else d)" if "a2 = b2" "1 / 1000000 \<le> \<bar>D - 1\<bar>"
  proof -
    have "sqrt ((b0 - a0)\<^sup>2 + (b1 - a1)\<^sup>2) = D" using D(1) that(1) by simp
    then show ?thesis using D(2) that(2) by (simp add: stretch_def Let_def field_simps)
  qed
  moreover have "\<forall>k \<in> {i, j}. ?pos ! k ! 2 = ?Z" using ij len by auto
  ultimately show ?thesis using run by (intro exI [of _ ?pos] exI [of _ ?r]) simp
qed

text \<open>A slab of one copper atom under two hydrogen atoms at distance two.\<close>

theorem perturb_distances_witness:
  "\<exists>pos'. perturb_positions (real_cmp 0) (real_xt True) [[0, 0, 0], [2, 0, 0], [1 / 2, 1 / 2, 2]] [1, 1, 29] (3 / 2) 1 = Returned pos' \<and>
     calculateDistances (real_cmp 0) (real_xt True) pos' [1, 1, 29] = Returned (5 / 4, 3 / 2)"
proof -
  let ?pos = "[[0, 0, 0], [2, 0, 0], [1 / 2, 1 / 2, 2 :: real]]" and ?zs = "[1, 1, 29] :: i32 list"
  have "hydrogens ?zs = [0, 1]" by (simp add: upt_rec)
  from perturb_distances [OF _ this, of ?pos 0 0 0 2 0 0 2 1 0 True "3 / 2"] show ?thesis by auto
qed

text \<open>
  What the helpers refuse.  Both throw for an element other than hydrogen and copper, and
  then for a number of hydrogen atoms other than two, before they look at the positions; the first
  also throws when the two atoms coincide.
\<close>

theorem geometry_refuses:
  shows "\<not> set zs \<subseteq> {1, 29} \<Longrightarrow> perturb_positions A X pos zs hcu d = Thrown ''Unexpected atomic number'' \<and>
      calculateDistances A X pos zs = Thrown ''Unexpected atomic number''"
    and "set zs \<subseteq> {1, 29} \<Longrightarrow> length (hydrogens zs) \<noteq> 2 \<Longrightarrow>
      perturb_positions A X pos zs hcu d = Thrown ''Expected exactly two hydrogen atoms'' \<and>
      calculateDistances A X pos zs = Thrown ''Expected exactly two hydrogen atoms''"
    and "set zs \<subseteq> {1, 29} \<Longrightarrow> hydrogens zs = [i, j] \<Longrightarrow> length pos = length zs \<Longrightarrow> pos ! i = [x, y, z] \<Longrightarrow> pos ! j = [x, y, z] \<Longrightarrow>
      perturb_positions (real_cmp L) (real_xt lazy) pos zs hcu d =
        Thrown ''Cannot normalize a vector whose norm is smaller than tol''"
  using hydrogen_pair [of zs i j]
  by (simp_all add: perturb_positions_def calculateDistances_def species_split xt_at_def Let_def ensure_normalized_def)

end
