(* ===== verification/Rgpot_Adapters.thy ===== *)
theory Rgpot_Adapters
  imports Rgpot_Matrix
begin

text \<open>
  The conversions of \<^verbatim>\<open>CppCore/rgpot/types/adapters/{eigen,xtensor}.hpp\<close> between \<^verbatim>\<open>AtomMatrix\<close> and the
  matrices of Eigen and xtensor, which are an argument.
\<close>

section \<open>Definitions\<close>

text \<open>
  What the adapters use of a matrix type \<open>'t\<close> of a library: its dimensions, element access, a
  matrix of zeros, and, in Eigen, the copy of a row-major array.
\<close>

record ('t, 'r) matrix_lib =
  t_rows :: "'t \<Rightarrow> usize"
  t_cols :: "'t \<Rightarrow> usize"
  t_at :: "'t \<Rightarrow> usize \<Rightarrow> usize \<Rightarrow> 'r cpp"
  t_put :: "'t \<Rightarrow> usize \<Rightarrow> usize \<Rightarrow> 'r \<Rightarrow> 't cpp"
  t_zeros :: "usize \<Rightarrow> usize \<Rightarrow> 't"
  t_from_row_major :: "'r list \<Rightarrow> usize \<Rightarrow> usize \<Rightarrow> 't"

definition usizes :: "usize \<Rightarrow> usize list" where
  "usizes n = map word_of_nat [0..<unat n]"

definition xtensor_convertToAtomMatrix :: "('t, 'r :: zero) matrix_lib \<Rightarrow> 't \<Rightarrow> 'r AtomMatrix cpp" where
  "xtensor_convertToAtomMatrix T matrix =
     loop_over (usizes (t_rows T matrix)) (\<lambda>i.
       loop_over (usizes (t_cols T matrix)) (\<lambda>j result.
         cpp_bind (t_at T matrix i j) (AtomMatrix_put result i j)))
       (AtomMatrix_new (t_rows T matrix) (t_cols T matrix))"

definition convertToXtensor :: "('t, 'r) matrix_lib \<Rightarrow> 'r AtomMatrix \<Rightarrow> 't cpp" where
  "convertToXtensor T atomMatrix =
     loop_over (usizes (m_rows atomMatrix)) (\<lambda>i.
       loop_over (usizes (m_cols atomMatrix)) (\<lambda>j result.
         cpp_bind (AtomMatrix_at atomMatrix i j) (t_put T result i j)))
       (t_zeros T (m_rows atomMatrix) (m_cols atomMatrix))"

text \<open>With Eigen the counters of the loops are \<^verbatim>\<open>int\<close>, whose overflow is undefined.\<close>

definition eigen_convertToAtomMatrix :: "('t, 'r :: zero) matrix_lib \<Rightarrow> 't \<Rightarrow> 'r AtomMatrix cpp" where
  "eigen_convertToAtomMatrix T matrix =
     (if 2 ^ 31 \<le> unat (t_rows T matrix) \<or> t_rows T matrix \<noteq> 0 \<and> 2 ^ 31 \<le> unat (t_cols T matrix) then Undef
      else loop_over (usizes (t_rows T matrix)) (\<lambda>i.
        loop_over (usizes (t_cols T matrix)) (\<lambda>j result.
          cpp_bind (t_at T matrix i j) (AtomMatrix_put result i j)))
        (AtomMatrix_new (t_rows T matrix) (t_cols T matrix)))"

definition convertToEigen :: "('t, 'r) matrix_lib \<Rightarrow> 'r AtomMatrix \<Rightarrow> 't" where
  "convertToEigen T atomMatrix = t_from_row_major T (m_data atomMatrix) (m_rows atomMatrix) (m_cols atomMatrix)"

text \<open>The box as an array of rows; both libraries have the same function under two names.\<close>

definition array_row :: "('t, 'r) matrix_lib \<Rightarrow> 't \<Rightarrow> usize \<Rightarrow> ('r \<times> 'r \<times> 'r) cpp" where
  "array_row T matrix i =
     cpp_bind (t_at T matrix i 0) (\<lambda>a. cpp_bind (t_at T matrix i 1) (\<lambda>b.
     cpp_bind (t_at T matrix i 2) (\<lambda>c. Returned (a, b, c))))"

definition convertToArray3x3 ::
    "('t, 'r) matrix_lib \<Rightarrow> 't \<Rightarrow> (('r \<times> 'r \<times> 'r) \<times> ('r \<times> 'r \<times> 'r) \<times> ('r \<times> 'r \<times> 'r)) cpp" where
  "convertToArray3x3 T matrix =
     cpp_bind (array_row T matrix 0) (\<lambda>r0. cpp_bind (array_row T matrix 1) (\<lambda>r1.
     cpp_bind (array_row T matrix 2) (\<lambda>r2. Returned (r0, r1, r2))))"

text \<open>A vector from the elements between two iterators, or the first \<open>n\<close> behind a pointer.\<close>

definition convertToVector :: "'a list \<Rightarrow> nat \<Rightarrow> 'a list cpp" where
  "convertToVector vector n = (if n \<le> length vector then Returned (take n vector) else Undef)"

section \<open>Filling a matrix\<close>

lemma set_usizes [simp]: "set (usizes n) = {i. i < n}"
proof -
  have "i \<in> word_of_nat ` {0..<unat n}" if "i < n" for i
    using that by (intro image_eqI [of _ _ "unat i"]) (simp_all add: word_less_nat_alt)
  moreover have "word_of_nat k < n" if "k < unat n" for k
    using that unat_of_nat_below [OF that] by (simp add: word_less_nat_alt)
  ultimately show ?thesis by (auto simp: usizes_def)
qed

lemma loop_over_append: "loop_over (xs @ ys) body s = cpp_bind (loop_over xs body s) (loop_over ys body)"
proof (induction xs arbitrary: s)
  case (Cons x xs)
  then show ?case by (cases "body x s") simp_all
qed simp

lemma loop_over_pairs:
  "loop_over is (\<lambda>i. loop_over js (body i)) s = loop_over (List.product is js) (\<lambda>(i, j). body i j) s"
proof (induction "is" arbitrary: s)
  case (Cons i "is")
  have "loop_over (map (Pair i) js) (\<lambda>(i, j). body i j) s = loop_over js (body i) s"
  proof (induction js arbitrary: s)
    case (Cons j js)
    then show ?case by (cases "body i j s") simp_all
  qed simp
  with Cons show ?case by (cases "loop_over js (body i) s") (simp_all add: loop_over_append)
qed simp

text \<open>A loop that writes one element per step, and leaves the others.\<close>

lemma fill_loop:
  assumes "\<And>ij s. ij \<in> set ps \<Longrightarrow> I s \<Longrightarrow> \<exists>s'. body ij s = Returned s' \<and> I s' \<and>
      (\<forall>kl \<in> P. get s' kl = (if kl = ij then v ij else get s kl))"
    and "set ps \<subseteq> P" and "I s"
  shows "\<exists>s'. loop_over ps body s = Returned s' \<and> I s' \<and>
     (\<forall>kl \<in> P. get s' kl = (if kl \<in> set ps then v kl else get s kl))"
  using assms
proof (induction ps arbitrary: s)
  case (Cons ij ps)
  from Cons.prems(1) [of ij s] Cons.prems(3) obtain s1 where s1: "body ij s = Returned s1" "I s1"
    "\<forall>kl \<in> P. get s1 kl = (if kl = ij then v ij else get s kl)" by auto
  from Cons.IH [of s1] Cons.prems(1,2) s1(2) obtain s' where s': "loop_over ps body s1 = Returned s'" "I s'"
    "\<forall>kl \<in> P. get s' kl = (if kl \<in> set ps then v kl else get s1 kl)" by auto
  from s1 s' show ?case by auto
qed auto

section \<open>Round trips\<close>

text \<open>A matrix of the library with the elements of \<open>m\<close>.\<close>

definition shows_matrix :: "('t, 'r) matrix_lib \<Rightarrow> 't \<Rightarrow> 'r AtomMatrix \<Rightarrow> bool" where
  "shows_matrix T t m \<longleftrightarrow> t_rows T t = m_rows m \<and> t_cols T t = m_cols m \<and>
     (\<forall>i < m_rows m. \<forall>j < m_cols m. t_at T t i j = AtomMatrix_at m i j)"

text \<open>
  What Eigen and xtensor promise of a matrix: reading what was written, and the elements of a
  row-major array.
\<close>

locale matrix_library =
  fixes T :: "('t, 'r :: zero) matrix_lib"
  assumes dims_zeros: "t_rows T (t_zeros T r c) = r" "t_cols T (t_zeros T r c) = c"
    and put: "i < t_rows T t \<Longrightarrow> j < t_cols T t \<Longrightarrow> \<exists>t'. t_put T t i j x = Returned t' \<and>
      t_rows T t' = t_rows T t \<and> t_cols T t' = t_cols T t \<and>
      (\<forall>k < t_rows T t. \<forall>l < t_cols T t. t_at T t' k l = (if k = i \<and> l = j then Returned x else t_at T t k l))"
    and dims_row_major: "length xs = unat r * unat c \<Longrightarrow> t_rows T (t_from_row_major T xs r c) = r"
      "length xs = unat r * unat c \<Longrightarrow> t_cols T (t_from_row_major T xs r c) = c"
    and row_major: "length xs = unat r * unat c \<Longrightarrow> i < r \<Longrightarrow> j < c \<Longrightarrow>
      t_at T (t_from_row_major T xs r c) i j = Returned (xs ! (unat i * unat c + unat j))"
begin

lemma to_xtensor:
  assumes ok: "matrix_ok m"
  shows "\<exists>t. convertToXtensor T m = Returned t \<and> shows_matrix T t m"
proof -
  let ?I = "\<lambda>t. t_rows T t = m_rows m \<and> t_cols T t = m_cols m"
  let ?ps = "List.product (usizes (m_rows m)) (usizes (m_cols m))"
  have "\<exists>t. loop_over ?ps (\<lambda>(i, j) t. cpp_bind (AtomMatrix_at m i j) (t_put T t i j)) (t_zeros T (m_rows m) (m_cols m)) = Returned t \<and>
     ?I t \<and> (\<forall>kl \<in> set ?ps. case_prod (t_at T t) kl = (if kl \<in> set ?ps then case_prod (AtomMatrix_at m) kl
        else case_prod (t_at T (t_zeros T (m_rows m) (m_cols m))) kl))"
  proof (rule fill_loop)
    fix ij t
    assume "ij \<in> set ?ps" and I: "?I t"
    then obtain i j where ij: "ij = (i, j)" "i < m_rows m" "j < m_cols m" by auto
    obtain x where x: "AtomMatrix_at m i j = Returned x"
      using matrix_index [OF ok ij(2,3)] by (simp add: AtomMatrix_at_def)
    from put [of i t j x] I ij x
    show "\<exists>t'. (case ij of (i, j) \<Rightarrow> \<lambda>t. cpp_bind (AtomMatrix_at m i j) (t_put T t i j)) t = Returned t' \<and> ?I t' \<and>
        (\<forall>kl \<in> set ?ps. case_prod (t_at T t') kl = (if kl = ij then case_prod (AtomMatrix_at m) ij else case_prod (t_at T t) kl))"
      by auto
  qed (simp_all add: dims_zeros)
  then show ?thesis by (auto simp: convertToXtensor_def loop_over_pairs shows_matrix_def)
qed

lemma from_library:
  assumes ok: "matrix_ok m" and t: "shows_matrix T t m"
  shows "xtensor_convertToAtomMatrix T t = Returned m"
proof -
  let ?I = "\<lambda>n. matrix_ok n \<and> m_rows n = m_rows m \<and> m_cols n = m_cols m"
  let ?ps = "List.product (usizes (m_rows m)) (usizes (m_cols m))" and ?n = "AtomMatrix_new (m_rows m) (m_cols m)"
  have "\<exists>n. loop_over ?ps (\<lambda>(i, j) n. cpp_bind (t_at T t i j) (AtomMatrix_put n i j)) ?n = Returned n \<and>
     ?I n \<and> (\<forall>kl \<in> set ?ps. case_prod (AtomMatrix_at n) kl = (if kl \<in> set ?ps then case_prod (AtomMatrix_at m) kl
        else case_prod (AtomMatrix_at ?n) kl))"
  proof (rule fill_loop)
    fix ij and n :: "'r AtomMatrix"
    assume "ij \<in> set ?ps" and I: "?I n"
    then obtain i j where ij: "ij = (i, j)" "i < m_rows m" "j < m_cols m" by auto
    obtain x where x: "AtomMatrix_at m i j = Returned x" "t_at T t i j = Returned x"
      using matrix_index [OF ok ij(2,3)] t ij by (simp add: AtomMatrix_at_def shows_matrix_def)
    from matrix_put [of n i j x] I ij x
    show "\<exists>n'. (case ij of (i, j) \<Rightarrow> \<lambda>n. cpp_bind (t_at T t i j) (AtomMatrix_put n i j)) n = Returned n' \<and> ?I n' \<and>
        (\<forall>kl \<in> set ?ps. case_prod (AtomMatrix_at n') kl = (if kl = ij then case_prod (AtomMatrix_at m) ij else case_prod (AtomMatrix_at n) kl))"
      by auto
  next
    show "?I ?n" using ok by (simp add: matrix_ok_def AtomMatrix_new_def unat_times_64)
  qed simp
  then obtain n where n: "loop_over ?ps (\<lambda>(i, j) n. cpp_bind (t_at T t i j) (AtomMatrix_put n i j)) ?n = Returned n" "?I n"
    "\<forall>i < m_rows m. \<forall>j < m_cols m. AtomMatrix_at n i j = AtomMatrix_at m i j" by auto
  from matrix_eqI [OF ok] n(2,3) have "n = m" by blast
  with n(1) t show ?thesis by (simp add: xtensor_convertToAtomMatrix_def loop_over_pairs shows_matrix_def)
qed

lemma to_eigen: "matrix_ok m \<Longrightarrow> shows_matrix T (convertToEigen T m) m"
  using matrix_index [of m] dims_row_major [of "m_data m" "m_rows m" "m_cols m"] row_major [of "m_data m" "m_rows m" "m_cols m"]
  by (simp add: shows_matrix_def convertToEigen_def matrix_ok_def AtomMatrix_at_def)

lemma roundtrips:
  assumes ok: "matrix_ok m"
  shows "cpp_bind (convertToXtensor T m) (xtensor_convertToAtomMatrix T) = Returned m"
    and "eigen_convertToAtomMatrix T (convertToEigen T m) =
      (if unat (m_rows m) < 2 ^ 31 \<and> (m_rows m = 0 \<or> unat (m_cols m) < 2 ^ 31) then Returned m else Undef)"
proof -
  show "cpp_bind (convertToXtensor T m) (xtensor_convertToAtomMatrix T) = Returned m"
    using to_xtensor [OF ok] from_library [OF ok] by auto
  let ?t = "convertToEigen T m"
  have "eigen_convertToAtomMatrix T ?t = (if unat (t_rows T ?t) < 2 ^ 31 \<and> (t_rows T ?t = 0 \<or> unat (t_cols T ?t) < 2 ^ 31)
      then xtensor_convertToAtomMatrix T ?t else Undef)"
    by (auto simp: eigen_convertToAtomMatrix_def xtensor_convertToAtomMatrix_def not_le)
  then show "eigen_convertToAtomMatrix T ?t =
      (if unat (m_rows m) < 2 ^ 31 \<and> (m_rows m = 0 \<or> unat (m_cols m) < 2 ^ 31) then Returned m else Undef)"
    using to_eigen [OF ok] from_library [OF ok] by (simp add: shows_matrix_def)
qed

end

text \<open>A matrix as its dimensions and its elements.\<close>

type_synonym 'r dense = "usize \<times> usize \<times> (usize \<Rightarrow> usize \<Rightarrow> 'r)"

definition dense_lib :: "('r dense, 'r :: zero) matrix_lib" where
  "dense_lib = \<lparr>t_rows = (\<lambda>(r, c, f). r), t_cols = (\<lambda>(r, c, f). c),
     t_at = (\<lambda>(r, c, f) i j. if i < r \<and> j < c then Returned (f i j) else Undef),
     t_put = (\<lambda>(r, c, f) i j x. if i < r \<and> j < c then Returned (r, c, f(i := (f i)(j := x))) else Undef),
     t_zeros = (\<lambda>r c. (r, c, \<lambda>_ _. 0)),
     t_from_row_major = (\<lambda>xs r c. (r, c, \<lambda>i j. xs ! (unat i * unat c + unat j)))\<rparr>"

interpretation dense: matrix_library dense_lib
  by unfold_locales (auto simp: dense_lib_def split: prod.splits)

text \<open>
  The adapters are faithful.  Whatever \<^verbatim>\<open>AtomMatrix\<close> is converted to a matrix of xtensor and back,
  or to one of Eigen and back, comes out unchanged; with Eigen as long as rows and columns can
  be counted in an \<^verbatim>\<open>int\<close>, beyond which the conversion is undefined.
\<close>

theorem adapters_roundtrip:
  assumes "matrix_library T" and "matrix_ok m"
  shows "cpp_bind (convertToXtensor T m) (xtensor_convertToAtomMatrix T) = Returned m \<and>
     eigen_convertToAtomMatrix T (convertToEigen T m) =
       (if unat (m_rows m) < 2 ^ 31 \<and> (m_rows m = 0 \<or> unat (m_cols m) < 2 ^ 31) then Returned m else Undef)"
  using matrix_library.roundtrips [OF assms] by simp

theorem adapters_roundtrip_witness:
  "cpp_bind (convertToXtensor dense_lib \<lparr>m_rows = 2, m_cols = 3, m_data = [1, 2, 3, 4, 5, 6 :: int]\<rparr>) (xtensor_convertToAtomMatrix dense_lib) =
     Returned \<lparr>m_rows = 2, m_cols = 3, m_data = [1, 2, 3, 4, 5, 6]\<rparr>"
  using adapters_roundtrip [OF dense.matrix_library_axioms, of "\<lparr>m_rows = 2, m_cols = 3, m_data = [1, 2, 3, 4, 5, 6 :: int]\<rparr>"]
  by (simp add: matrix_ok_def)

text \<open>The nine elements of the box, in order.\<close>

theorem array_elements:
  assumes "shows_matrix T t m" and "m_rows m = 3" "m_cols m = 3" and "m_data m = [a, b, c, d, e, f, g, h, i]"
  shows "convertToArray3x3 T t = Returned ((a, b, c), (d, e, f), (g, h, i))"
  using assms by (simp add: convertToArray3x3_def array_row_def shows_matrix_def AtomMatrix_at_def)

end
