(* ===== verification/Spec2Isabelle.thy ===== *)
theory Spec2Isabelle
  imports Rgpot_Session Rgpot_Client Rgpot_Server Rgpot_Soundness Rgpot_Build Rgpot_Tensor_Tests Rgpot_Status_Tests
    Rgpot_Types_Tests Rgpot_Potential_Tests Rgpot_Capi_Tests Rgpot_Raii Rgpot_Bridge
    Rgpot_Geometry Rgpot_Adapters
begin

text \<open>
  \<^bold>\<open>The program.\<close>  rgpot computes energies and forces of atomic configurations,
  locally through a callback or remotely over Cap'n Proto RPC.  Its core is the Rust
  crate \<^verbatim>\<open>src/rgpot-core\<close>, exposed through a C interface.  A caller wraps its
  arrays as DLPack tensors (\<^verbatim>\<open>tensor.rs\<close>), collects them in an input struct
  (\<^verbatim>\<open>types.rs\<close>, \<^verbatim>\<open>c_api/types.rs\<close>), and hands it with an output struct to a potential
  handle (\<^verbatim>\<open>potential.rs\<close>, \<^verbatim>\<open>c_api/potential.rs\<close>) or to an RPC client
  (\<^verbatim>\<open>rpc/client.rs\<close>, \<^verbatim>\<open>c_api/rpc.rs\<close>).  The server (\<^verbatim>\<open>rpc/server.rs\<close>) unpacks a
  request into tensors of its own and dispatches it to the callback of a handle.  Errors
  are status codes with a thread-local message, and a panic barrier stands before most
  entry points (\<^verbatim>\<open>status.rs\<close>).  C++ programs use the core through the classes under
  \<^verbatim>\<open>include/rgpot\<close>, which own its handles and structs and turn statuses into exceptions; their
  trampoline makes a potential of the C++ core (\<^verbatim>\<open>src/CppCore/rgpot\<close>) a callback of the
  Rust core.  The C++ core has two potentials, Lennard-Jones and copper-hydrogen, called
  through \<^verbatim>\<open>Potential::operator()\<close>, which counts calls in a registry of the live potentials and
  can keep results in a RocksDB cache; it has an RPC server of its own for them
  (\<^verbatim>\<open>rpc/server.cpp\<close>) and a client behind C functions (\<^verbatim>\<open>rpc/pot_bridge.cc\<close>).

  \<^bold>\<open>The theories.\<close>

    \<^item> \<open>Rgpot_Prelude\<close>: machine types, the simplification set \<open>exec\<close>, lemmas on words,
      map restriction and decimal printing.

    \<^item> \<open>Rgpot_Memory\<close>: the structs of all components and the machine they live in: a heap
      of typed blocks, the thread-local slots, and computations whose outcome is a value,
      a panic, an abort or undefined behaviour.  \<open>world_ok\<close> is the invariant of the heap,
      \<open>grows w w' F\<close> says that only the fresh addresses \<open>F\<close> were written.  The locale
      \<open>resource\<close> is the interface of everything that is created and freed; it is
      interpreted for tensors (\<open>tens\<close>), potential handles (\<open>pot\<close>), RPC clients
      (\<open>cli\<close>) and the C++ objects (\<open>spec\<close>, \<open>res\<close>, \<open>obj\<close>).

    \<^item> \<open>Rgpot_Text\<close>: the parts of the standard library's text handling the core relies on:
      C strings, UTF-8 validation with its error text, and \<^verbatim>\<open>host:port\<close> addresses.

    \<^item> \<open>Rgpot_Status\<close>: \<^verbatim>\<open>status.rs\<close>.  The locale \<open>error_slot\<close> states what a reported error
      does, and is interpreted on \<open>set_last_error\<close> as \<open>err\<close>.  Shown: messages are read
      back, per thread, in any interleaving of threads; the returned pointer lives until the
      next message; the panic
      barrier lets no panic through.

    \<^item> \<open>Rgpot_Strides\<close>: \<^verbatim>\<open>compute_row_major_strides\<close>, equal to the products of the trailing
      extents or a panic exactly on overflow; the strides address every element once.

    \<^item> \<open>Rgpot_Tensor\<close>: the rest of \<^verbatim>\<open>tensor.rs\<close>.  \<open>tensor_rep\<close> describes a tensor's object
      graph with its footprint.  Shown: constructors build it from fresh memory only,
      freeing removes exactly the footprint, owning copies are independent, validators
      accept exactly the documented tensors, and what happens when the element count
      overflows.

    \<^item> \<open>Rgpot_Session\<close>: sequences of tensor operations as a transition system; in every
      reachable state the live tensors coexist and account for all new memory.

    \<^item> \<open>Rgpot_Types\<close>: \<^verbatim>\<open>types.rs\<close> and \<^verbatim>\<open>c_api/types.rs\<close>; the lifecycle of an input.

    \<^item> \<open>Rgpot_Potential\<close>: \<^verbatim>\<open>potential.rs\<close> and \<^verbatim>\<open>c_api/potential.rs\<close>; argument checks,
      dispatch, ownership of user data.

    \<^item> \<open>Rgpot_Callback\<close>: the locale \<open>potential_callback\<close> states what a callback promises
      that computes an energy, a variance and forces on the configurations it is made for; it is
      interpreted on two callbacks of the source's test modules (\<open>sum_pot\<close>, \<open>writing_pot\<close>) and, in
      \<open>Rgpot_Cpp\<close>, on the potentials behind the trampoline.  Shown inside it: a local calculation
      delivers what the callback computes; and that user data reaches the callback.

    \<^item> \<open>Rgpot_Wire\<close>: the messages of \<^verbatim>\<open>schema/Potentials.capnp\<close> as the generated accessors
      present them, the loops over lists, and the libraries as parameters (\<open>rpc_lib\<close>).

    \<^item> \<open>Rgpot_Client\<close>: \<^verbatim>\<open>rpc/client.rs\<close> and \<^verbatim>\<open>c_api/rpc.rs\<close>.  \<open>remote_verdict\<close> is the
      specification of a remote calculation as a function of what the network answers;
      the client refines it on every branch.

    \<^item> \<open>Rgpot_Server\<close>: \<^verbatim>\<open>rpc/server.rs\<close>.  One request is a computation over the server's
      heap; start-up and the accept loop are a state machine over network events, with
      \<open>server_reachable\<close> its reachable states and \<open>server_inv\<close> the invariant.  It refines
      \<open>ideal_server\<close>, which answers every request on an open connection as it arrives.

    \<^item> \<open>Rgpot_Soundness\<close>: arbitrary programs over the C interface.  \<open>sound\<close> computations keep
      the machine well-formed and other threads' messages; one rule per primitive and one
      per way of composing them show it of every exported function but the blocking
      \<^verbatim>\<open>rgpot_rpc_server_start\<close>, for any arguments.

    \<^item> \<open>Rgpot_Build\<close>: \<^verbatim>\<open>build.rs\<close> over a file system, with cbindgen and the schema compiler
      as parameters.  Shown: the text of the generated header, and which file the schema module
      is written to, whichever source it is compiled from, and when the script fails.

    \<^item> \<open>Rgpot_Testing\<close>: what it means for a unit test of the source to pass on the model
      (\<open>passes\<close>: from every well-formed state it returns without a failed assertion and
      gives back all memory but the error message), and the rules that execute a test.

    \<^item> \<open>Rgpot_Tensor_Tests\<close>, \<open>Rgpot_Status_Tests\<close>, \<open>Rgpot_Types_Tests\<close>, \<open>Rgpot_Potential_Tests\<close>,
      \<open>Rgpot_Capi_Tests\<close>: the tests of \<^verbatim>\<open>tensor.rs\<close>, \<^verbatim>\<open>status.rs\<close>, \<^verbatim>\<open>types.rs\<close> and
      \<^verbatim>\<open>c_api/types.rs\<close>, \<^verbatim>\<open>potential.rs\<close> and \<^verbatim>\<open>c_api/potential.rs\<close>, each a definition under the
      name of the Rust function; all pass, in any selection, order and repetition.  They tie
      the model to what the source's authors assert of the code.

    \<^item> \<open>Rgpot_Registry\<close>: the list of live potentials of \<^verbatim>\<open>PotHelpers.hpp\<close> over a store of
      nodes.  \<open>lives\<close> are the states reached by constructing, copying and destroying; in all
      of them the links form one list of the live potentials.  The implicit assignment, of any of
      them to another, breaks it.

    \<^item> \<open>Rgpot_Matrix\<close>: results of C++ code (a value, an exception, undefined behaviour), arrays
      with their bounds, \<^verbatim>\<open>AtomMatrix.hpp\<close>, \<^verbatim>\<open>ForceStructs.hpp\<close>, \<^verbatim>\<open>PotHelpers.cc\<close>.

    \<^item> \<open>Rgpot_LJ\<close>: \<^verbatim>\<open>LJPot.cc\<close> over a record \<open>arith\<close> of the operations on doubles.  In any
      arithmetic the loops are a fold over the pairs of atoms, without overflow of the \<^verbatim>\<open>int\<close>
      indices up to \<open>715827882\<close> atoms (\<open>2 ^ 31\<close> divided by three); over the reals they compute
      the shifted pair energies, the forces are their derivatives and cancel, and are
      invariant under translations and lattice vectors.  These hold of objects whose shift is
      set; the constructor leaves it uninitialised and nothing sets it later, and the last section
      says exactly what the method does on an object as constructed.

    \<^item> \<open>Rgpot_CuH2\<close>: \<^verbatim>\<open>CuH2Pot.cc\<close>, which validates the species and calls a Fortran routine;
      \<open>eam_call\<close> is the call of the routine for a configuration.

    \<^item> \<open>Rgpot_Cache\<close>: \<^verbatim>\<open>PotentialCache\<close> and \<^verbatim>\<open>Potential::operator()\<close>.  The locales
      \<open>rocksdb_store\<close> and \<open>reliable_store\<close> are what the code relies on in RocksDB, with a
      database in memory as their instance.  Shown: the cache is transparent while keys do not
      collide, computes a configuration once, and deletes its database once; two
      configurations whose keys collide whatever the hash function, and a copy that deletes twice.

    \<^item> \<open>Rgpot_Cpp\<close>: the classes of \<^verbatim>\<open>include/rgpot\<close> over the model of the C interface.  The
      locale \<open>legacy_impl\<close> is the contract of an implementation behind the trampoline, with the
      copper-hydrogen potential (\<open>cuh2\<close>) and the Lennard-Jones potential as constructed, on
      configurations without atoms inside the cutoff (\<open>lj\<close>), as instances; \<open>trampolined\<close> adds the
      function pointer, and a \<^theory_text>\<open>sublocale\<close> of it is \<open>potential_callback\<close>, for systems of at least one
      atom.  Shown: what a program of local calculations over the copper-hydrogen potential
      gets, a remote one follows \<open>remote_verdict\<close>, and what the exceptions carry.

    \<^item> \<open>Rgpot_Raii\<close>: any sequence of operations on C++ objects as a transition system
      (\<open>raii\<close>); the live objects own disjoint memory and everything that was allocated.  Its
      calculations are those that succeed; the ones that throw are in \<open>Rgpot_Cpp\<close>.

    \<^item> \<open>Rgpot_Bridge\<close>: \<^verbatim>\<open>capnp_adapter.hpp\<close>, \<^verbatim>\<open>rpc/server.cpp\<close> and \<^verbatim>\<open>rpc/pot_bridge.cc\<close>.  Shown:
      messages convert back and forth, a calculation through bridge and server delivers what the
      copper-hydrogen potential computes, every failure has its code and text, and what a short
      box does.

    \<^item> \<open>Rgpot_Geometry\<close>: \<^verbatim>\<open>cuh2Utils\<close> over a record of the expressions of xtensor.  Shown: over the
      reals, where the hydrogen atoms end with eager and with lazy evaluation, and what is refused.

    \<^item> \<open>Rgpot_Adapters\<close>: the adapters to Eigen and xtensor; the locale \<open>matrix_library\<close> is what they
      rely on.  Shown: a matrix converted there and back is unchanged.

    \<^item> this theory: client and server joined by a transport; a remote calculation
      delivers what a local one does, failures of the server reach the caller, the
      copper-hydrogen potential served to a C++ client delivers what the Fortran routine
      computes, what every call of a Lennard-Jones potential as constructed does, and what a
      system without atoms does.

  \<^bold>\<open>How the code is rendered.\<close>  A function that touches memory is a computation \<open>'a comp\<close>,
  its statements joined by \<open>bnd\<close> in the source's order; \<open>extern_C\<close> marks a function with
  the C ABI, out of which a panic aborts the process, as Rust does since 1.81.  Machine
  integers are words of their width on a 64-bit target; \<open>overflow_checks\<close> selects between the
  panicking and the wrapping product.  A double is its bit pattern: the core moves
  doubles and computes none, apart from \<^verbatim>\<open>n as f64\<close> in a test callback; the potentials of the
  C++ core compute with the operations of a record \<open>arith\<close>, in any such record or in that of
  the reals.  C++ code over arrays returns \<open>'a cpp\<close>; an access out of range, a read of an
  uninitialised member and an \<^verbatim>\<open>int\<close> overflow are \<open>Undef\<close>.  A C++ object whose address the core
  is given is a block as well, released by its destructor.  Every
  allocation is a block at an address that is never used again, so a use after free or a
  double free is visible as \<open>Undefined\<close>; reading a block at another type, out of its
  bounds, or through null is \<open>Undefined\<close> too.  A \<^verbatim>\<open>Vec\<close> inside a struct is the address of its
  buffer; an empty one has an empty block of its own, while an empty \<^verbatim>\<open>std::vector\<close> has
  no storage and its data pointer is null, as in the standard libraries in use.  Local variables whose address is
  taken are blocks freed at the end of their scope (\<open>with_locals\<close>).

  \<^bold>\<open>What is assumed.\<close>  Code outside the repository is a parameter: callbacks, destructors and
  foreign deleters behind function pointers (\<open>env\<close>), and tokio, the operating system's
  sockets and Cap'n Proto (\<open>rpc_lib\<close>).  Statements about them are hypotheses:
  \<open>potential_callback\<close>, \<open>owning_destructor\<close>, \<open>env_sound\<close> and \<open>lib_sound\<close> (foreign code keeps the
  machine well-formed), \<open>builders_ok\<close> (lists of numbers start at zero,
  \<^verbatim>\<open>set\<close> replaces an element in range, and hold fewer than \<open>2 ^ 29\<close> elements),
  \<open>quiet_network\<close> and \<open>quiet_server\<close> (the libraries do not write to the process's other
  memory), \<open>tools_ok\<close> (cbindgen does its job), \<open>capnpc_ok\<close> (the schema compiler names its output after
  the path below the source prefix, and fails on a text that is no schema), and
  \<open>faithful_transport\<close>.  RocksDB and XXH3 (\<open>libs\<close>), the Fortran routine (\<open>eam\<close>) and EzRpc (\<open>ez_rpc\<close>,
  with \<open>ez_serves\<close> and \<open>legal_results\<close>), xtensor (\<open>xt_lib\<close>) and the matrices of Eigen and xtensor
  (\<open>matrix_lib\<close>) are parameters too.  Each has a concrete instance, used by the witnesses.
  The server's method has no await point, so its executions do not interleave; what
  interleaves is the order of the events.  Memory exhaustion is not modelled.

  \<^bold>\<open>Not modelled.\<close>  The binary encoding of Cap'n Proto and the scheduling inside tokio; the
  generated header itself; the crate root, which only declares modules; the test that a
  handle may be sent between threads, which only type checks; interference between tests through
  the static flags of the test modules, which are locals of each test here, and the widths of
  the counters behind their user data, which are all 32 bits; printing; and the rounding of doubles.

  No loop of the model needs fuel: the stride loop, the list loops, the atom loops and the
  server's event fold recurse over lists, and the server's non-termination is the absence of a
  \<open>Returned\<close> state among those reached.
\<close>

section \<open>Client and server together\<close>

text \<open>
  What the two ends assume of the transport between them: a connection can be made, a
  request of legal size reaches the server's method with the lists that were put into it, and a
  result the method returns reaches the client with its energy and forces; an error it
  returns reaches the client as some error.
\<close>

definition request_of :: "fip_builder \<Rightarrow> calculate_params" where
  "request_of q = request_params (fb_pos q) (fb_atmnrs q) (fb_box q)"

definition response_of :: "result_builder \<Rightarrow> calculate_response" where
  "response_of rb = Inr (Inr \<lparr>rr_energy = rb_energy rb, rr_forces = Inr (rb_forces rb)\<rparr>)"

definition faithful_transport ::
    "net_answers \<Rightarrow> string \<Rightarrow> (calculate_params \<Rightarrow> (capnp_error + result_builder) outcome) \<Rightarrow> bool" where
  "faithful_transport N ad serve \<longleftrightarrow>
     (\<exists>stream. net_connect N ad = Inr stream \<and> net_nodelay N stream = Inr () \<and>
        (\<forall>q. legal_request (fb_pos q) (fb_atmnrs q) (fb_box q) \<longrightarrow>
          (case serve (request_of q) of
            Done (Inr rb) _ \<Rightarrow> net_call N (net_bootstrap N stream) q = Inr (response_of rb)
          | Done (Inl e) _ \<Rightarrow> (\<exists>e'. net_call N (net_bootstrap N stream) q = Inl e')
          | _ \<Rightarrow> True)))"

lemma transport_call:
  assumes "faithful_transport N ad serve" and "legal_request xs zs bs"
  shows "\<exists>stream. net_connect N ad = Inr stream \<and> net_nodelay N stream = Inr () \<and>
    (case serve (request_params xs zs bs) of
       Done (Inr rb) _ \<Rightarrow> net_call N (net_bootstrap N stream) \<lparr>fb_pos = xs, fb_atmnrs = zs, fb_box = bs\<rparr> =
         Inr (response_of rb)
     | Done (Inl e) _ \<Rightarrow>
         (\<exists>e'. net_call N (net_bootstrap N stream) \<lparr>fb_pos = xs, fb_atmnrs = zs, fb_box = bs\<rparr> = Inl e')
     | _ \<Rightarrow> True)"
proof -
  let ?q = "\<lparr>fb_pos = xs, fb_atmnrs = zs, fb_box = bs\<rparr>"
  have "legal_request (fb_pos ?q) (fb_atmnrs ?q) (fb_box ?q)" using assms(2) by simp
  moreover have "request_of ?q = request_params xs zs bs" by (simp add: request_of_def)
  ultimately show ?thesis using assms(1) unfolding faithful_transport_def by metis
qed

lemma verdict_served:
  assumes "faithful_transport N ad serve" and "legal_request xs zs bs"
    and "serve (request_params xs zs bs) = Done (Inr \<lparr>rb_energy = e, rb_forces = fs\<rparr>) ws"
    and "length fs = length xs"
  shows "remote_verdict R N ad xs zs bs = Accept e fs"
  using transport_call [OF assms(1,2)] assms(3,4)
  by (auto simp: remote_verdict_def response_of_def judge_response_def judge_result_def)

lemma verdict_failed:
  assumes "faithful_transport N ad serve" and "legal_request xs zs bs"
    and "serve (request_params xs zs bs) = Done (Inl e) ws"
  shows "\<exists>e'. remote_verdict R N ad xs zs bs = Refuse (''RPC call failed: '' @ show_capnp R e') None"
  using transport_call [OF assms(1,2)] assms(3) by (auto simp: remote_verdict_def)

lemma input_data_legal: "input_data h n p a b xs zs bs \<Longrightarrow> length xs < max_list \<Longrightarrow> legal_request xs zs bs"
  by (simp add: input_data_def legal_request_def)

text \<open>
  C1: Remote equals local.  A caller holds a handle on a potential that meets the contract
  and a client of a server for the same potential, running in its own memory.  On any
  configuration it is made for, \<^verbatim>\<open>rgpot_potential_calculate\<close> and \<^verbatim>\<open>rgpot_rpc_calculate\<close> both succeed
  and deliver the same energy and the same forces, each in a fresh owned tensor, with
  the caller's memory otherwise unchanged.  The variance is the one difference: the
  local call stores the potential's, the remote call leaves the field as it was.
\<close>

theorem remote_equals_local:
  assumes con: "potential_callback E f ud good en va fo"
    and ok: "world_ok w" "heap w cl = Some (Rpc_client c)"
    and pot: "heap w h = Some (Potential_impl \<lparr>callback = f, user_data = ud, free_fn = ff\<rparr>)"
    and args: "heap w pin = Some (Force_input i)" "heap w pout = Some (Force_out r)"
    and inp: "input_rep (heap w) i n p a b F" "input_data (heap w) n p a b xs zs bs"
    and len: "length xs < max_list" and good: "good xs zs bs"
    and net: "quiet_network R N" "legal_answers N"
    and srv: "world_ok ws" "builders_ok Rs"
      "faithful_transport N (addr c)
        (\<lambda>params. PotentialServer_calculate E Rs \<lparr>ps_callback = f, ps_user_data = ud\<rparr> params ws)"
  shows "\<exists>wl wr e fs v. rgpot_potential_calculate E h pin pout w = Done RGPOT_SUCCESS wl \<and>
     rgpot_rpc_calculate E R cl pin pout w = Done RGPOT_SUCCESS wr \<and>
     length fs = length xs \<and>
     forces_delivered w pout (r\<lparr>variance := v\<rparr>) n e fs wl \<and> forces_delivered w pout r n e fs wr"
proof -
  let ?e = "en xs zs bs" and ?fs = "fo xs zs bs"
  have len': "length ?fs = length xs" by (rule potential_callback.forces_length [OF con good])
  obtain wl where l: "rgpot_potential_calculate E h pin pout w = Done RGPOT_SUCCESS wl"
    and dl: "forces_delivered w pout (r\<lparr>variance := va xs zs bs\<rparr>) n ?e ?fs wl"
    using potential_callback.calculate_computes [OF con ok(1) pot args inp good]
    unfolding forces_delivered_def by auto
  have legal: "legal_request xs zs bs" using inp(2) len by (rule input_data_legal)
  from served_right [OF con srv(1) this srv(2) good] obtain m where
    "PotentialServer_calculate E Rs \<lparr>ps_callback = f, ps_user_data = ud\<rparr> (request_params xs zs bs) ws =
      Done (Inr \<lparr>rb_energy = ?e, rb_forces = ?fs\<rparr>) (ws\<lparr>brk := m\<rparr>)" by blast
  from verdict_served [OF srv(3) legal this len', of R]
  have "remote_verdict R N (addr c) xs zs bs = Accept ?e ?fs" .
  with rpc_calculate_judged [OF ok args inp net len, of E] obtain wr
    where "rgpot_rpc_calculate E R cl pin pout w = Done RGPOT_SUCCESS wr"
    and "forces_delivered w pout r n ?e ?fs wr" by auto
  with l dl len' show ?thesis by blast
qed

text \<open>
  Remote failures are reported.  When the server's method answers with an error, be it
  because the potential failed or because the request was refused, the client
  returns \<^verbatim>\<open>RGPOT_RPC_ERROR\<close> with a message that starts with \<^verbatim>\<open>RPC call failed\<close>, and
  the caller's memory, the output struct included, is unchanged.
\<close>

theorem remote_failure_reported:
  assumes "world_ok w" and "heap w cl = Some (Rpc_client c)"
    and "heap w pin = Some (Force_input i)" and "heap w pout = Some (Force_out r)"
    and "input_rep (heap w) i n p a b F" and "input_data (heap w) n p a b xs zs bs"
    and "quiet_network R N" and "legal_answers N" and "length xs < max_list"
    and "faithful_transport N (addr c) (\<lambda>params. PotentialServer_calculate Es Rs srv params ws)"
    and "PotentialServer_calculate Es Rs srv (request_params xs zs bs) ws = Done (Inl e) ws'"
  shows "\<exists>e' w'. rgpot_rpc_calculate E R cl pin pout w = Done RGPOT_RPC_ERROR w' \<and>
     messages w' (thread w) =
       stored_message (''rgpot_rpc_calculate: RPC call failed: '' @ show_capnp R e') \<and>
     core_mem w' = core_mem w \<and> world_ok w'"
proof -
  obtain e' where "remote_verdict R N (addr c) xs zs bs = Refuse (''RPC call failed: '' @ show_capnp R e') None"
    using verdict_failed [OF assms(10) input_data_legal [OF assms(6,9)] assms(11)] by blast
  with rpc_calculate_judged [OF assms(1-9), of E]
  have "rgpot_rpc_calculate E R cl pin pout w = Done RGPOT_RPC_ERROR
      (record_error (''rgpot_rpc_calculate: '' @ ''RPC call failed: '' @ show_capnp R e') w)"
    by (simp add: energy_written_def)
  then show ?thesis
    by (intro exI conjI) (assumption, simp_all add: error_simps assms(1))
qed

text \<open>The Rust server over a potential behind the trampoline that throws or is undefined.\<close>

lemma thrown_answers:
  assumes code: "callback_code E f = trampoline_callback E' forceImpl"
    and throws: "\<And>n. unat n = length zs \<Longrightarrow> \<exists>e. forceImpl ud (legacy_input n xs zs bs) (zeroed_out n) = Thrown e"
  shows "callback_answers E f ud xs zs bs RGPOT_INTERNAL_ERROR 0 []"
  unfolding callback_answers_def
proof (intro allI impI, elim conjE)
  fix w pin pout i n p a b F
  assume ok: "world_ok w" and pin: "heap w pin = Some (Force_input i)" and out: "heap w pout = Some (out_struct null 0 0)"
    and rep: "input_rep (heap w) i n p a b F" and dat: "input_data (heap w) n p a b xs zs bs"
  obtain e where "forceImpl ud (legacy_input n xs zs bs) (zeroed_out n) = Thrown e"
    using throws [of n] dat by (auto simp: input_data_def)
  note run = trampoline_throws [where forceImpl = forceImpl and ud = ud, OF ok pin rep dat this, of E' pout]
  let ?w = "w\<lparr>brk := if zs = [] then brk w else Suc (brk w)\<rparr>"
  have "world_ok ?w" using ok by (rule world_ok_higher) simp
  then have "grows (set_block pout (out_struct null 0 0) w) ?w {}"
    using out by (simp add: grows_def set_block_def fun_upd_idem)
  then have "callback_did w pout n (length xs) 0 [] ?w"
    unfolding callback_did_def by (intro exI [of _ "\<lparr>forces = null, energy = 0, variance = 0\<rparr>"] exI [of _ "{}"]) simp
  with run code show "\<exists>w'. callback_code E f ud pin pout w = Done RGPOT_INTERNAL_ERROR w' \<and>
      callback_did w pout n (length xs) 0 [] w'" by auto
qed

lemma serve_undefined_behind:
  assumes ok: "world_ok w" and code: "callback_code E f = trampoline_callback E' forceImpl"
    and legal: "legal_request xs zs bs"
    and runs: "\<And>n. unat n = length zs \<Longrightarrow> forceImpl ud (legacy_input n xs zs bs) (zeroed_out n) = Undef \<or>
      zs = [] \<and> forceImpl ud (legacy_input n xs zs bs) (zeroed_out n) = cpp.Returned fo"
  shows "PotentialServer_calculate E R \<lparr>ps_callback = f, ps_user_data = ud\<rparr> (request_params xs zs bs) w = Undefined"
proof (rule serve_undefined [OF ok])
  fix w' :: world and pin pout i m q z c G
  assume h: "world_ok w'" "heap w' pin = Some (Force_input i)" "heap w' pout = Some (out_struct null 0 0)"
    "input_rep (heap w') i m q z c G"
    and d: "unat m = length zs" "heap w' q = Some (F64s xs)" "heap w' z = Some (I32s zs)"
      "heap w' c = Some (F64s (collect_list bs))"
  have "collect_list bs = bs" using legal by (intro collect_list_id) (simp add: legal_request_def max_list_def)
  with d legal have "input_data (heap w') m q z c xs zs bs" by (simp add: input_data_def legal_request_def max_list_def)
  from trampoline_undefined [where forceImpl = forceImpl and ud = ud, OF h this runs [OF d(1)], of E']
  show "callback_code E f ud pin pout w' = Undefined" by (simp add: code)
qed (use legal in \<open>simp_all add: legal_request_def max_list_def\<close>)

text \<open>
  C25: A C++ potential, served by the Rust server to a C++ client.  The server's handle calls the
  copper-hydrogen potential through the trampoline.  For every configuration that fits a
  message: when the elements present are copper and hydrogen, the client's \<^verbatim>\<open>calculate\<close> returns a
  result with the energy and the forces of the Fortran routine on the configuration, and its
  destruction restores the client's memory; for any other system it throws an RPC error whose text
  says that the call failed, and leaks nothing.
\<close>

theorem cuh2_remote:
  assumes code: "callback_code Es f = trampoline_callback E' (\<lambda>_. CuH2Pot_forceImpl eam)"
    and ok: "world_ok w" "heap w cl = Some (Rpc_client c)"
    and spec: "spec_rep (heap w) (spec_input inp) (Some (n, p, a, b)) F"
    and dat: "input_data (heap w) n p a b xs zs bs" and len: "length xs < max_list"
    and net: "quiet_network R N" "legal_answers N"
    and srv: "world_ok ws" "builders_ok Rs"
      "faithful_transport N (addr c)
        (\<lambda>params. PotentialServer_calculate Es Rs \<lparr>ps_callback = f, ps_user_data = ud\<rparr> params ws)"
    and eam: "set zs = {29, 1} \<Longrightarrow> eam_call eam xs zs bs = cpp.Returned (fs, e) \<and> length fs = length xs"
  shows "if set zs = {29, 1} then
       \<exists>r w'. cpp_rpc_calculate E R cl inp w = Done (Inr r) w' \<and>
         CalcResult_energy r w' = Done e w' \<and> forces_vec r w' = Done fs w' \<and>
         CalcResult_dtor E r w' = Done () (w\<lparr>brk := brk w'\<rparr>)
     else \<exists>x w'. cpp_rpc_calculate E R cl inp w = Done (Inl (''RPC error: '' @
         stored_message (''rgpot_rpc_calculate: RPC call failed: '' @ show_capnp R x))) w' \<and> core_mem w' = core_mem w"
proof -
  have legal: "legal_request xs zs bs" using dat len by (rule input_data_legal)
  then have l: "length xs = 3 * length zs" "length bs = 9" "length zs \<le> 715827882" by (simp_all add: legal_request_def max_list_def)
  note judged = cpp_rpc_judged [OF ok spec dat net len, of E]
  show ?thesis
  proof (cases "set zs = {29, 1}")
    case True
    with eam l have good: "cuh2_good eam xs zs bs \<and> zs \<noteq> []" and v: "eam_energy eam xs zs bs = e" "eam_forces eam xs zs bs = fs"
      by (auto simp: cuh2_good_def eam_energy_def eam_forces_def)
    note con = trampoline_contract [OF cuh2.legacy_impl_axioms code, of ud]
    from served_right [OF con srv(1) legal srv(2) good] v obtain m where
      "PotentialServer_calculate Es Rs \<lparr>ps_callback = f, ps_user_data = ud\<rparr> (request_params xs zs bs) ws =
        Done (Inr \<lparr>rb_energy = e, rb_forces = fs\<rparr>) (ws\<lparr>brk := m\<rparr>)" by auto
    from verdict_served [OF srv(3) legal this] eam [OF True]
    have "remote_verdict R N (addr c) xs zs bs = Accept e fs" by blast
    with judged True show ?thesis by simp
  next
    case False
    have "\<exists>e. CuH2Pot_forceImpl eam (legacy_input n xs zs bs) (zeroed_out n) = Thrown e" if "unat n = length zs" for n :: usize
      using that l False by (intro cuh2_refuses) simp_all
    from thrown_answers [where forceImpl = "\<lambda>_. CuH2Pot_forceImpl eam", OF code this, of ud]
    have "callback_answers Es (ps_callback \<lparr>ps_callback = f, ps_user_data = ud\<rparr>) (ps_user_data \<lparr>ps_callback = f, ps_user_data = ud\<rparr>)
        xs zs bs RGPOT_INTERNAL_ERROR 0 []" by simp
    from serve_answers [OF srv(1) legal srv(2) this] obtain m where
      "PotentialServer_calculate Es Rs \<lparr>ps_callback = f, ps_user_data = ud\<rparr> (request_params xs zs bs) ws =
        Done (Inl (Failed ''potential callback returned an error'')) (ws\<lparr>brk := m\<rparr>)"
      by (auto simp: answer_def max_list_def)
    from verdict_failed [OF srv(3) legal this, of R] obtain x where
      "remote_verdict R N (addr c) xs zs bs = Refuse (''RPC call failed: '' @ show_capnp R x) None" by blast
    with judged False show ?thesis by auto
  qed
qed

text \<open>
  C38: The Lennard-Jones potential as it is constructed.  Its shift is never set, so with two atoms
  closer than the cutoff of 15 every way to it is undefined behaviour: the handle of a C++
  program, the Rust server with such a handle, at the choice of the remote client, and the
  server of the C++ core that is started for it.  With all atoms further apart, and at least one
  of them, the calculation returns the energy zero and zero forces.
\<close>

theorem lj_calls:
  assumes code: "callback_code E f = trampoline_callback E' (\<lambda>_. LJPot_forceImpl A (LJPot_ctor A))"
    and ok: "world_ok w" and pot: "heap w h = Some (Potential_impl \<lparr>callback = f, user_data = ud, free_fn = ff\<rparr>)"
    and spec: "spec_rep (heap w) (spec_input inp) (Some (n, p, a, b)) F"
    and dat: "input_data (heap w) n p a b xs zs bs" and len: "length xs < max_list"
  shows "if within_cutoff A xs zs bs then
       PotentialHandle_calculate E h inp w = Undefined \<and>
       PotentialServer_calculate E R \<lparr>ps_callback = f, ps_user_data = ud\<rparr> (request_params xs zs bs) w = Undefined \<and>
       fst (GenericPotImpl_calculate what (Potential_call Ldb (LJPot_forceImpl A (LJPot_ctor A)) LJ null)
         (received \<lparr>fb_pos = xs, fb_atmnrs = zs, fb_box = bs\<rparr>) srv) = Undef
     else zs \<noteq> [] \<longrightarrow> (\<exists>r w'. PotentialHandle_calculate E h inp w = Done (Inr r) w' \<and>
       CalcResult_energy r w' = Done (f_lit A 0) w' \<and> forces_vec r w' = Done (replicate (length xs) (f_lit A 0)) w')"
proof -
  have legal: "legal_request xs zs bs" using dat len by (rule input_data_legal)
  then have l: "length xs = 3 * length zs" "length bs = 9" "length zs \<le> 715827882" and fair: "fair_request xs zs bs"
    by (simp_all add: legal_request_def max_list_def fair_request_def)
  show ?thesis
  proof (cases "within_cutoff A xs zs bs")
    case True
    have run: "LJPot_forceImpl A (LJPot_ctor A) (legacy_input m xs zs bs) (zeroed_out m) = Undef" if "unat m = length zs" for m :: usize
    proof -
      have "length xs = 3 * unat m" "length zs = unat m" using l(1) that by simp_all
      from lj_built_run [OF this l(2,3), of A] show ?thesis unfolding if_P [OF True] .
    qed
    have "unat n = length zs" using dat by (simp add: input_data_def)
    from run [OF this] have "PotentialHandle_calculate E h inp w = Undefined"
      by (intro handle_undefined [where forceImpl = "\<lambda>_. LJPot_forceImpl A (LJPot_ctor A)", OF ok pot code spec dat]) simp
    moreover have "PotentialServer_calculate E R \<lparr>ps_callback = f, ps_user_data = ud\<rparr> (request_params xs zs bs) w = Undefined"
      using run by (intro serve_undefined_behind [where forceImpl = "\<lambda>_. LJPot_forceImpl A (LJPot_ctor A)", OF ok code legal]) simp
    moreover note operator_serves(4) [where impl = "LJPot_forceImpl A (LJPot_ctor A)" and what = what and Ldb = Ldb and mt = LJ and s = srv, OF fair run
        [OF operator_serves(1) [OF fair]]]
    ultimately show ?thesis using True by simp
  next
    case False
    note con = trampoline_contract [OF lj.legacy_impl_axioms code, of ud]
    from potential_callback.handle_calculates [OF con ok pot spec dat] False l(3) show ?thesis by auto
  qed
qed


section \<open>A concrete pair\<close>

text \<open>
  A network that is nothing but the server's method, as a witness that the hypotheses
  on the transport can be met.
\<close>

definition loopback ::
    "(calculate_params \<Rightarrow> (capnp_error + result_builder) outcome) \<Rightarrow> net_answers" where
  "loopback serve = \<lparr>net_connect = (\<lambda>_. Inr 0), net_nodelay = (\<lambda>_. Inr ()), net_bootstrap = (\<lambda>_. 0),
     net_call = (\<lambda>_ q. if legal_request (fb_pos q) (fb_atmnrs q) (fb_box q)
       then (case serve (request_of q) of
           Done (Inr rb) _ \<Rightarrow> Inr (response_of rb)
         | Done (Inl e) _ \<Rightarrow> Inl e
         | _ \<Rightarrow> Inl (Failed ''disconnected''))
       else Inl (Failed ''message too large''))\<rparr>"

lemma loopback_faithful: "faithful_transport (loopback serve) ad serve"
  by (auto simp: faithful_transport_def loopback_def split: outcome.split sum.split)

lemma loopback_legal:
  assumes "\<And>xs zs bs rb ws. legal_request xs zs bs \<Longrightarrow>
     serve (request_params xs zs bs) = Done (Inr rb) ws \<Longrightarrow> length (rb_forces rb) < max_list"
  shows "legal_answers (loopback serve)"
  using assms
  by (fastforce simp: legal_answers_def loopback_def request_of_def response_of_def
      split: if_splits outcome.splits sum.splits)

abbreviation ramp_server :: PotentialServer where
  "ramp_server \<equiv> \<lparr>ps_callback = 2, ps_user_data = null\<rparr>"

definition ramp_serve :: "calculate_params \<Rightarrow> (capnp_error + result_builder) outcome" where
  "ramp_serve params = PotentialServer_calculate test_env (lib_of silent_net) ramp_server params boot_world"

lemma lib_builders: "builders_ok (lib_of N)"
  by (simp add: builders_ok_def lib_of_def init_set_list_ok)

lemma ramp_serve_legal: "legal_answers (loopback ramp_serve)"
proof (rule loopback_legal)
  fix xs zs bs rb ws
  assume legal: "legal_request xs zs bs" and run: "ramp_serve (request_params xs zs bs) = Done (Inr rb) ws"
  from served_right [OF writing_pot.potential_callback_axioms boot_world_ok legal lib_builders TrueI,
      of silent_net null] run
  show "length (rb_forces rb) < max_list"
    using legal writing_pot.forces_length by (auto simp: ramp_serve_def legal_request_def)
qed

text \<open>A caller with the sample configuration, a client and a handle on the same potential.\<close>

definition both :: "rgpot_force_input_t \<Rightarrow> world \<Rightarrow> world" where
  "both i w = push (Potential_impl \<lparr>callback = 2, user_data = null, free_fn = None\<rparr>)
     (with_args i (Rpc_client \<lparr>runtime = 0, addr = ''h:1''\<rparr>) w)"

lemma both_ready:
  "\<exists>i w F. rgpot_force_input_create test_env 2 1 2 3 sample_world = Done i w \<and> world_ok (both i w) \<and>
     heap (both i w) (brk w + 2) = Some (Rpc_client \<lparr>runtime = 0, addr = ''h:1''\<rparr>) \<and>
     heap (both i w) (brk w + 3) = Some (Potential_impl \<lparr>callback = 2, user_data = null, free_fn = None\<rparr>) \<and>
     heap (both i w) (brk w) = Some (Force_input i) \<and>
     heap (both i w) (brk w + 1) = Some (out_struct null 0 0) \<and>
     input_rep (heap (both i w)) i 2 1 2 3 F \<and>
     input_data (heap (both i w)) 2 1 2 3 sample_positions [29, 1] sample_box"
proof -
  let ?b = "Rpc_client \<lparr>runtime = 0, addr = ''h:1''\<rparr>"
  obtain i w F where r: "rgpot_force_input_create test_env 2 1 2 3 sample_world = Done i w"
     "world_ok (with_args i ?b w)"
     "heap (with_args i ?b w) (brk w) = Some (Force_input i)"
     "heap (with_args i ?b w) (brk w + 1) = Some (out_struct null 0 0)"
     "heap (with_args i ?b w) (brk w + 2) = Some ?b"
     "input_rep (heap (with_args i ?b w)) i 2 1 2 3 F"
     "input_data (heap (with_args i ?b w)) 2 1 2 3 sample_positions [29, 1] sample_box"
    using sample_ready [of test_env ?b] by auto
  have g: "grows (with_args i ?b w) (both i w) {brk (with_args i ?b w)}"
    unfolding both_def by (rule grows_push [OF r(2)])
  have "heap (both i w) (brk w + 3) = Some (Potential_impl \<lparr>callback = 2, user_data = null, free_fn = None\<rparr>)"
    by (simp add: both_def with_args_def)
  with r(1) growsD(1) [OF g] grows_keeps [OF g r(2) r(5)] grows_keeps [OF g r(2) r(3)]
    grows_keeps [OF g r(2) r(4)] input_rep_grows [OF r(6) r(2) g] input_data_grows [OF r(7) r(2) g]
  show ?thesis by blast
qed

theorem remote_equals_local_witness:
  "\<exists>i w wl wr e fs v. rgpot_force_input_create test_env 2 1 2 3 sample_world = Done i w \<and>
     rgpot_potential_calculate test_env (brk w + 3) (brk w) (brk w + 1) (both i w) = Done RGPOT_SUCCESS wl \<and>
     rgpot_rpc_calculate test_env (lib_of (loopback ramp_serve)) (brk w + 2) (brk w) (brk w + 1) (both i w) =
       Done RGPOT_SUCCESS wr \<and>
     forces_delivered (both i w) (brk w + 1) \<lparr>forces = null, energy = 0, variance = v\<rparr> 2 e fs wl \<and>
     forces_delivered (both i w) (brk w + 1) \<lparr>forces = null, energy = 0, variance = 0\<rparr> 2 e fs wr"
proof -
  obtain i w F where r: "rgpot_force_input_create test_env 2 1 2 3 sample_world = Done i w"
     "world_ok (both i w)"
     "heap (both i w) (brk w + 2) = Some (Rpc_client \<lparr>runtime = 0, addr = ''h:1''\<rparr>)"
     "heap (both i w) (brk w + 3) = Some (Potential_impl \<lparr>callback = 2, user_data = null, free_fn = None\<rparr>)"
     "heap (both i w) (brk w) = Some (Force_input i)"
     "heap (both i w) (brk w + 1) = Some (out_struct null 0 0)"
     "input_rep (heap (both i w)) i 2 1 2 3 F"
     "input_data (heap (both i w)) 2 1 2 3 sample_positions [29, 1] sample_box"
    using both_ready by blast
  have len: "length sample_positions < max_list" by (simp add: sample_positions_def max_list_def)
  have tr: "faithful_transport (loopback ramp_serve) (addr \<lparr>runtime = 0, addr = ''h:1''\<rparr>)
      (\<lambda>params. PotentialServer_calculate test_env (lib_of silent_net) ramp_server params boot_world)"
    using loopback_faithful [of ramp_serve] by (simp add: ramp_serve_def [abs_def])
  from remote_equals_local [OF writing_pot.potential_callback_axioms r(2,3,4,5,6,7,8) len TrueI quiet_lib_of
      ramp_serve_legal boot_world_ok lib_builders tr] r(1)
  show ?thesis by fastforce
qed

text \<open>A server for the copper-hydrogen potential.\<close>

definition cuh2_serve :: "calculate_params \<Rightarrow> (capnp_error + result_builder) outcome" where
  "cuh2_serve params = PotentialServer_calculate cuh2_env (lib_of silent_net) ramp_server params boot_world"

lemma sample_eam_call: "eam_call sample_eam xs zs bs = cpp.Returned (xs, 7)"
  by (simp add: eam_call_def sample_eam_def)

lemma cuh2_serve_legal: "legal_answers (loopback cuh2_serve)"
proof (rule loopback_legal)
  fix xs zs bs rb ws
  assume legal: "legal_request xs zs bs" and run: "cuh2_serve (request_params xs zs bs) = Done (Inr rb) ws"
  then have len: "length xs = 3 * length zs" "length xs < max_list" "length bs = 9" by (simp_all add: legal_request_def)
  show "length (rb_forces rb) < max_list"
  proof (cases "set zs = {29, 1}")
    case True
    then have good: "cuh2_good sample_eam xs zs bs \<and> zs \<noteq> []"
      using len by (auto simp: cuh2_good_def sample_eam_call max_list_def)
    note con = cuh2_cb.meets_contract [of 2 null]
    from served_right [OF con boot_world_ok legal lib_builders good, of silent_net] run
    show ?thesis using potential_callback.forces_length [OF con good] len by (auto simp: cuh2_serve_def)
  next
    case False
    have "\<exists>e. CuH2Pot_forceImpl sample_eam (legacy_input n xs zs bs) (zeroed_out n) = Thrown e" if "unat n = length zs" for n :: usize
      using that len False by (intro cuh2_refuses) (simp_all add: max_list_def)
    from thrown_answers [where forceImpl = "\<lambda>_. CuH2Pot_forceImpl sample_eam", OF cuh2_env_code [of 2] this, of null]
    have "callback_answers cuh2_env (ps_callback ramp_server) (ps_user_data ramp_server) xs zs bs RGPOT_INTERNAL_ERROR 0 []" by simp
    from serve_answers [OF boot_world_ok legal lib_builders this, of silent_net] run
    show ?thesis by (auto simp: cuh2_serve_def answer_def max_list_def)
  qed
qed

theorem cuh2_remote_witness:
  "\<exists>inp w r w'. InputSpec_ctor plain_env 2 1 2 3 (push (Rpc_client \<lparr>runtime = 0, addr = ''h:1''\<rparr>) sample_world) = Done inp w \<and>
     cpp_rpc_calculate plain_env (lib_of (loopback cuh2_serve)) (brk sample_world) inp w = Done (Inr r) w' \<and>
     CalcResult_energy r w' = Done 7 w' \<and> forces_vec r w' = Done sample_positions w'"
proof -
  let ?c = "\<lparr>runtime = 0, addr = ''h:1''\<rparr>"
  let ?w1 = "push (Rpc_client ?c) sample_world" and ?cl = "brk sample_world"
  note g1 = grows_push [OF sample_world_ok, of "Rpc_client ?c"]
  note ok1 = growsD(1) [OF g1]
  obtain q w F where ctor: "InputSpec_ctor plain_env 2 1 2 3 ?w1 = Done \<lparr>spec_n_atoms = 2, spec_input = q\<rparr> w"
    and g2: "grows ?w1 w F" and spec: "spec_rep (heap w) q (Some (2, 1, 2, 3)) F"
    using InputSpec_ctor_rep [OF ok1] by blast
  have cl: "heap w ?cl = Some (Rpc_client ?c)" by (rule grows_keeps [OF g2 ok1]) simp
  have dat: "input_data (heap w) 2 1 2 3 sample_positions [29, 1] sample_box"
    by (intro input_data_grows [OF _ ok1 g2] input_data_grows [OF sample_data sample_world_ok g1])
  have tr: "faithful_transport (loopback cuh2_serve) (addr ?c)
      (\<lambda>params. PotentialServer_calculate cuh2_env (lib_of silent_net) ramp_server params boot_world)"
    using loopback_faithful [of cuh2_serve] by (simp add: cuh2_serve_def [abs_def])
  have spec': "spec_rep (heap w) (spec_input \<lparr>spec_n_atoms = 2, spec_input = q\<rparr>) (Some (2, 1, 2, 3)) F" using spec by simp
  have el: "set [29, 1 :: i32] = {29, 1}" and len: "length sample_positions < max_list"
    by (simp_all add: sample_positions_def max_list_def)
  from cuh2_remote [OF cuh2_env_code growsD(1) [OF g2] cl spec' dat len quiet_lib_of cuh2_serve_legal boot_world_ok lib_builders tr,
      of sample_positions 7 plain_env] ctor
  show ?thesis unfolding if_P [OF el] using sample_eam_call by blast
qed

text \<open>A handle on a potential behind the trampoline, and an input over arrays of the caller.\<close>

lemma handle_ready:
  assumes ok: "world_ok w" and dat: "input_data (heap w) n p a b xs zs bs"
  shows "\<exists>h w1 q w2 F. from_impl f ud w = Done h w1 \<and> InputSpec_ctor E n p a b w1 = Done \<lparr>spec_n_atoms = n, spec_input = q\<rparr> w2 \<and>
     world_ok w2 \<and> heap w2 h = Some (Potential_impl \<lparr>callback = f, user_data = ud, free_fn = None\<rparr>) \<and>
     spec_rep (heap w2) q (Some (n, p, a, b)) F \<and> input_data (heap w2) n p a b xs zs bs"
proof -
  let ?i = "\<lparr>callback = f, user_data = ud, free_fn = None\<rparr>"
  let ?w1 = "push (Potential_impl ?i) w"
  note g1 = grows_push [OF ok, of "Potential_impl ?i"]
  note ok1 = growsD(1) [OF g1]
  have new: "from_impl f ud w = Done (brk w) ?w1"
    by (simp add: from_impl_def rgpot_potential_new_def PotentialImpl_new_def exec)
  obtain q w2 F where ctor: "InputSpec_ctor E n p a b ?w1 = Done \<lparr>spec_n_atoms = n, spec_input = q\<rparr> w2"
    and g2: "grows ?w1 w2 F" and spec: "spec_rep (heap w2) q (Some (n, p, a, b)) F"
    using InputSpec_ctor_rep [OF ok1] by blast
  have "heap w2 (brk w) = Some (Potential_impl ?i)" by (rule grows_keeps [OF g2 ok1]) simp
  moreover have "input_data (heap w2) n p a b xs zs bs"
    by (intro input_data_grows [OF _ ok1 g2] input_data_grows [OF dat ok g1])
  ultimately show ?thesis using new ctor spec growsD(1) [OF g2] by blast
qed

lemma lj_env_code:
  "callback_code lj_env f = trampoline_callback plain_env (\<lambda>_. LJPot_forceImpl word_arith (LJPot_ctor word_arith))"
  by (simp add: lj_env_def)

text \<open>Two atoms at distance one.\<close>

definition near_world :: world where
  "near_world = push (F64s sample_box) (push (I32s [29, 1]) (push (F64s [1, 2, 3, 1, 2, 4]) boot_world))"

theorem lj_calls_witness:
  "\<exists>h w1 inp w2. from_impl 2 null near_world = Done h w1 \<and> InputSpec_ctor lj_env 2 1 2 3 w1 = Done inp w2 \<and>
     PotentialHandle_calculate lj_env h inp w2 = Undefined"
proof -
  let ?xs = "[1, 2, 3, 1, 2, 4] :: f64 list" and ?zs = "[29, 1] :: i32 list"
  have ok0: "world_ok near_world" unfolding near_world_def by (intro world_ok_push boot_world_ok)
  have dat0: "input_data (heap near_world) 2 1 2 3 ?xs ?zs sample_box"
    by (simp add: near_world_def boot_world_def input_data_def sample_box_def)
  obtain h w1 q w2 F where run: "from_impl 2 null near_world = Done h w1"
      "InputSpec_ctor lj_env 2 1 2 3 w1 = Done \<lparr>spec_n_atoms = 2, spec_input = q\<rparr> w2"
    and ok: "world_ok w2" and pot: "heap w2 h = Some (Potential_impl \<lparr>callback = 2, user_data = null, free_fn = None\<rparr>)"
    and spec: "spec_rep (heap w2) q (Some (2, 1, 2, 3)) F" and dat: "input_data (heap w2) 2 1 2 3 ?xs ?zs sample_box"
    using handle_ready [where f = 2 and ud = null and E = lj_env, OF ok0 dat0] by (elim exE conjE) (rule that)
  have "f_less word_arith (distance word_arith ?xs sample_box 0 1) (f_lit word_arith 15)"
    by (simp add: word_arith_def distance_def displacement_def min_image_def sample_box_def)
  then have near: "within_cutoff word_arith ?xs ?zs sample_box" unfolding within_cutoff_def by (intro exI [of _ 1] exI [of _ 0]) simp
  have "spec_rep (heap w2) (spec_input \<lparr>spec_n_atoms = 2, spec_input = q\<rparr>) (Some (2, 1, 2, 3)) F" using spec by simp
  from lj_calls [where Ldb = memory_libs and srv = empty_core and R = "lib_of silent_net" and what = "\<lambda>_. []",
      OF lj_env_code ok pot this dat] near
  have "PotentialHandle_calculate lj_env h \<lparr>spec_n_atoms = 2, spec_input = q\<rparr> w2 = Undefined" by (simp add: max_list_def)
  with run show ?thesis by blast
qed


definition failing_serve :: "calculate_params \<Rightarrow> (capnp_error + result_builder) outcome" where
  "failing_serve params = PotentialServer_calculate failing_env (lib_of silent_net) ramp_server params boot_world"

theorem remote_failure_reported_witness:
  "\<exists>i w w'. rgpot_force_input_create test_env 2 1 2 3 sample_world = Done i w \<and>
     rgpot_rpc_calculate test_env (lib_of (loopback failing_serve)) (brk w + 2) (brk w) (brk w + 1) (both i w) =
       Done RGPOT_RPC_ERROR w' \<and>
     core_mem w' = core_mem (both i w)"
proof -
  obtain i w F where r: "rgpot_force_input_create test_env 2 1 2 3 sample_world = Done i w"
     "world_ok (both i w)"
     "heap (both i w) (brk w + 2) = Some (Rpc_client \<lparr>runtime = 0, addr = ''h:1''\<rparr>)"
     "heap (both i w) (brk w) = Some (Force_input i)"
     "heap (both i w) (brk w + 1) = Some (out_struct null 0 0)"
     "input_rep (heap (both i w)) i 2 1 2 3 F"
     "input_data (heap (both i w)) 2 1 2 3 sample_positions [29, 1] sample_box"
    using both_ready by blast
  have fails: "\<exists>m \<ge> brk boot_world. failing_serve (request_params xs zs bs) =
      Done (Inl (Failed ''potential callback returned an error'')) (boot_world\<lparr>brk := m\<rparr>)"
    if "legal_request xs zs bs" for xs zs bs
    using serve_answers [OF boot_world_ok that lib_builders error_callback_answers]
    by (simp add: failing_serve_def answer_def max_list_def)
  have legal: "legal_answers (loopback failing_serve)"
    by (rule loopback_legal) (use fails in fastforce)
  have len: "length sample_positions < max_list" by (simp add: sample_positions_def max_list_def)
  have tr: "faithful_transport (loopback failing_serve) (addr \<lparr>runtime = 0, addr = ''h:1''\<rparr>)
      (\<lambda>params. PotentialServer_calculate failing_env (lib_of silent_net) ramp_server params boot_world)"
    using loopback_faithful [of failing_serve] by (simp add: failing_serve_def [abs_def])
  obtain m where "PotentialServer_calculate failing_env (lib_of silent_net) ramp_server
      (request_params sample_positions [29, 1] sample_box) boot_world =
      Done (Inl (Failed ''potential callback returned an error'')) (boot_world\<lparr>brk := m\<rparr>)"
    using fails [OF input_data_legal [OF r(7) len]] unfolding failing_serve_def by blast
  from remote_failure_reported [OF r(2-7) quiet_lib_of legal len tr this, of test_env] r(1)
  show ?thesis by blast
qed

section \<open>The unit tests of the core\<close>

text \<open>
  C40: The unit tests.  Every test of \<^verbatim>\<open>tensor.rs\<close>, \<^verbatim>\<open>status.rs\<close>, \<^verbatim>\<open>types.rs\<close>, \<^verbatim>\<open>c_api/types.rs\<close>,
  \<^verbatim>\<open>potential.rs\<close> and \<^verbatim>\<open>c_api/potential.rs\<close>, with its callbacks and destructors linked in, passes on the
  model from every well-formed state, in any selection, order and repetition: no assertion
  fails, nothing is undefined, messages and results come back as asserted, and all memory
  outside the error messages is given back.  The one thing assumed is that the copied flag
  of the DLPack crate is not zero.
\<close>

theorem core_tests_pass:
  assumes "is_copied_flag E \<noteq> 0"
    and "set ts \<subseteq> set (tensor_tests E) \<union> set status_tests \<union> set (types_tests E) \<union> set (potential_tests E) \<union> set (capi_tests E)"
  shows "passes (run_tests ts)"
  using assms tensor_tests_pass status_tests_pass types_tests_pass potential_tests_pass capi_tests_pass
  by (intro passes_run_tests) blast

theorem core_tests_pass_witness:
  "\<exists>w. run_tests (capi_tests plain_env @ rev (tensor_tests plain_env) @ status_tests @ types_tests plain_env @
       potential_tests plain_env) boot_world = Done () w \<and> core_mem w = Map.empty"
proof -
  have "passes (run_tests (capi_tests plain_env @ rev (tensor_tests plain_env) @ status_tests @ types_tests plain_env @
      potential_tests plain_env))"
    by (rule core_tests_pass [of plain_env]) (auto simp: plain_env_def)
  from passesD [OF this boot_world_ok] show ?thesis by (auto simp: core_mem_def boot_world_def)
qed

end
